theory Spec2Isabelle
  imports Complex_Main "HOL-Library.Log_Nat"
begin

section \<open>ChatLab: per-session store, streaming import and analytics queries\<close>

text \<open>
  A shallow embedding of the worker-side core of ChatLab (TypeScript): the per-session
  SQLite store, the analytics queries of \<^verbatim>\<open>worker/query\<close>, the ChatLab parser
  of \<^verbatim>\<open>parser/formats/chatlab.ts\<close> and the streaming importer of
  \<^verbatim>\<open>worker/import/streamImport.ts\<close>.

  Conventions of the embedding.
  \<^item> A JavaScript string is a \<^typ>\<open>string\<close> holding the UTF-8 bytes of the text. No
    white-space character starts inside the encoding of another character, so the
    white space of \<^verbatim>\<open>trim\<close> and of \<^verbatim>\<open>\s\<close> is found byte by byte.
  \<^item> Row ids, timestamps (seconds) and message types are \<^typ>\<open>int\<close>; counters are
    \<^typ>\<open>nat\<close>.
  \<^item> A JavaScript \<^verbatim>\<open>Map\<close> is an association list in insertion order: setting an
    existing key keeps its position, a new key goes to the end.
  \<^item> \<^verbatim>\<open>Array.prototype.sort\<close> is stable; \<^const>\<open>sort_key\<close> is a stable
    insertion sort, so a comparator \<^verbatim>\<open>(a, b) => b.k - a.k\<close> is
    \<open>sort_key (\<lambda>x. - k x)\<close>.
  \<^item> A JavaScript number is the \<^typ>\<open>rat\<close> it denotes; every division, product
    and difference the source computes in IEEE doubles is rounded by \<open>dbl\<close> to the
    nearest double (ties to even, normal range). Counts are below \<open>2^53\<close>.
\<close>

subsection \<open>JavaScript helpers\<close>

type_synonym ('k, 'v) jsmap = "('k \<times> 'v) list"

fun map_set :: "('k, 'v) jsmap \<Rightarrow> 'k \<Rightarrow> 'v \<Rightarrow> ('k, 'v) jsmap" where
  "map_set [] k v = [(k, v)]"
| "map_set ((k', v') # m) k v = (if k' = k then (k, v) # m else (k', v') # map_set m k v)"

definition map_get :: "('k, 'v) jsmap \<Rightarrow> 'k \<Rightarrow> 'v option" where
  "map_get m k = map_of m k"

definition map_has :: "('k, 'v) jsmap \<Rightarrow> 'k \<Rightarrow> bool" where
  "map_has m k = (map_of m k \<noteq> None)"

definition map_delete :: "('k, 'v) jsmap \<Rightarrow> 'k \<Rightarrow> ('k, 'v) jsmap" where
  "map_delete m k = filter (\<lambda>kv. fst kv \<noteq> k) m"

text \<open>\<^verbatim>\<open>m.set(k, (m.get(k) || 0) + 1)\<close>\<close>

definition map_incr :: "('k, nat) jsmap \<Rightarrow> 'k \<Rightarrow> ('k, nat) jsmap" where
  "map_incr m k = map_set m k ((case map_get m k of None \<Rightarrow> 0 | Some c \<Rightarrow> c) + 1)"

subsection \<open>JavaScript numbers\<close>

definition pow2 :: "int \<Rightarrow> rat" where
  "pow2 e = (if 0 \<le> e then 2 ^ nat e else 1 / 2 ^ nat (- e))"

text \<open>The quotient of two positive integers, rounded to the nearest integer, a tie to the even one.\<close>

definition round_div :: "int \<Rightarrow> int \<Rightarrow> int" where
  "round_div n d =
     (let f = n div d; r = n mod d
      in if 2 * r < d then f else if d < 2 * r then f + 1 else if even f then f else f + 1)"

text \<open>
  The double nearest to \<open>n / d\<close>, for positive \<open>n\<close> and \<open>d\<close>: the exponent \<open>e\<close> is chosen
  so that \<open>2^52 \<le> n / (d * 2^e) < 2^53\<close> (the bit lengths give it up to one), and the
  mantissa is that quotient rounded to even on a tie. The exponent is not bounded, which
  is exact for the normal range of doubles.
\<close>

definition dbl_pos :: "int \<Rightarrow> int \<Rightarrow> rat" where
  "dbl_pos n d =
     (let e0 = bitlen n - bitlen d - 53;
          n1 = (if e0 < 0 then n * 2 ^ nat (- e0) else n);
          d1 = (if e0 < 0 then d else d * 2 ^ nat e0);
          up = (9007199254740992 * d1 \<le> n1);
          e = (if up then e0 + 1 else e0);
          d2 = (if up then 2 * d1 else d1)
      in of_int (round_div n1 d2) * pow2 e)"

text \<open>An integer of at most 53 bits is a double; any other number is rounded.\<close>

definition dbl :: "rat \<Rightarrow> rat" where
  "dbl q =
     (case quotient_of q of (n, d) \<Rightarrow>
        if d = 1 \<and> \<bar>n\<bar> \<le> 9007199254740992 then q
        else if n < 0 then - dbl_pos (- n) d
        else dbl_pos n d)"

text \<open>\<^verbatim>\<open>Math.round\<close> rounds to the nearest integer, halves upwards.\<close>

definition js_round :: "rat \<Rightarrow> int" where
  "js_round x = \<lfloor>x + 1 / 2\<rfloor>"

text \<open>\<^verbatim>\<open>Math.round(x * 10000) / 100\<close>: a ratio as a percentage with two decimals.\<close>

definition percent2 :: "rat \<Rightarrow> rat" where
  "percent2 x = dbl (of_int (js_round (dbl (x * 10000))) / 100)"

text \<open>\<^verbatim>\<open>Math.round(x * 100) / 100\<close>\<close>

definition round2 :: "rat \<Rightarrow> rat" where
  "round2 x = dbl (of_int (js_round (dbl (x * 100))) / 100)"

subsection \<open>White space\<close>

text \<open>
  The white space and the line terminators of ECMAScript, which \<^verbatim>\<open>String.prototype.trim\<close>
  strips and \<^verbatim>\<open>\s\<close> matches, in UTF-8: U+0009 to U+000D, U+0020, U+00A0, U+1680,
  U+2000 to U+200A, U+2028, U+2029, U+202F, U+205F, U+3000 and U+FEFF.
\<close>

definition js_spaces :: "string list" where
  "js_spaces =
     [[CHR 0x09], [CHR 0x0A], [CHR 0x0B], [CHR 0x0C], [CHR 0x0D], [CHR 0x20],
      [CHR 0xC2, CHR 0xA0], [CHR 0xE1, CHR 0x9A, CHR 0x80],
      [CHR 0xE2, CHR 0x80, CHR 0x80], [CHR 0xE2, CHR 0x80, CHR 0x81],
      [CHR 0xE2, CHR 0x80, CHR 0x82], [CHR 0xE2, CHR 0x80, CHR 0x83],
      [CHR 0xE2, CHR 0x80, CHR 0x84], [CHR 0xE2, CHR 0x80, CHR 0x85],
      [CHR 0xE2, CHR 0x80, CHR 0x86], [CHR 0xE2, CHR 0x80, CHR 0x87],
      [CHR 0xE2, CHR 0x80, CHR 0x88], [CHR 0xE2, CHR 0x80, CHR 0x89],
      [CHR 0xE2, CHR 0x80, CHR 0x8A], [CHR 0xE2, CHR 0x80, CHR 0xA8],
      [CHR 0xE2, CHR 0x80, CHR 0xA9], [CHR 0xE2, CHR 0x80, CHR 0xAF],
      [CHR 0xE2, CHR 0x81, CHR 0x9F], [CHR 0xE3, CHR 0x80, CHR 0x80],
      [CHR 0xEF, CHR 0xBB, CHR 0xBF]]"

text \<open>The number of bytes of the pattern a string starts with, 0 when it starts with none.\<close>

definition starts_with :: "string list \<Rightarrow> string \<Rightarrow> nat" where
  "starts_with pats s =
     (case find (\<lambda>p. take (length p) s = p) pats of None \<Rightarrow> 0 | Some p \<Rightarrow> length p)"

definition js_space_len :: "string \<Rightarrow> nat" where
  "js_space_len s = starts_with js_spaces s"

text \<open>Stripping the patterns at the start of a string.\<close>

function strip_start :: "string list \<Rightarrow> string \<Rightarrow> string" where
  "strip_start pats [] = []"
| "strip_start pats (c # cs) =
     (if starts_with pats (c # cs) = 0 then c # cs
      else strip_start pats (drop (starts_with pats (c # cs) - 1) cs))"
  by pat_completeness auto
termination
  by (relation "measure (\<lambda>(pats, s). length s)") auto

text \<open>
  \<^verbatim>\<open>String.prototype.trim\<close>; the end is stripped on the reversed string. SQLite's
  \<^verbatim>\<open>TRIM\<close> strips spaces only.
\<close>

definition js_trim :: "string \<Rightarrow> string" where
  "js_trim s = rev (strip_start (map rev js_spaces) (rev (strip_start js_spaces s)))"

definition sql_trim :: "string \<Rightarrow> string" where
  "sql_trim s = rev (dropWhile (\<lambda>c. c = CHR 0x20) (rev (dropWhile (\<lambda>c. c = CHR 0x20) s)))"

subsection \<open>The store (\<^verbatim>\<open>createDatabaseWithoutIndexes\<close>)\<close>

record meta_row =
  meta_name :: string
  meta_platform :: string
  meta_type :: string
  meta_imported_at :: int

record member_row =
  member_id :: int
  member_platform_id :: string
  member_name :: string
  member_nickname :: "string option"

record name_history_row =
  nh_member_id :: int
  nh_name :: string
  nh_start_ts :: int
  nh_end_ts :: "int option"

record message_row =
  message_id :: int
  message_sender_id :: int
  message_ts :: int
  message_type :: int
  message_content :: "string option"

text \<open>The tables hold their rows in rowid order (the order of insertion).\<close>

record database =
  meta :: "meta_row list"
  member :: "member_row list"
  member_name_history :: "name_history_row list"
  message :: "message_row list"

definition empty_database :: database where
  "empty_database = \<lparr>meta = [], member = [], member_name_history = [], message = []\<rparr>"

text \<open>The reserved display name of the system sender, U+7CFB U+7EDF U+6D88 U+606F.\<close>

definition SYSTEM_NAME :: string where
  "SYSTEM_NAME = [CHR 0xE7, CHR 0xB3, CHR 0xBB, CHR 0xE7, CHR 0xBB, CHR 0x9F,
                  CHR 0xE6, CHR 0xB6, CHR 0x88, CHR 0xE6, CHR 0x81, CHR 0xAF]"

subsection \<open>Worker state and connections (\<^verbatim>\<open>core/dbCore.ts\<close>)\<close>

text \<open>
  The data directory maps a session id to the store file \<^verbatim>\<open><sessionId>.db\<close>. A
  file is identified by a number, so that a connection stays attached to its file when
  the directory entry is removed. \<open>dbCache\<close> is the module-level connection cache,
  \<open>tempFiles\<close> the files a preprocessor has left in the temp directory.
\<close>

type_synonym file_id = nat

record worker =
  dbDir :: "(string \<times> file_id) list"
  fileData :: "file_id \<Rightarrow> database"
  nextFile :: file_id
  dbCache :: "(string, file_id) jsmap"
  tempFiles :: "string list"

definition existsSync :: "worker \<Rightarrow> string \<Rightarrow> bool" where
  "existsSync w sessionId = (map_of (dbDir w) sessionId \<noteq> None)"

definition openDatabase :: "string \<Rightarrow> worker \<Rightarrow> file_id option \<times> worker" where
  "openDatabase sessionId w =
     (case map_get (dbCache w) sessionId of
        Some db \<Rightarrow> (Some db, w)
      | None \<Rightarrow>
          (case map_of (dbDir w) sessionId of
             None \<Rightarrow> (None, w)
           | Some f \<Rightarrow> (Some f, w\<lparr>dbCache := map_set (dbCache w) sessionId f\<rparr>)))"

subsection \<open>Time filter (\<^verbatim>\<open>buildTimeFilter\<close>)\<close>

record TimeFilter =
  startTs :: "int option"
  endTs :: "int option"

text \<open>
  The WHERE clause is a list of conditions joined by AND, each with one positional
  parameter; the empty list is the empty clause.
\<close>

datatype condition = TS_GE | TS_LE

definition buildTimeFilter :: "TimeFilter option \<Rightarrow> condition list \<times> int list" where
  "buildTimeFilter tf =
     (let (conditions, params) =
            (case (case tf of None \<Rightarrow> None | Some f \<Rightarrow> startTs f) of
               None \<Rightarrow> ([], [])
             | Some s \<Rightarrow> ([TS_GE], [s]));
          (conditions, params) =
            (case (case tf of None \<Rightarrow> None | Some f \<Rightarrow> endTs f) of
               None \<Rightarrow> (conditions, params)
             | Some e \<Rightarrow> (conditions @ [TS_LE], params @ [e]))
      in (conditions, params))"

text \<open>Evaluation of the clause on a row with timestamp \<open>ts\<close>.\<close>

fun clause_holds :: "condition list \<Rightarrow> int list \<Rightarrow> int \<Rightarrow> bool" where
  "clause_holds [] ps ts = True"
| "clause_holds (TS_GE # cs) (p # ps) ts = (ts \<ge> p \<and> clause_holds cs ps ts)"
| "clause_holds (TS_LE # cs) (p # ps) ts = (ts \<le> p \<and> clause_holds cs ps ts)"
| "clause_holds (c # cs) [] ts = False"

definition time_ok :: "TimeFilter option \<Rightarrow> int \<Rightarrow> bool" where
  "time_ok tf ts = (case buildTimeFilter tf of (clause, params) \<Rightarrow> clause_holds clause params ts)"

subsection \<open>Rows of \<^verbatim>\<open>message msg JOIN member m ON msg.sender_id = m.id\<close>\<close>

record msg_row =
  r_id :: int
  r_senderId :: int
  r_ts :: int
  r_type :: int
  r_content :: "string option"
  r_platformId :: string
  r_name :: string

definition join_row :: "message_row \<Rightarrow> member_row \<Rightarrow> msg_row" where
  "join_row msg m =
     \<lparr>r_id = message_id msg, r_senderId = message_sender_id msg, r_ts = message_ts msg,
      r_type = message_type msg, r_content = message_content msg,
      r_platformId = member_platform_id m, r_name = member_name m\<rparr>"

definition message_join_member :: "database \<Rightarrow> msg_row list" where
  "message_join_member db =
     concat (map (\<lambda>msg. map (join_row msg)
                          (filter (\<lambda>m. member_id m = message_sender_id msg) (member db)))
                 (message db))"

text \<open>\<^verbatim>\<open>ORDER BY msg.ts ASC, msg.id ASC\<close>\<close>

definition order_by_ts_id :: "msg_row list \<Rightarrow> msg_row list" where
  "order_by_ts_id rows = sort_key r_ts (sort_key r_id rows)"

section \<open>Repeat-chain analysis (\<^verbatim>\<open>query/advanced/repeat.ts\<close>)\<close>

subsection \<open>The query\<close>

record repeat_row =
  rr_id :: int
  rr_senderId :: int
  rr_content :: string
  rr_ts :: int
  rr_platformId :: string
  rr_name :: string

text \<open>
  \<^verbatim>\<open>WHERE <time filter> AND m.name != SYSTEM AND msg.type = 0 AND msg.content IS NOT NULL
  AND TRIM(msg.content) != '' ORDER BY msg.ts ASC, msg.id ASC\<close>. The selected content
  is never NULL, so the rows carry a plain string.
\<close>

definition repeat_where :: "TimeFilter option \<Rightarrow> msg_row \<Rightarrow> bool" where
  "repeat_where tf r =
     (time_ok tf (r_ts r) \<and> r_name r \<noteq> SYSTEM_NAME \<and> r_type r = 0 \<and>
      (case r_content r of None \<Rightarrow> False | Some c \<Rightarrow> sql_trim c \<noteq> []))"

definition repeat_select :: "msg_row \<Rightarrow> repeat_row option" where
  "repeat_select r =
     (case r_content r of
        None \<Rightarrow> None
      | Some c \<Rightarrow> Some \<lparr>rr_id = r_id r, rr_senderId = r_senderId r, rr_content = c,
                         rr_ts = r_ts r, rr_platformId = r_platformId r, rr_name = r_name r\<rparr>)"

definition repeat_query :: "database \<Rightarrow> TimeFilter option \<Rightarrow> repeat_row list" where
  "repeat_query db tf =
     List.map_filter repeat_select
       (order_by_ts_id (filter (repeat_where tf) (message_join_member db)))"

subsection \<open>The scan\<close>

record chain_entry =
  ce_senderId :: int
  ce_content :: string
  ce_ts :: int

record content_stat =
  cs_count :: nat
  cs_maxChainLength :: nat
  cs_originatorId :: int
  cs_lastTs :: int

text \<open>The variables the closure \<^verbatim>\<open>processRepeatChain\<close> and the loop share.\<close>

record repeat_state =
  originatorCount :: "(int, nat) jsmap"
  initiatorCount :: "(int, nat) jsmap"
  breakerCount :: "(int, nat) jsmap"
  memberMessageCount :: "(int, nat) jsmap"
  memberInfo :: "(int, string \<times> string) jsmap"
  chainLengthCount :: "(nat, nat) jsmap"
  contentStats :: "(string, content_stat) jsmap"
  currentContent :: "string option"
  repeatChain :: "chain_entry list"
  totalRepeatChains :: nat
  totalChainLength :: nat
  fastestRepeaterStats :: "(int, int \<times> nat) jsmap"

definition repeat_init :: repeat_state where
  "repeat_init =
     \<lparr>originatorCount = [], initiatorCount = [], breakerCount = [], memberMessageCount = [],
      memberInfo = [], chainLengthCount = [], contentStats = [], currentContent = None,
      repeatChain = [], totalRepeatChains = 0, totalChainLength = 0,
      fastestRepeaterStats = []\<rparr>"

text \<open>
  The reaction-time loop \<^verbatim>\<open>for (i = 1; i < chain.length; i++)\<close> over consecutive
  entries; differences are in milliseconds and only those within 20 s count.
\<close>

fun fastest_follower :: "chain_entry list \<Rightarrow> (int, int \<times> nat) jsmap \<Rightarrow> (int, int \<times> nat) jsmap" where
  "fastest_follower (prevMsg # currentMsg # rest) stats =
     (let diff = (ce_ts currentMsg - ce_ts prevMsg) * 1000;
          stats' =
            (if diff \<le> 20 * 1000 then
               (let st = (if \<not> map_has stats (ce_senderId currentMsg)
                          then map_set stats (ce_senderId currentMsg) (0, 0) else stats)
                in case map_get st (ce_senderId currentMsg) of
                     None \<Rightarrow> st
                   | Some (totalDiff, cnt) \<Rightarrow>
                       map_set st (ce_senderId currentMsg) (totalDiff + diff, cnt + 1))
             else stats)
      in fastest_follower (currentMsg # rest) stats')"
| "fastest_follower chain stats = stats"

definition processRepeatChain :: "chain_entry list \<Rightarrow> int option \<Rightarrow> repeat_state \<Rightarrow> repeat_state" where
  "processRepeatChain chain breakerId s =
     (case chain of
        c0 # c1 # c2 # rest \<Rightarrow>
          (let chainLength = length chain;
               originatorId = ce_senderId c0;
               initiatorId = ce_senderId c1;
               content = ce_content c0;
               chainTs = ce_ts c0
           in s\<lparr>totalRepeatChains := totalRepeatChains s + 1,
                 totalChainLength := totalChainLength s + chainLength,
                 originatorCount := map_incr (originatorCount s) originatorId,
                 initiatorCount := map_incr (initiatorCount s) initiatorId,
                 breakerCount :=
                   (case breakerId of
                      None \<Rightarrow> breakerCount s
                    | Some b \<Rightarrow> map_incr (breakerCount s) b),
                 chainLengthCount := map_incr (chainLengthCount s) chainLength,
                 contentStats :=
                   (case map_get (contentStats s) content of
                      Some existing \<Rightarrow>
                        map_set (contentStats s) content
                          \<lparr>cs_count = cs_count existing + 1,
                           cs_maxChainLength =
                             (if chainLength > cs_maxChainLength existing then chainLength
                              else cs_maxChainLength existing),
                           cs_originatorId =
                             (if chainLength > cs_maxChainLength existing then originatorId
                              else cs_originatorId existing),
                           cs_lastTs = max (cs_lastTs existing) chainTs\<rparr>
                    | None \<Rightarrow>
                        map_set (contentStats s) content
                          \<lparr>cs_count = 1, cs_maxChainLength = chainLength,
                           cs_originatorId = originatorId, cs_lastTs = chainTs\<rparr>),
                 fastestRepeaterStats := fastest_follower chain (fastestRepeaterStats s)\<rparr>)
      | _ \<Rightarrow> s)"

text \<open>
  \<^verbatim>\<open>repeatChain[repeatChain.length - 1]?.senderId\<close>: undefined on an empty chain.
\<close>

definition lastSender :: "chain_entry list \<Rightarrow> int option" where
  "lastSender chain = (if chain = [] then None else Some (ce_senderId (last chain)))"

text \<open>One iteration of \<^verbatim>\<open>for (const msg of messages)\<close>.\<close>

definition repeat_step :: "repeat_state \<Rightarrow> repeat_row \<Rightarrow> repeat_state" where
  "repeat_step s0 msg =
     (let s1 = (if \<not> map_has (memberInfo s0) (rr_senderId msg)
                then s0\<lparr>memberInfo :=
                          map_set (memberInfo s0) (rr_senderId msg) (rr_platformId msg, rr_name msg)\<rparr>
                else s0);
          s = s1\<lparr>memberMessageCount := map_incr (memberMessageCount s1) (rr_senderId msg)\<rparr>;
          content = js_trim (rr_content msg)
      in if Some content = currentContent s then
           (if lastSender (repeatChain s) \<noteq> Some (rr_senderId msg)
            then s\<lparr>repeatChain := repeatChain s @
                      [\<lparr>ce_senderId = rr_senderId msg, ce_content = content, ce_ts = rr_ts msg\<rparr>]\<rparr>
            else s)
         else
           (processRepeatChain (repeatChain s) (Some (rr_senderId msg)) s)
             \<lparr>currentContent := Some content,
              repeatChain :=
                [\<lparr>ce_senderId = rr_senderId msg, ce_content = content, ce_ts = rr_ts msg\<rparr>]\<rparr>)"

definition repeat_scan :: "repeat_row list \<Rightarrow> repeat_state" where
  "repeat_scan messages =
     (let s = foldl repeat_step repeat_init messages
      in processRepeatChain (repeatChain s) None s)"

subsection \<open>The result\<close>

record rank_item =
  rk_memberId :: int
  rk_platformId :: string
  rk_name :: string
  rk_count :: nat
  rk_percentage :: rat

record rate_item =
  rt_memberId :: int
  rt_platformId :: string
  rt_name :: string
  rt_count :: nat
  rt_totalMessages :: nat
  rt_rate :: rat

record fastest_item =
  fi_memberId :: int
  fi_platformId :: string
  fi_name :: string
  fi_count :: nat
  fi_avgTimeDiff :: int

record chain_length_item =
  cl_length :: nat
  cl_count :: nat

record hot_content =
  hc_content :: string
  hc_count :: nat
  hc_maxChainLength :: nat
  hc_originatorName :: string
  hc_lastTs :: int

text \<open>\<open>fastestRepeaters\<close> is absent from the empty result of the source.\<close>

record repeat_result =
  originators :: "rank_item list"
  initiators :: "rank_item list"
  breakers :: "rank_item list"
  fastestRepeaters :: "fastest_item list option"
  originatorRates :: "rate_item list"
  initiatorRates :: "rate_item list"
  breakerRates :: "rate_item list"
  chainLengthDistribution :: "chain_length_item list"
  hotContents :: "hot_content list"
  avgChainLength :: rat
  totalRepeatChains_r :: nat

definition repeat_emptyResult :: repeat_result where
  "repeat_emptyResult =
     \<lparr>originators = [], initiators = [], breakers = [], fastestRepeaters = None,
      originatorRates = [], initiatorRates = [], breakerRates = [],
      chainLengthDistribution = [], hotContents = [], avgChainLength = 0,
      totalRepeatChains_r = 0\<rparr>"

definition buildRankList :: "(int, string \<times> string) jsmap \<Rightarrow> (int, nat) jsmap \<Rightarrow> nat \<Rightarrow> rank_item list" where
  "buildRankList info countMap totl =
     sort_key (\<lambda>a. - int (rk_count a))
       (List.map_filter
          (\<lambda>(memberId, cnt).
             case map_get info memberId of
               None \<Rightarrow> None
             | Some (pid, nm) \<Rightarrow>
                 Some \<lparr>rk_memberId = memberId, rk_platformId = pid, rk_name = nm, rk_count = cnt,
                       rk_percentage =
                         (if totl > 0 then percent2 (dbl (of_nat cnt / of_nat totl)) else 0)\<rparr>)
          countMap)"

definition buildRateList ::
  "(int, string \<times> string) jsmap \<Rightarrow> (int, nat) jsmap \<Rightarrow> (int, nat) jsmap \<Rightarrow> rate_item list" where
  "buildRateList info msgCount countMap =
     sort_key (\<lambda>a. - rt_rate a)
       (List.map_filter
          (\<lambda>(memberId, cnt).
             let totalMessages = (case map_get msgCount memberId of None \<Rightarrow> 0 | Some n \<Rightarrow> n)
             in case map_get info memberId of
                  None \<Rightarrow> None
                | Some (pid, nm) \<Rightarrow>
                    if totalMessages > 0 then
                      Some \<lparr>rt_memberId = memberId, rt_platformId = pid, rt_name = nm,
                            rt_count = cnt, rt_totalMessages = totalMessages,
                            rt_rate = percent2 (dbl (of_nat cnt / of_nat totalMessages))\<rparr>
                    else None)
          countMap)"

definition buildFastestList ::
  "(int, string \<times> string) jsmap \<Rightarrow> (int, int \<times> nat) jsmap \<Rightarrow> fastest_item list" where
  "buildFastestList info stats =
     sort_key fi_avgTimeDiff
       (List.map_filter
          (\<lambda>(memberId, (totalDiff, cnt)).
             if cnt < 5 then None
             else case map_get info memberId of
                    None \<Rightarrow> None
                  | Some (pid, nm) \<Rightarrow>
                      Some \<lparr>fi_memberId = memberId, fi_platformId = pid, fi_name = nm,
                            fi_count = cnt,
                            fi_avgTimeDiff = js_round (dbl (of_int totalDiff / of_nat cnt))\<rparr>)
          stats)"

text \<open>The fallback originator name, U+672A U+77E5.\<close>

definition UNKNOWN_NAME :: string where
  "UNKNOWN_NAME = [CHR 0xE6, CHR 0x9C, CHR 0xAA, CHR 0xE7, CHR 0x9F, CHR 0xA5]"

definition buildHotContents ::
  "(int, string \<times> string) jsmap \<Rightarrow> (string, content_stat) jsmap \<Rightarrow> hot_content list" where
  "buildHotContents info stats =
     take 50
       (sort_key (\<lambda>a. - int (hc_maxChainLength a))
          (map (\<lambda>(content, st).
                  \<lparr>hc_content = content, hc_count = cs_count st,
                   hc_maxChainLength = cs_maxChainLength st,
                   hc_originatorName =
                     (case map_get info (cs_originatorId st) of
                        None \<Rightarrow> UNKNOWN_NAME
                      | Some (pid, nm) \<Rightarrow> if nm = [] then UNKNOWN_NAME else nm),
                   hc_lastTs = cs_lastTs st\<rparr>)
               stats))"

definition repeat_result_of :: "repeat_state \<Rightarrow> repeat_result" where
  "repeat_result_of s =
     \<lparr>originators = buildRankList (memberInfo s) (originatorCount s) (totalRepeatChains s),
      initiators = buildRankList (memberInfo s) (initiatorCount s) (totalRepeatChains s),
      breakers = buildRankList (memberInfo s) (breakerCount s) (totalRepeatChains s),
      fastestRepeaters = Some (buildFastestList (memberInfo s) (fastestRepeaterStats s)),
      originatorRates = buildRateList (memberInfo s) (memberMessageCount s) (originatorCount s),
      initiatorRates = buildRateList (memberInfo s) (memberMessageCount s) (initiatorCount s),
      breakerRates = buildRateList (memberInfo s) (memberMessageCount s) (breakerCount s),
      chainLengthDistribution =
        sort_key cl_length
          (map (\<lambda>(len, cnt). \<lparr>cl_length = len, cl_count = cnt\<rparr>) (chainLengthCount s)),
      hotContents = buildHotContents (memberInfo s) (contentStats s),
      avgChainLength =
        (if totalRepeatChains s > 0
         then round2 (dbl (of_nat (totalChainLength s) / of_nat (totalRepeatChains s))) else 0),
      totalRepeatChains_r = totalRepeatChains s\<rparr>"

definition getRepeatAnalysis :: "string \<Rightarrow> TimeFilter option \<Rightarrow> worker \<Rightarrow> repeat_result \<times> worker" where
  "getRepeatAnalysis sessionId tf w =
     (case openDatabase sessionId w of
        (None, w') \<Rightarrow> (repeat_emptyResult, w')
      | (Some db, w') \<Rightarrow> (repeat_result_of (repeat_scan (repeat_query (fileData w' db) tf)), w'))"

subsection \<open>The repeat-chain scenario: A, B, C say ``hi'', then A says ``bye''\<close>

definition repeat_scenario_db :: database where
  "repeat_scenario_db =
     \<lparr>meta = [],
      member = [\<lparr>member_id = 1, member_platform_id = ''a'', member_name = ''A'', member_nickname = None\<rparr>,
                \<lparr>member_id = 2, member_platform_id = ''b'', member_name = ''B'', member_nickname = None\<rparr>,
                \<lparr>member_id = 3, member_platform_id = ''c'', member_name = ''C'', member_nickname = None\<rparr>],
      member_name_history = [],
      message = [\<lparr>message_id = 1, message_sender_id = 1, message_ts = 100, message_type = 0, message_content = Some ''hi''\<rparr>,
                 \<lparr>message_id = 2, message_sender_id = 2, message_ts = 101, message_type = 0, message_content = Some ''hi''\<rparr>,
                 \<lparr>message_id = 3, message_sender_id = 3, message_ts = 102, message_type = 0, message_content = Some ''hi''\<rparr>,
                 \<lparr>message_id = 4, message_sender_id = 1, message_ts = 103, message_type = 0, message_content = Some ''bye''\<rparr>]\<rparr>"

definition repeat_scenario_worker :: worker where
  "repeat_scenario_worker = \<lparr>dbDir = [(''s'', 0)], fileData = (\<lambda>f. repeat_scenario_db), nextFile = 1, dbCache = [], tempFiles = []\<rparr>"

definition repeat_scenario_rows :: "repeat_row list" where
  "repeat_scenario_rows =
     [\<lparr>rr_id = 1, rr_senderId = 1, rr_content = ''hi'', rr_ts = 100, rr_platformId = ''a'', rr_name = ''A''\<rparr>,
      \<lparr>rr_id = 2, rr_senderId = 2, rr_content = ''hi'', rr_ts = 101, rr_platformId = ''b'', rr_name = ''B''\<rparr>,
      \<lparr>rr_id = 3, rr_senderId = 3, rr_content = ''hi'', rr_ts = 102, rr_platformId = ''c'', rr_name = ''C''\<rparr>,
      \<lparr>rr_id = 4, rr_senderId = 1, rr_content = ''bye'', rr_ts = 103, rr_platformId = ''a'', rr_name = ''A''\<rparr>]"

definition repeat_scenario_state :: repeat_state where
  "repeat_scenario_state =
     \<lparr>originatorCount = [(1, 1)], initiatorCount = [(2, 1)],
      breakerCount = [(1, 1)], memberMessageCount = [(1, 2), (2, 1), (3, 1)],
      memberInfo = [(1, ''a'', ''A''), (2, ''b'', ''B''), (3, ''c'', ''C'')],
      chainLengthCount = [(3, 1)],
      contentStats =
        [(''hi'', \<lparr>cs_count = 1, cs_maxChainLength = 3, cs_originatorId = 1, cs_lastTs = 100\<rparr>)],
      currentContent = Some ''bye'',
      repeatChain = [\<lparr>ce_senderId = 1, ce_content = ''bye'', ce_ts = 103\<rparr>],
      totalRepeatChains = 1, totalChainLength = 3,
      fastestRepeaterStats = [(2, 1000, 1), (3, 1000, 1)]\<rparr>"

text \<open>
  A state with the open chain A, B on ``hi'', a second ``hi'' of B (with a space before
  it and the ideographic space U+3000 and a space after it) and a following ``hi'' of C.
\<close>

definition repeat_witness_state :: repeat_state where
  "repeat_witness_state = foldl repeat_step repeat_init (take 2 repeat_scenario_rows)"

definition repeat_witness_msg :: repeat_row where
  "repeat_witness_msg =
     \<lparr>rr_id = 5, rr_senderId = 2, rr_content = '' hi'' @ [CHR 0xE3, CHR 0x80, CHR 0x80, CHR 0x20], rr_ts = 102, rr_platformId = ''b'',
      rr_name = ''B''\<rparr>"

definition repeat_witness_next :: repeat_row where
  "repeat_witness_next =
     \<lparr>rr_id = 6, rr_senderId = 3, rr_content = ''hi'', rr_ts = 103, rr_platformId = ''c'',
      rr_name = ''C''\<rparr>"


section \<open>Mention analysis (\<^verbatim>\<open>getMentionAnalysis\<close> in \<^verbatim>\<open>query/advanced/social.ts\<close>)\<close>

subsection \<open>Queries and the name lookup\<close>

text \<open>\<^verbatim>\<open>SELECT id, platform_id, name FROM member WHERE name != SYSTEM\<close>\<close>

definition mention_members :: "database \<Rightarrow> member_row list" where
  "mention_members db = filter (\<lambda>m. member_name m \<noteq> SYSTEM_NAME) (member db)"

text \<open>\<^verbatim>\<open>SELECT name FROM member_name_history WHERE member_id = ?\<close>\<close>

definition history_names :: "database \<Rightarrow> int \<Rightarrow> string list" where
  "history_names db memberId =
     map nh_name (filter (\<lambda>h. nh_member_id h = memberId) (member_name_history db))"

text \<open>
  The current name of a member always overwrites an earlier entry; a historical name is
  entered only when the name is still free.
\<close>

definition add_history_names :: "(string, int) jsmap \<Rightarrow> int \<Rightarrow> string list \<Rightarrow> (string, int) jsmap" where
  "add_history_names m memberId names =
     foldl (\<lambda>acc h. if \<not> map_has acc h then map_set acc h memberId else acc) m names"

definition build_nameToMemberId :: "database \<Rightarrow> member_row list \<Rightarrow> (string, int) jsmap" where
  "build_nameToMemberId db members =
     foldl (\<lambda>acc m. add_history_names (map_set acc (member_name m) (member_id m)) (member_id m)
                       (history_names db (member_id m)))
           [] members"

definition build_memberIdToInfo :: "member_row list \<Rightarrow> (int, string \<times> string) jsmap" where
  "build_memberIdToInfo members =
     foldl (\<lambda>acc m. map_set acc (member_id m) (member_platform_id m, member_name m)) [] members"

text \<open>
  \<^verbatim>\<open>WHERE <time filter> AND m.name != SYSTEM AND msg.type = 0 AND msg.content IS NOT NULL
  AND msg.content LIKE '%@%'\<close>, without ORDER BY: the rows come in table order.
\<close>

definition mention_where :: "TimeFilter option \<Rightarrow> msg_row \<Rightarrow> bool" where
  "mention_where tf r =
     (time_ok tf (r_ts r) \<and> r_name r \<noteq> SYSTEM_NAME \<and> r_type r = 0 \<and>
      (case r_content r of None \<Rightarrow> False | Some c \<Rightarrow> CHR ''@'' \<in> set c))"

definition mention_query :: "database \<Rightarrow> TimeFilter option \<Rightarrow> (int \<times> string) list" where
  "mention_query db tf =
     List.map_filter
       (\<lambda>r. case r_content r of None \<Rightarrow> None | Some c \<Rightarrow> Some (r_senderId r, c))
       (filter (mention_where tf) (message_join_member db))"

subsection \<open>The mention pattern \<^verbatim>\<open>/@([^\s@]+)/g\<close>\<close>

text \<open>
  The longest run of characters that are neither white space nor an at-sign, at the
  start of a string.
\<close>

fun name_run :: "string \<Rightarrow> string" where
  "name_run [] = []"
| "name_run (c # cs) =
     (if c = CHR ''@'' \<or> js_space_len (c # cs) > 0 then [] else c # name_run cs)"

text \<open>
  The captured names of all matches, left to right: after an at-sign the longest run of
  name characters; an at-sign followed by no name character matches nothing.
\<close>

function mentionedNames :: "string \<Rightarrow> string list" where
  "mentionedNames [] = []"
| "mentionedNames (c # cs) =
     (if c = CHR ''@'' \<and> name_run cs \<noteq> []
      then name_run cs # mentionedNames (drop (length (name_run cs)) cs)
      else mentionedNames cs)"
  by pat_completeness auto
termination
  by (relation "measure length") auto

subsection \<open>The mention matrix\<close>

record mention_state =
  mentionMatrix :: "(int, (int, nat) jsmap) jsmap"
  mentionedCount :: "(int, nat) jsmap"
  mentionerCount :: "(int, nat) jsmap"
  totalMentions :: nat

definition mention_init :: mention_state where
  "mention_init = \<lparr>mentionMatrix = [], mentionedCount = [], mentionerCount = [], totalMentions = 0\<rparr>"

text \<open>
  One match inside a message of \<open>senderId\<close>; \<open>seen\<close> is \<^verbatim>\<open>mentionedInThisMsg\<close>.
  An id counts when it is truthy (not 0), not the sender and not yet seen in the message.
\<close>

definition mention_match ::
  "(string, int) jsmap \<Rightarrow> int \<Rightarrow> int list \<times> mention_state \<Rightarrow> string \<Rightarrow> int list \<times> mention_state" where
  "mention_match nameToMemberId senderId acc mentionedName =
     (case acc of (seen, s) \<Rightarrow>
        (case map_get nameToMemberId mentionedName of
           None \<Rightarrow> (seen, s)
         | Some mentionedId \<Rightarrow>
             if mentionedId \<noteq> 0 \<and> mentionedId \<noteq> senderId \<and> mentionedId \<notin> set seen then
               (let matrix = (if \<not> map_has (mentionMatrix s) senderId
                              then map_set (mentionMatrix s) senderId [] else mentionMatrix s);
                    fromMap = (case map_get matrix senderId of None \<Rightarrow> [] | Some fm \<Rightarrow> fm)
                in (seen @ [mentionedId],
                    s\<lparr>totalMentions := totalMentions s + 1,
                      mentionMatrix := map_set matrix senderId (map_incr fromMap mentionedId),
                      mentionerCount := map_incr (mentionerCount s) senderId,
                      mentionedCount := map_incr (mentionedCount s) mentionedId\<rparr>))
             else (seen, s)))"

definition mention_step :: "(string, int) jsmap \<Rightarrow> mention_state \<Rightarrow> int \<times> string \<Rightarrow> mention_state" where
  "mention_step nameToMemberId s msg =
     snd (foldl (mention_match nameToMemberId (fst msg)) ([], s) (mentionedNames (snd msg)))"

subsection \<open>One-way and two-way pairs\<close>

record one_way_item =
  ow_fromMemberId :: int
  ow_fromName :: string
  ow_toMemberId :: int
  ow_toName :: string
  ow_fromToCount :: nat
  ow_toFromCount :: nat
  ow_ratio :: rat

record two_way_item =
  tw_member1Id :: int
  tw_member1Name :: string
  tw_member2Id :: int
  tw_member2Name :: string
  tw_member1To2 :: nat
  tw_member2To1 :: nat
  tw_total :: nat
  tw_balance :: rat

text \<open>\<^verbatim>\<open>mentionMatrix.get(a)?.get(b) || 0\<close>\<close>

definition matrix_get :: "(int, (int, nat) jsmap) jsmap \<Rightarrow> int \<Rightarrow> int \<Rightarrow> nat" where
  "matrix_get matrix a b =
     (case map_get matrix a of
        None \<Rightarrow> 0
      | Some toMap \<Rightarrow> (case map_get toMap b of None \<Rightarrow> 0 | Some c \<Rightarrow> c))"

text \<open>The entries of the nested loops over the matrix, in iteration order.\<close>

definition matrix_entries :: "(int, (int, nat) jsmap) jsmap \<Rightarrow> (int \<times> int \<times> nat) list" where
  "matrix_entries matrix =
     concat (map (\<lambda>(fromId, toMap). map (\<lambda>(toId, c). (fromId, toId, c)) toMap) matrix)"

text \<open>The pair key \<^verbatim>\<open>`${min}-${max}`\<close> is kept as the pair of both numbers.\<close>

definition pairKey :: "int \<Rightarrow> int \<Rightarrow> int \<times> int" where
  "pairKey fromId toId = (min fromId toId, max fromId toId)"

definition info_name :: "(int, string \<times> string) jsmap \<Rightarrow> int \<Rightarrow> string" where
  "info_name info memberId = (case map_get info memberId of None \<Rightarrow> [] | Some (pid, nm) \<Rightarrow> nm)"

definition oneWay_entry ::
  "(int, (int, nat) jsmap) jsmap \<Rightarrow> (int, string \<times> string) jsmap \<Rightarrow>
   (int \<times> int) list \<times> one_way_item list \<Rightarrow> int \<times> int \<times> nat \<Rightarrow> (int \<times> int) list \<times> one_way_item list" where
  "oneWay_entry matrix info acc e =
     (case (acc, e) of ((processedPairs, oneWay), (fromId, toId, fromToCount)) \<Rightarrow>
        if pairKey fromId toId \<in> set processedPairs then (processedPairs, oneWay)
        else
          (let processed = processedPairs @ [pairKey fromId toId];
               toFromCount = matrix_get matrix toId fromId;
               totl = fromToCount + toFromCount;
               ratio = dbl (of_nat fromToCount / of_nat totl)
           in if totl < 3 then (processed, oneWay)
              else if ratio \<ge> dbl (8 / 10) then
                (processed,
                 oneWay @ [\<lparr>ow_fromMemberId = fromId, ow_fromName = info_name info fromId,
                             ow_toMemberId = toId, ow_toName = info_name info toId,
                             ow_fromToCount = fromToCount, ow_toFromCount = toFromCount,
                             ow_ratio = round2 ratio\<rparr>])
              else if ratio \<le> dbl (2 / 10) then
                (processed,
                 oneWay @ [\<lparr>ow_fromMemberId = toId, ow_fromName = info_name info toId,
                             ow_toMemberId = fromId, ow_toName = info_name info fromId,
                             ow_fromToCount = toFromCount, ow_toFromCount = fromToCount,
                             ow_ratio = round2 (dbl (1 - ratio))\<rparr>])
              else (processed, oneWay)))"

definition detect_oneWay ::
  "(int, (int, nat) jsmap) jsmap \<Rightarrow> (int, string \<times> string) jsmap \<Rightarrow> one_way_item list" where
  "detect_oneWay matrix info =
     sort_key (\<lambda>a. - int (ow_fromToCount a))
       (snd (foldl (oneWay_entry matrix info) ([], []) (matrix_entries matrix)))"

definition twoWay_entry ::
  "(int, (int, nat) jsmap) jsmap \<Rightarrow> (int, string \<times> string) jsmap \<Rightarrow>
   (int \<times> int) list \<times> two_way_item list \<Rightarrow> int \<times> int \<times> nat \<Rightarrow> (int \<times> int) list \<times> two_way_item list" where
  "twoWay_entry matrix info acc e =
     (case (acc, e) of ((processedPairs, twoWay), (fromId, toId, fromToCount)) \<Rightarrow>
        if pairKey fromId toId \<in> set processedPairs then (processedPairs, twoWay)
        else
          (let processed = processedPairs @ [pairKey fromId toId];
               toFromCount = matrix_get matrix toId fromId;
               totl = fromToCount + toFromCount;
               ratio = dbl (of_nat (min fromToCount toFromCount) / of_nat (max fromToCount toFromCount))
           in if totl < 5 then (processed, twoWay)
              else if toFromCount = 0 \<or> fromToCount = 0 then (processed, twoWay)
              else if ratio \<ge> dbl (3 / 10) then
                (processed,
                 twoWay @ [\<lparr>tw_member1Id = fromId, tw_member1Name = info_name info fromId,
                             tw_member2Id = toId, tw_member2Name = info_name info toId,
                             tw_member1To2 = fromToCount, tw_member2To1 = toFromCount,
                             tw_total = totl, tw_balance = round2 ratio\<rparr>])
              else (processed, twoWay)))"

definition detect_twoWay ::
  "(int, (int, nat) jsmap) jsmap \<Rightarrow> (int, string \<times> string) jsmap \<Rightarrow> two_way_item list" where
  "detect_twoWay matrix info =
     sort_key (\<lambda>a. - int (tw_total a))
       (snd (foldl (twoWay_entry matrix info) ([], []) (matrix_entries matrix)))"

subsection \<open>The result\<close>

record mention_edge =
  me_fromMemberId :: int
  me_fromName :: string
  me_toMemberId :: int
  me_toName :: string
  me_count :: nat

record member_detail =
  md_memberId :: int
  md_name :: string
  md_topMentioned :: "mention_edge list"
  md_topMentioners :: "mention_edge list"

record mention_result =
  topMentioners :: "rank_item list"
  topMentioned :: "rank_item list"
  oneWay_r :: "one_way_item list"
  twoWay_r :: "two_way_item list"
  totalMentions_r :: nat
  memberDetails :: "member_detail list"

definition mention_emptyResult :: mention_result where
  "mention_emptyResult =
     \<lparr>topMentioners = [], topMentioned = [], oneWay_r = [], twoWay_r = [], totalMentions_r = 0,
      memberDetails = []\<rparr>"

text \<open>
  The rankings read \<^verbatim>\<open>memberIdToInfo.get(memberId)!\<close>. Every key of the count maps is
  the id of a queried member, which has an entry.
\<close>

definition mention_rank :: "(int, string \<times> string) jsmap \<Rightarrow> (int, nat) jsmap \<Rightarrow> nat \<Rightarrow> rank_item list" where
  "mention_rank info countMap totl =
     sort_key (\<lambda>a. - int (rk_count a))
       (List.map_filter
          (\<lambda>(memberId, cnt).
             case map_get info memberId of
               None \<Rightarrow> None
             | Some (pid, nm) \<Rightarrow>
                 Some \<lparr>rk_memberId = memberId, rk_platformId = pid, rk_name = nm, rk_count = cnt,
                       rk_percentage = percent2 (dbl (of_nat cnt / of_nat totl))\<rparr>)
          countMap)"

definition build_memberDetail ::
  "(int, (int, nat) jsmap) jsmap \<Rightarrow> (int, string \<times> string) jsmap \<Rightarrow> member_row \<Rightarrow> member_detail option" where
  "build_memberDetail matrix info m =
     (let memberId = member_id m;
          topMentionedByThis =
            (case map_get matrix memberId of
               None \<Rightarrow> []
             | Some toMap \<Rightarrow>
                 sort_key (\<lambda>a. - int (me_count a))
                   (map (\<lambda>(toId, c).
                           \<lparr>me_fromMemberId = memberId, me_fromName = info_name info memberId,
                            me_toMemberId = toId, me_toName = info_name info toId, me_count = c\<rparr>)
                        toMap));
          topMentionersOfThis =
            sort_key (\<lambda>a. - int (me_count a))
              (List.map_filter
                 (\<lambda>(fromId, toMap).
                    case map_get toMap memberId of
                      None \<Rightarrow> None
                    | Some c \<Rightarrow>
                        if c = 0 then None
                        else Some \<lparr>me_fromMemberId = fromId, me_fromName = info_name info fromId,
                                   me_toMemberId = memberId, me_toName = info_name info memberId,
                                   me_count = c\<rparr>)
                 matrix)
      in if length topMentionedByThis > 0 \<or> length topMentionersOfThis > 0
         then Some \<lparr>md_memberId = memberId, md_name = info_name info memberId,
                    md_topMentioned = take 5 topMentionedByThis,
                    md_topMentioners = take 5 topMentionersOfThis\<rparr>
         else None)"

definition mention_analysis :: "database \<Rightarrow> TimeFilter option \<Rightarrow> mention_result" where
  "mention_analysis db tf =
     (let members = mention_members db
      in if length members = 0 then mention_emptyResult
         else
           (let nameToMemberId = build_nameToMemberId db members;
                memberIdToInfo = build_memberIdToInfo members;
                messages = mention_query db tf;
                s = foldl (mention_step nameToMemberId) mention_init messages
            in if totalMentions s = 0 then mention_emptyResult
               else
                 \<lparr>topMentioners = mention_rank memberIdToInfo (mentionerCount s) (totalMentions s),
                  topMentioned = mention_rank memberIdToInfo (mentionedCount s) (totalMentions s),
                  oneWay_r = detect_oneWay (mentionMatrix s) memberIdToInfo,
                  twoWay_r = detect_twoWay (mentionMatrix s) memberIdToInfo,
                  totalMentions_r = totalMentions s,
                  memberDetails =
                    List.map_filter (build_memberDetail (mentionMatrix s) memberIdToInfo) members\<rparr>))"

definition getMentionAnalysis :: "string \<Rightarrow> TimeFilter option \<Rightarrow> worker \<Rightarrow> mention_result \<times> worker" where
  "getMentionAnalysis sessionId tf w =
     (case openDatabase sessionId w of
        (None, w') \<Rightarrow> (mention_emptyResult, w')
      | (Some db, w') \<Rightarrow> (mention_analysis (fileData w' db) tf, w'))"

subsection \<open>Mention scenarios: two members A and B mentioning each other\<close>

definition mention_members_AB :: "member_row list" where
  "mention_members_AB =
     [\<lparr>member_id = 1, member_platform_id = ''a'', member_name = ''A'', member_nickname = None\<rparr>,
      \<lparr>member_id = 2, member_platform_id = ''b'', member_name = ''B'', member_nickname = None\<rparr>]"

text \<open>Text messages with ids and timestamps \<open>start, start + 1, \<dots>\<close>.\<close>

fun text_messages :: "int \<Rightarrow> (int \<times> string) list \<Rightarrow> message_row list" where
  "text_messages start [] = []"
| "text_messages start ((sender, c) # rest) =
     \<lparr>message_id = start, message_sender_id = sender, message_ts = 1000 + start, message_type = 0,
      message_content = Some c\<rparr> # text_messages (start + 1) rest"

definition mention_db :: "(int \<times> string) list \<Rightarrow> database" where
  "mention_db msgs =
     \<lparr>meta = [], member = mention_members_AB, member_name_history = [],
      message = text_messages 1 msgs\<rparr>"

definition mention_worker :: "(int \<times> string) list \<Rightarrow> worker" where
  "mention_worker msgs = \<lparr>dbDir = [(''s'', 0)], fileData = (\<lambda>f. mention_db msgs), nextFile = 1, dbCache = [], tempFiles = []\<rparr>"

text \<open>
  A mentions B nine times, the name followed by the ideographic space U+3000 or by a
  space; B mentions A once, or four times.
\<close>

definition msgs_9_1 :: "(int \<times> string) list" where
  "msgs_9_1 =
     replicate 5 (1, ''@B'' @ [CHR 0xE3, CHR 0x80, CHR 0x80] @ ''hello'') @
     replicate 4 (1, ''@B hello'') @ [(2, ''thanks @A'')]"

definition msgs_5_4 :: "(int \<times> string) list" where
  "msgs_5_4 = replicate 4 (2, ''thanks @A'') @ replicate 5 (1, ''@B hello'')"

subsection \<open>Mentions between two members\<close>

text \<open>
  A message mentions the member \<open>b\<close> when one of its at-names resolves to \<open>b\<close> and \<open>b\<close>
  is not its sender; \<open>mention_count\<close> is the number of queried messages of \<open>a\<close> that
  mention \<open>b\<close>.
\<close>

definition mentions :: "(string, int) jsmap \<Rightarrow> int \<times> string \<Rightarrow> int \<Rightarrow> bool" where
  "mentions nameToMemberId msg b \<longleftrightarrow>
     b \<noteq> 0 \<and> b \<noteq> fst msg \<and>
     Some b \<in> set (map (map_get nameToMemberId) (mentionedNames (snd msg)))"

definition mention_count :: "database \<Rightarrow> TimeFilter option \<Rightarrow> int \<Rightarrow> int \<Rightarrow> nat" where
  "mention_count db tf a b =
     length (filter (\<lambda>msg. fst msg = a \<and>
                            mentions (build_nameToMemberId db (mention_members db)) msg b)
                    (mention_query db tf))"

text \<open>The state after the scan of all queried messages.\<close>

definition mention_scan :: "database \<Rightarrow> TimeFilter option \<Rightarrow> mention_state" where
  "mention_scan db tf =
     foldl (mention_step (build_nameToMemberId db (mention_members db))) mention_init
       (mention_query db tf)"

text \<open>A matrix built by \<^verbatim>\<open>Map.set\<close> has every key once, on both levels.\<close>

definition wf_matrix :: "(int, (int, nat) jsmap) jsmap \<Rightarrow> bool" where
  "wf_matrix matrix \<longleftrightarrow>
     distinct (map fst matrix) \<and> (\<forall>e \<in> set matrix. distinct (map fst (snd e)))"

text \<open>
  The entries a loop with \<^verbatim>\<open>processedPairs\<close> does not skip: those whose key is not
  among the processed keys and has not come before.
\<close>

fun firsts :: "('e \<Rightarrow> 'k) \<Rightarrow> 'k list \<Rightarrow> 'e list \<Rightarrow> 'e list" where
  "firsts key processed [] = []"
| "firsts key processed (x # xs) =
     (if key x \<in> set processed then firsts key processed xs
      else x # firsts key (processed @ [key x]) xs)"

definition entry_key :: "int \<times> int \<times> nat \<Rightarrow> int \<times> int" where
  "entry_key e = (case e of (fromId, toId, c) \<Rightarrow> pairKey fromId toId)"

text \<open>What the one-way and the two-way loop push for an entry they do not skip.\<close>

definition oneWay_items ::
  "(int, (int, nat) jsmap) jsmap \<Rightarrow> (int, string \<times> string) jsmap \<Rightarrow> int \<times> int \<times> nat \<Rightarrow>
   one_way_item list" where
  "oneWay_items matrix info e = snd (oneWay_entry matrix info ([], []) e)"

definition twoWay_items ::
  "(int, (int, nat) jsmap) jsmap \<Rightarrow> (int, string \<times> string) jsmap \<Rightarrow> int \<times> int \<times> nat \<Rightarrow>
   two_way_item list" where
  "twoWay_items matrix info e = snd (twoWay_entry matrix info ([], []) e)"

text \<open>The ids one message newly counts: resolved from an at-name, not 0, not the sender, not yet seen.\<close>

definition counted :: "(string, int) jsmap \<Rightarrow> int \<Rightarrow> int list \<Rightarrow> string list \<Rightarrow> int \<Rightarrow> bool" where
  "counted n2id sender seen names y \<longleftrightarrow>
     y \<notin> set seen \<and> y \<noteq> 0 \<and> y \<noteq> sender \<and> Some y \<in> set (map (map_get n2id) names)"

text \<open>The name \<^verbatim>\<open>memberIdToInfo\<close> holds for a member.\<close>

definition mention_name :: "database \<Rightarrow> int \<Rightarrow> string" where
  "mention_name db a = info_name (build_memberIdToInfo (mention_members db)) a"


section \<open>The ChatLab parser (\<^verbatim>\<open>parser/formats/chatlab.ts\<close>)\<close>

subsection \<open>Parse events\<close>

record ParsedMeta =
  pm_name :: string
  pm_platform :: string
  pm_type :: string

record ParsedMember =
  mb_platformId :: string
  mb_name :: string
  mb_nickname :: "string option"

text \<open>
  A parsed message. \<open>None\<close> for the timestamp or the type stands for a missing value
  (\<^verbatim>\<open>undefined\<close>, \<^verbatim>\<open>null\<close> or \<^verbatim>\<open>NaN\<close>); a missing sender id or name is the empty
  string; the content is a string or \<^verbatim>\<open>null\<close>.
\<close>

record ParsedMessage =
  senderPlatformId :: string
  senderName :: string
  timestamp :: "int option"
  msgType :: "int option"
  msgContent :: "string option"

datatype stage = Parsing | Importing | StageDone

text \<open>
  The progress payload of \<^verbatim>\<open>createProgress\<close>, without its percentage and its
  message text.
\<close>

record ParseProgress =
  pp_stage :: stage
  pp_bytesRead :: nat
  pp_totalBytes :: nat
  pp_messagesProcessed :: nat

datatype parse_event =
    Progress ParseProgress
  | Meta ParsedMeta
  | Members "ParsedMember list"
  | Messages "ParsedMessage list"
  | Done nat nat

definition createProgress :: "stage \<Rightarrow> nat \<Rightarrow> nat \<Rightarrow> nat \<Rightarrow> ParseProgress" where
  "createProgress st bytesRead totalBytes messagesProcessed =
     \<lparr>pp_stage = st, pp_bytesRead = bytesRead, pp_totalBytes = totalBytes,
      pp_messagesProcessed = messagesProcessed\<rparr>"

subsection \<open>The file\<close>

text \<open>
  A ChatLab export as the parser sees it. The decoding of the first 200000 bytes
  (regular-expression search, brace matching, \<^verbatim>\<open>JSON.parse\<close>) and the streaming JSON
  reader are library work; their outcomes are fields of the file:
  \<^item> \<open>cf_headMeta\<close>: name, platform and type of the \<^verbatim>\<open>meta\<close> object (an absent or
    empty field is the empty string), \<open>None\<close> when no object is found or it does not parse;
  \<^item> \<open>cf_headMembers\<close>: platform id and name of the members found in the head, empty
    when none is found or the list does not parse;
  \<^item> \<open>cf_messages\<close>: the values of \<^verbatim>\<open>messages.N\<close> in file order;
  \<^item> \<open>cf_streamError\<close>: the error of the reader on malformed or truncated input.
\<close>

record ChatLabMessage =
  clm_sender :: string
  clm_name :: string
  clm_timestamp :: "int option"
  clm_type :: "int option"
  clm_content :: "string option"

record chatlab_file =
  cf_basename :: string
  cf_totalBytes :: nat
  cf_headMeta :: "(string \<times> string \<times> string) option"
  cf_headMembers :: "(string \<times> string) list"
  cf_messages :: "ChatLabMessage list"
  cf_streamError :: "string option"

text \<open>The default group name, U+672A U+77E5 U+7FA4 U+804A.\<close>

definition DEFAULT_GROUP_NAME :: string where
  "DEFAULT_GROUP_NAME = [CHR 0xE6, CHR 0x9C, CHR 0xAA, CHR 0xE7, CHR 0x9F, CHR 0xA5,
                         CHR 0xE7, CHR 0xBE, CHR 0xA4, CHR 0xE8, CHR 0x81, CHR 0x8A]"

text \<open>
  Modelled from the spec: the values of \<^verbatim>\<open>ChatPlatform.UNKNOWN\<close> and
  \<^verbatim>\<open>ChatType.GROUP\<close>, declared in \<^verbatim>\<open>src/types/chat\<close>.
\<close>

definition ChatPlatform_UNKNOWN :: string where
  "ChatPlatform_UNKNOWN = ''unknown''"

definition ChatType_GROUP :: string where
  "ChatType_GROUP = ''group''"

text \<open>\<^verbatim>\<open>basename.replace(/\.json$/i, '')\<close>, with the default for an empty result.\<close>

definition is_json_ext :: "string \<Rightarrow> bool" where
  "is_json_ext e =
     (case e of
        [c0, c1, c2, c3, c4] \<Rightarrow>
          c0 = CHR ''.'' \<and> c1 \<in> {CHR ''j'', CHR ''J''} \<and> c2 \<in> {CHR ''s'', CHR ''S''} \<and>
          c3 \<in> {CHR ''o'', CHR ''O''} \<and> c4 \<in> {CHR ''n'', CHR ''N''}
      | _ \<Rightarrow> False)"

definition extractNameFromFilePath :: "string \<Rightarrow> string" where
  "extractNameFromFilePath basename =
     (let name = (if is_json_ext (drop (length basename - 5) basename)
                  then take (length basename - 5) basename else basename)
      in if name = [] then DEFAULT_GROUP_NAME else name)"

definition chatlab_meta :: "chatlab_file \<Rightarrow> ParsedMeta" where
  "chatlab_meta f =
     (let meta =
            (case cf_headMeta f of
               None \<Rightarrow> \<lparr>pm_name = DEFAULT_GROUP_NAME, pm_platform = ChatPlatform_UNKNOWN,
                         pm_type = ChatType_GROUP\<rparr>
             | Some (name, platform, type) \<Rightarrow>
                 \<lparr>pm_name = (if name = [] then DEFAULT_GROUP_NAME else name),
                  pm_platform = (if platform = [] then ChatPlatform_UNKNOWN else platform),
                  pm_type = (if type = [] then ChatType_GROUP else type)\<rparr>)
      in if pm_name meta = DEFAULT_GROUP_NAME
         then meta\<lparr>pm_name := extractNameFromFilePath (cf_basename f)\<rparr> else meta)"

definition chatlab_members :: "chatlab_file \<Rightarrow> ParsedMember list" where
  "chatlab_members f =
     map (\<lambda>(pid, nm). \<lparr>mb_platformId = pid, mb_name = nm, mb_nickname = None\<rparr>) (cf_headMembers f)"

subsection \<open>Reading the message stream\<close>

record collector =
  memberMapFromMessages :: "(string, ParsedMember) jsmap"
  batchCollector :: "ParsedMessage list"
  messageBatch :: "ParsedMessage list"
  messagesProcessed :: nat

definition collector_init :: collector where
  "collector_init =
     \<lparr>memberMapFromMessages = [], batchCollector = [], messageBatch = [], messagesProcessed = 0\<rparr>"

text \<open>The handler of \<^verbatim>\<open>pipeline.on('data')\<close>.\<close>

definition on_data :: "ParsedMember list \<Rightarrow> nat \<Rightarrow> collector \<Rightarrow> ChatLabMessage \<Rightarrow> collector" where
  "on_data members batchSize c msg =
     (let c1 = (if length members = 0
                then c\<lparr>memberMapFromMessages :=
                         map_set (memberMapFromMessages c) (clm_sender msg)
                           \<lparr>mb_platformId = clm_sender msg, mb_name = clm_name msg,
                            mb_nickname = None\<rparr>\<rparr>
                else c);
          c2 = c1\<lparr>batchCollector := batchCollector c1 @
                     [\<lparr>senderPlatformId = clm_sender msg, senderName = clm_name msg,
                       timestamp = clm_timestamp msg, msgType = clm_type msg,
                       msgContent = clm_content msg\<rparr>],
                   messagesProcessed := messagesProcessed c1 + 1\<rparr>
      in if length (batchCollector c2) \<ge> batchSize
         then c2\<lparr>messageBatch := messageBatch c2 @ batchCollector c2, batchCollector := []\<rparr>
         else c2)"

text \<open>The handler of \<^verbatim>\<open>pipeline.on('end')\<close>.\<close>

definition on_end :: "collector \<Rightarrow> collector" where
  "on_end c =
     (if length (batchCollector c) > 0
      then c\<lparr>messageBatch := messageBatch c @ batchCollector c\<rparr> else c)"

subsection \<open>The generator\<close>

text \<open>
  \<^verbatim>\<open>for (let i = 0; i < messageBatch.length; i += batchSize) yield slice(i, i + batchSize)\<close>.
  The loop does not end when the batch size is 0 and there are messages; then the value
  is \<open>None\<close>.
\<close>

partial_function (option) yield_batches :: "nat \<Rightarrow> ParsedMessage list \<Rightarrow> nat \<Rightarrow> parse_event list option" where
  "yield_batches batchSize msgs i =
     (if i < length msgs
      then Option.bind (yield_batches batchSize msgs (i + batchSize))
             (\<lambda>rest. Some (Messages (take batchSize (drop i msgs)) # rest))
      else Some [])"

text \<open>
  The events the generator yields, and the error it throws after them if it does.
  The \<^verbatim>\<open>onProgress\<close> callbacks are calls to the caller, not events.
\<close>

definition parseChatLab :: "nat \<Rightarrow> chatlab_file \<Rightarrow> (parse_event list \<times> string option) option" where
  "parseChatLab batchSize f =
     (let totalBytes = cf_totalBytes f;
          start = [Progress (createProgress Parsing 0 totalBytes 0), Meta (chatlab_meta f)];
          members = chatlab_members f
      in case cf_streamError f of
           Some err \<Rightarrow> Some (start, Some err)
         | None \<Rightarrow>
             (let c = on_end (foldl (on_data members batchSize) collector_init (cf_messages f));
                  membersEvent =
                    (if length members > 0 then [Members members]
                     else if length (memberMapFromMessages c) > 0
                     then [Members (map snd (memberMapFromMessages c))]
                     else [])
              in case yield_batches batchSize (messageBatch c) 0 of
                   None \<Rightarrow> None
                 | Some batches \<Rightarrow>
                     Some (start @ membersEvent @ batches @
                           [Progress (createProgress StageDone totalBytes totalBytes (messagesProcessed c)),
                            Done (messagesProcessed c)
                              (if length members > 0 then length members
                               else length (memberMapFromMessages c))],
                           None)))"

subsection \<open>The event-stream contract\<close>

fun is_meta :: "parse_event \<Rightarrow> bool" where
  "is_meta (Meta m) = True"
| "is_meta e = False"

fun is_messages :: "parse_event \<Rightarrow> bool" where
  "is_messages (Messages b) = True"
| "is_messages e = False"

fun is_done :: "parse_event \<Rightarrow> bool" where
  "is_done (Done n m) = True"
| "is_done e = False"

fun batch_length :: "parse_event \<Rightarrow> nat" where
  "batch_length (Messages b) = length b"
| "batch_length e = 0"

text \<open>No \<open>messages\<close> event comes before the first \<open>meta\<close> event.\<close>

definition meta_before_messages :: "parse_event list \<Rightarrow> bool" where
  "meta_before_messages evs = (\<not> list_ex is_messages (takeWhile (\<lambda>e. \<not> is_meta e) evs))"

subsection \<open>A small export: three messages of two senders, no member list\<close>

definition chatlab_witness_file :: chatlab_file where
  "chatlab_witness_file =
     \<lparr>cf_basename = ''group.json'', cf_totalBytes = 300, cf_headMeta = None, cf_headMembers = [],
      cf_messages =
        [\<lparr>clm_sender = ''a'', clm_name = ''Ann'', clm_timestamp = Some 10, clm_type = Some 0,
          clm_content = Some ''x''\<rparr>,
         \<lparr>clm_sender = ''b'', clm_name = ''Bob'', clm_timestamp = Some 11, clm_type = Some 0,
          clm_content = Some ''y''\<rparr>,
         \<lparr>clm_sender = ''a'', clm_name = ''Ann'', clm_timestamp = Some 12, clm_type = Some 0,
          clm_content = None\<rparr>],
      cf_streamError = None\<rparr>"

section \<open>The streaming importer (\<^verbatim>\<open>worker/import/streamImport.ts\<close>)\<close>

subsection \<open>Statements on the store\<close>

text \<open>\<^verbatim>\<open>INTEGER PRIMARY KEY AUTOINCREMENT\<close>: one more than the largest id.\<close>

definition next_id :: "int list \<Rightarrow> int" where
  "next_id ids = foldr max ids 0 + 1"

definition insertMeta :: "string \<Rightarrow> string \<Rightarrow> string \<Rightarrow> int \<Rightarrow> database \<Rightarrow> database" where
  "insertMeta name platform type importedAt db =
     db\<lparr>meta := meta db @ [\<lparr>meta_name = name, meta_platform = platform, meta_type = type,
                              meta_imported_at = importedAt\<rparr>]\<rparr>"

text \<open>\<^verbatim>\<open>INSERT OR IGNORE\<close>: a row whose platform id is already present is dropped.\<close>

definition insertMember :: "string \<Rightarrow> string \<Rightarrow> string option \<Rightarrow> database \<Rightarrow> database" where
  "insertMember platformId name nickname db =
     (if platformId \<in> set (map member_platform_id (member db)) then db
      else db\<lparr>member := member db @
                  [\<lparr>member_id = next_id (map member_id (member db)),
                    member_platform_id = platformId, member_name = name,
                    member_nickname = nickname\<rparr>]\<rparr>)"

text \<open>\<^verbatim>\<open>SELECT id FROM member WHERE platform_id = ?\<close>\<close>

definition getMemberId :: "database \<Rightarrow> string \<Rightarrow> int option" where
  "getMemberId db platformId =
     (case find (\<lambda>m. member_platform_id m = platformId) (member db) of
        None \<Rightarrow> None
      | Some m \<Rightarrow> Some (member_id m))"

definition insertMessage :: "int \<Rightarrow> int \<Rightarrow> int \<Rightarrow> string option \<Rightarrow> database \<Rightarrow> database" where
  "insertMessage senderId ts type content db =
     db\<lparr>message := message db @
           [\<lparr>message_id = next_id (map message_id (message db)), message_sender_id = senderId,
             message_ts = ts, message_type = type, message_content = content\<rparr>]\<rparr>"

definition insertNameHistory :: "name_history_row \<Rightarrow> database \<Rightarrow> database" where
  "insertNameHistory row db = db\<lparr>member_name_history := member_name_history db @ [row]\<rparr>"

text \<open>\<^verbatim>\<open>UPDATE member SET name = ? WHERE platform_id = ?\<close>\<close>

definition updateMemberName :: "string \<Rightarrow> string \<Rightarrow> database \<Rightarrow> database" where
  "updateMemberName name platformId db =
     db\<lparr>member := map (\<lambda>m. if member_platform_id m = platformId then m\<lparr>member_name := name\<rparr> else m)
                        (member db)\<rparr>"

subsection \<open>The state of one import\<close>

record tracker =
  tr_currentName :: string
  tr_lastSeenTs :: int
  tr_history :: "(string \<times> int) list"

text \<open>
  The connection and the variables of the closure. \<open>cur\<close> is the store as the connection
  sees it, \<open>committed\<close> the content of the file; \<open>dbInTx\<close> is SQLite's own transaction
  state, \<open>inTransaction\<close> the flag the source keeps.

  Exceptions: \<open>thrown\<close> holds the error once something has thrown, and no later step of
  the guarded block runs. \<open>faultIn = Some n\<close> makes the statement after \<open>n\<close> successful
  ones throw (a failing disk, for instance); \<open>None\<close> is a store that never fails.
\<close>

record import_state =
  cur :: database
  committed :: database
  dbInTx :: bool
  inTransaction :: bool
  memberIdMap :: "(string, int) jsmap"
  memberNicknameMap :: "(string, string) jsmap"
  nicknameTracker :: "(string, tracker) jsmap"
  metaInserted :: bool
  messageCountInBatch :: nat
  totalMessageCount :: nat
  lastCheckpointCount :: nat
  faultIn :: "nat option"
  thrown :: "string option"

definition BATCH_COMMIT_SIZE :: nat where
  "BATCH_COMMIT_SIZE = 50000"

definition CHECKPOINT_INTERVAL :: nat where
  "CHECKPOINT_INTERVAL = 200000"

definition guard :: "(import_state \<Rightarrow> import_state) \<Rightarrow> import_state \<Rightarrow> import_state" where
  "guard f s = (if thrown s = None then f s else s)"

definition throw :: "string \<Rightarrow> import_state \<Rightarrow> import_state" where
  "throw e s = s\<lparr>thrown := Some e\<rparr>"

text \<open>One call into SQLite: it throws when the fault is due.\<close>

definition tick :: "import_state \<Rightarrow> import_state" where
  "tick s =
     (case faultIn s of
        None \<Rightarrow> s
      | Some n \<Rightarrow> (case n of 0 \<Rightarrow> throw ''SqliteError'' s | Suc m \<Rightarrow> s\<lparr>faultIn := Some m\<rparr>))"

text \<open>A writing statement; outside a transaction it is committed at once.\<close>

definition run :: "(database \<Rightarrow> database) \<Rightarrow> import_state \<Rightarrow> import_state" where
  "run f s =
     guard (\<lambda>s. s\<lparr>cur := f (cur s),
                   committed := (if dbInTx s then committed s else f (cur s))\<rparr>)
           (tick s)"

definition exec_BEGIN :: "import_state \<Rightarrow> import_state" where
  "exec_BEGIN s =
     guard (\<lambda>s. if dbInTx s then throw ''cannot start a transaction within a transaction'' s
                 else s\<lparr>dbInTx := True\<rparr>)
           (tick s)"

definition exec_COMMIT :: "import_state \<Rightarrow> import_state" where
  "exec_COMMIT s =
     guard (\<lambda>s. if \<not> dbInTx s then throw ''cannot commit - no transaction is active'' s
                 else s\<lparr>committed := cur s, dbInTx := False\<rparr>)
           (tick s)"

text \<open>\<^verbatim>\<open>try { db.exec('ROLLBACK') } catch { }\<close>\<close>

definition exec_ROLLBACK_ignoring :: "import_state \<Rightarrow> import_state" where
  "exec_ROLLBACK_ignoring s = (if dbInTx s then s\<lparr>cur := committed s, dbInTx := False\<rparr> else s)"

text \<open>\<^verbatim>\<open>db.close()\<close> abandons a transaction that is still open.\<close>

definition db_close :: "import_state \<Rightarrow> import_state" where
  "db_close s = (if dbInTx s then s\<lparr>cur := committed s, dbInTx := False\<rparr> else s)"

definition beginTransaction :: "import_state \<Rightarrow> import_state" where
  "beginTransaction s =
     (if \<not> inTransaction s then guard (\<lambda>s. s\<lparr>inTransaction := True\<rparr>) (exec_BEGIN s) else s)"

text \<open>
  \<^verbatim>\<open>doCheckpoint\<close> swallows its errors and moves no row; progress messages and the
  performance log are not modelled.
\<close>

definition doCheckpoint :: "import_state \<Rightarrow> import_state" where
  "doCheckpoint s = s"

definition commitAndBeginNew :: "import_state \<Rightarrow> import_state" where
  "commitAndBeginNew s =
     guard beginTransaction
       (if inTransaction s then
          guard (\<lambda>s. let s1 = s\<lparr>inTransaction := False\<rparr>
                      in if totalMessageCount s1 - lastCheckpointCount s1 \<ge> CHECKPOINT_INTERVAL
                         then (doCheckpoint s1)\<lparr>lastCheckpointCount := totalMessageCount s1\<rparr>
                         else s1)
                (exec_COMMIT s)
        else s)"

subsection \<open>The callbacks\<close>

definition onMeta :: "int \<Rightarrow> ParsedMeta \<Rightarrow> import_state \<Rightarrow> import_state" where
  "onMeta now m s =
     (if \<not> metaInserted s
      then guard (\<lambda>s. s\<lparr>metaInserted := True\<rparr>)
                 (run (insertMeta (pm_name m) (pm_platform m) (pm_type m) now) s)
      else s)"

text \<open>\<^verbatim>\<open>member.nickname || null\<close>\<close>

definition nickname_or_null :: "string option \<Rightarrow> string option" where
  "nickname_or_null n = (case n of None \<Rightarrow> None | Some x \<Rightarrow> if x = [] then None else Some x)"

definition cacheMemberId :: "string \<Rightarrow> import_state \<Rightarrow> import_state" where
  "cacheMemberId platformId s =
     (case getMemberId (cur s) platformId of
        None \<Rightarrow> s
      | Some i \<Rightarrow> s\<lparr>memberIdMap := map_set (memberIdMap s) platformId i\<rparr>)"

definition onMember :: "ParsedMember \<Rightarrow> import_state \<Rightarrow> import_state" where
  "onMember mbr s =
     (let s1 = run (insertMember (mb_platformId mbr) (mb_name mbr)
                      (nickname_or_null (mb_nickname mbr))) s;
          s2 = guard tick s1;
          s3 = guard (cacheMemberId (mb_platformId mbr)) s2
      in guard (\<lambda>s. case nickname_or_null (mb_nickname mbr) of
                        None \<Rightarrow> s
                      | Some n \<Rightarrow> s\<lparr>memberNicknameMap :=
                                       map_set (memberNicknameMap s) (mb_platformId mbr) n\<rparr>)
               s3)"

definition onMembers :: "ParsedMember list \<Rightarrow> import_state \<Rightarrow> import_state" where
  "onMembers members s = foldl (\<lambda>s m. guard (onMember m) s) s members"

text \<open>The block \<^verbatim>\<open>if (!memberIdMap.has(msg.senderPlatformId)) { ... }\<close>.\<close>

definition ensureMember :: "ParsedMessage \<Rightarrow> import_state \<Rightarrow> import_state" where
  "ensureMember msg s =
     (if \<not> map_has (memberIdMap s) (senderPlatformId msg) then
        (let memberName = (if senderName msg \<noteq> [] then senderName msg else senderPlatformId msg);
             s1 = run (insertMember (senderPlatformId msg) memberName None) s;
             s2 = guard tick s1
         in guard (cacheMemberId (senderPlatformId msg)) s2)
      else s)"

text \<open>
  Nickname tracking. A name is a real nickname when it is neither the platform id nor
  the member's original nickname.
\<close>

definition isRealNickname :: "import_state \<Rightarrow> string \<Rightarrow> string \<Rightarrow> bool" where
  "isRealNickname s platformId name =
     (name \<noteq> platformId \<and> Some name \<noteq> map_get (memberNicknameMap s) platformId)"

definition trackNickname :: "string \<Rightarrow> string \<Rightarrow> int \<Rightarrow> import_state \<Rightarrow> import_state" where
  "trackNickname platformId name ts s =
     (case map_get (nicknameTracker s) platformId of
        None \<Rightarrow>
          if isRealNickname s platformId name
          then s\<lparr>nicknameTracker :=
                   map_set (nicknameTracker s) platformId
                     \<lparr>tr_currentName = name, tr_lastSeenTs = ts, tr_history = [(name, ts)]\<rparr>\<rparr>
          else s
      | Some t \<Rightarrow>
          if tr_currentName t \<noteq> name \<and> isRealNickname s platformId name
          then s\<lparr>nicknameTracker :=
                   map_set (nicknameTracker s) platformId
                     \<lparr>tr_currentName = name, tr_lastSeenTs = ts,
                      tr_history = tr_history t @ [(name, ts)]\<rparr>\<rparr>
          else s\<lparr>nicknameTracker :=
                   map_set (nicknameTracker s) platformId (t\<lparr>tr_lastSeenTs := ts\<rparr>)\<rparr>)"

text \<open>What follows \<^verbatim>\<open>insertMessage.run\<close> in the loop body.\<close>

definition afterInsert :: "string \<Rightarrow> string \<Rightarrow> int \<Rightarrow> import_state \<Rightarrow> import_state" where
  "afterInsert platformId name ts s =
     (let s1 = s\<lparr>messageCountInBatch := messageCountInBatch s + 1,
                  totalMessageCount := totalMessageCount s + 1\<rparr>;
          s2 = trackNickname platformId name ts s1
      in if messageCountInBatch s2 \<ge> BATCH_COMMIT_SIZE
         then guard (\<lambda>s. s\<lparr>messageCountInBatch := 0\<rparr>) (commitAndBeginNew s2)
         else s2)"

text \<open>One iteration of \<^verbatim>\<open>for (const msg of messages)\<close>; every \<^verbatim>\<open>continue\<close> returns the state.\<close>

definition onMessage :: "ParsedMessage \<Rightarrow> import_state \<Rightarrow> import_state" where
  "onMessage msg s =
     (if senderPlatformId msg = [] \<or> senderName msg = [] then s
      else case timestamp msg of
             None \<Rightarrow> s
           | Some ts \<Rightarrow>
               (case msgType msg of
                  None \<Rightarrow> s
                | Some ty \<Rightarrow>
                    guard (\<lambda>s. case map_get (memberIdMap s) (senderPlatformId msg) of
                                  None \<Rightarrow> s
                                | Some senderId \<Rightarrow>
                                    guard (afterInsert (senderPlatformId msg)
                                             (if senderName msg \<noteq> [] then senderName msg
                                              else senderPlatformId msg) ts)
                                          (run (insertMessage senderId ts ty (msgContent msg)) s))
                          (ensureMember msg s)))"

definition onMessageBatch :: "ParsedMessage list \<Rightarrow> import_state \<Rightarrow> import_state" where
  "onMessageBatch messages s = foldl (\<lambda>s m. guard (onMessage m) s) s messages"

subsection \<open>Driving the parser\<close>

text \<open>
  Modelled from the spec: \<^verbatim>\<open>streamParseFile\<close> of \<^verbatim>\<open>parser/index.ts\<close>, which is not
  among the sources. It hands each event of the parser to the matching callback, in
  order, and fails with the parser's error when the event stream fails. The progress
  callback only posts a message.
\<close>

definition dispatch :: "int \<Rightarrow> parse_event \<Rightarrow> import_state \<Rightarrow> import_state" where
  "dispatch now e s =
     (case e of
        Meta m \<Rightarrow> onMeta now m s
      | Members ms \<Rightarrow> onMembers ms s
      | Messages b \<Rightarrow> onMessageBatch b s
      | Progress p \<Rightarrow> s
      | Done n m \<Rightarrow> s)"

definition streamParseFile :: "int \<Rightarrow> parse_event list \<Rightarrow> string option \<Rightarrow> import_state \<Rightarrow> import_state" where
  "streamParseFile now events err s =
     (let s1 = foldl (\<lambda>s e. guard (dispatch now e) s) s events
      in case err of None \<Rightarrow> s1 | Some e \<Rightarrow> guard (throw e) s1)"

subsection \<open>Nickname history\<close>

text \<open>
  \<^verbatim>\<open>uniqueNames\<close>: each name with the time of its first and of its latest entry.
\<close>

definition uniqueNames :: "(string \<times> int) list \<Rightarrow> (string, int \<times> int) jsmap" where
  "uniqueNames history =
     foldl (\<lambda>u h. case map_get u (fst h) of
                     None \<Rightarrow> map_set u (fst h) (snd h, snd h)
                   | Some existing \<Rightarrow> map_set u (fst h) (fst existing, snd h))
           [] history"

text \<open>The rows of one member: each ends where the next starts, the last one is open.\<close>

fun historyRows :: "int \<Rightarrow> (string \<times> int \<times> int) list \<Rightarrow> name_history_row list" where
  "historyRows senderId [] = []"
| "historyRows senderId [(name, start, latest)] =
     [\<lparr>nh_member_id = senderId, nh_name = name, nh_start_ts = start, nh_end_ts = None\<rparr>]"
| "historyRows senderId ((name, start, latest) # next # rest) =
     \<lparr>nh_member_id = senderId, nh_name = name, nh_start_ts = start,
      nh_end_ts = Some (fst (snd next))\<rparr> # historyRows senderId (next # rest)"

text \<open>One iteration of \<^verbatim>\<open>for (const [platformId, tracker] of nicknameTracker.entries())\<close>.\<close>

definition writeHistory :: "string \<times> tracker \<Rightarrow> import_state \<Rightarrow> import_state" where
  "writeHistory entry s =
     (case entry of (platformId, t) \<Rightarrow>
        if platformId = [] \<or> platformId = ''0'' \<or> platformId = ''undefined'' then s
        else case map_get (memberIdMap s) platformId of
               None \<Rightarrow> s
             | Some senderId \<Rightarrow>
                 if senderId = 0 then s
                 else
                   (let names = map_delete (uniqueNames (tr_history t)) platformId
                    in if length names \<le> 1
                       then run (updateMemberName (tr_currentName t) platformId) s
                       else
                         (let sortedHistory = sort_key (\<lambda>a. fst (snd a)) names;
                              s1 = foldl (\<lambda>s row. guard (run (insertNameHistory row)) s) s
                                     (historyRows senderId sortedHistory)
                          in guard (run (updateMemberName (tr_currentName t) platformId)) s1)))"

subsection \<open>The guarded block\<close>

text \<open>The body of \<^verbatim>\<open>try\<close>, from \<^verbatim>\<open>streamParseFile\<close> to the final checkpoint.\<close>

definition import_try :: "int \<Rightarrow> parse_event list \<Rightarrow> string option \<Rightarrow> import_state \<Rightarrow> import_state" where
  "import_try now events err s =
     (let s1 = streamParseFile now events err s;
          s2 = guard (\<lambda>s. if inTransaction s
                           then guard (\<lambda>s. s\<lparr>inTransaction := False\<rparr>) (exec_COMMIT s)
                           else s) s1;
          s3 = guard exec_BEGIN s2;
          s4 = guard (\<lambda>s. foldl (\<lambda>s entry. guard (writeHistory entry) s) s (nicknameTracker s)) s3;
          s5 = guard exec_COMMIT s4;
          s6 = guard (run (\<lambda>db. db)) s5
      in guard doCheckpoint s6)"

text \<open>The handler of \<^verbatim>\<open>catch\<close>, up to the deletion of the file.\<close>

definition import_catch :: "import_state \<Rightarrow> import_state" where
  "import_catch s = (if inTransaction s then exec_ROLLBACK_ignoring s else s)"

subsection \<open>\<^verbatim>\<open>streamImport\<close>\<close>

text \<open>
  What the environment gives one call. Modelled from the spec, as their sources
  (\<^verbatim>\<open>parser/index.ts\<close>, the preprocessor) are not among the sources:
  \<^item> \<open>in_format\<close>: the format \<^verbatim>\<open>detectFormat\<close> resolves, \<open>None\<close> for no match;
  \<^item> \<open>in_preprocess\<close>: \<open>None\<close> when the format has no preprocessor or the file is small,
    \<open>Some (Inl e)\<close> when preprocessing throws \<open>e\<close>, \<open>Some (Inr t)\<close> when it leaves the
    smaller working file \<open>t\<close> in the temp directory; \<^verbatim>\<open>cleanup\<close> removes that file;
  \<^item> \<open>in_events\<close>, \<open>in_parseError\<close>: the events the parser yields for the working file
    and the error it fails with.
  \<open>in_sessionId\<close> is the generated id, \<open>in_now\<close> the clock in seconds when \<open>meta\<close>
  arrives, \<open>in_fault\<close> the fault of the store.
\<close>

record import_input =
  in_format :: "string option"
  in_preprocess :: "(string + string) option"
  in_sessionId :: string
  in_now :: int
  in_events :: "parse_event list"
  in_parseError :: "string option"
  in_fault :: "nat option"

record StreamImportResult =
  res_success :: bool
  res_sessionId :: "string option"
  res_error :: "string option"

text \<open>The promise resolves with a result, or rejects with an exception nobody caught.\<close>

datatype import_outcome = Returned StreamImportResult | Rejected string

definition UNRECOGNIZED_FORMAT :: string where
  "UNRECOGNIZED_FORMAT =
     [CHR 0xE6, CHR 0x97, CHR 0xA0, CHR 0xE6, CHR 0xB3, CHR 0x95, CHR 0xE8, CHR 0xAF, CHR 0x86,
      CHR 0xE5, CHR 0x88, CHR 0xAB, CHR 0xE6, CHR 0x96, CHR 0x87, CHR 0xE4, CHR 0xBB, CHR 0xB6,
      CHR 0xE6, CHR 0xA0, CHR 0xBC, CHR 0xE5, CHR 0xBC, CHR 0x8F]"

definition PREPROCESS_FAILED :: string where
  "PREPROCESS_FAILED =
     [CHR 0xE9, CHR 0xA2, CHR 0x84, CHR 0xE5, CHR 0xA4, CHR 0x84, CHR 0xE7, CHR 0x90, CHR 0x86,
      CHR 0xE5, CHR 0xA4, CHR 0xB1, CHR 0xE8, CHR 0xB4, CHR 0xA5, CHR 0x3A, CHR 0x20]"

text \<open>
  \<^verbatim>\<open>new Database(dbPath)\<close> opens the file of the session, creating an empty one when
  there is none.
\<close>

definition newDatabase :: "string \<Rightarrow> worker \<Rightarrow> file_id \<times> worker" where
  "newDatabase sid w =
     (case map_of (dbDir w) sid of
        Some f \<Rightarrow> (f, w)
      | None \<Rightarrow>
          (nextFile w,
           w\<lparr>dbDir := dbDir w @ [(sid, nextFile w)],
             fileData := (fileData w)(nextFile w := empty_database),
             nextFile := nextFile w + 1\<rparr>))"

definition import_init :: "database \<Rightarrow> nat option \<Rightarrow> import_state" where
  "import_init db fault =
     \<lparr>cur = db, committed = db, dbInTx = False, inTransaction = False, memberIdMap = [],
      memberNicknameMap = [], nicknameTracker = [], metaInserted = False,
      messageCountInBatch = 0, totalMessageCount = 0, lastCheckpointCount = 0,
      faultIn = fault, thrown = None\<rparr>"

text \<open>
  Between the creation of the file and \<^verbatim>\<open>try\<close>: three pragmas and the creation of the
  tables (in \<^verbatim>\<open>createDatabaseWithoutIndexes\<close>), six \<^verbatim>\<open>db.prepare\<close> and
  \<^verbatim>\<open>beginTransaction()\<close>. The tables are the four lists of the store, so creating them
  changes nothing.
\<close>

definition import_setup :: "import_state \<Rightarrow> import_state" where
  "import_setup s = guard beginTransaction (((guard tick) ^^ 10) s)"

definition unlinkSync :: "string \<Rightarrow> worker \<Rightarrow> worker" where
  "unlinkSync sid w = w\<lparr>dbDir := filter (\<lambda>e. fst e \<noteq> sid) (dbDir w)\<rparr>"

definition cleanup :: "string option \<Rightarrow> worker \<Rightarrow> worker" where
  "cleanup tempFilePath w =
     (case tempFilePath of
        None \<Rightarrow> w
      | Some t \<Rightarrow> w\<lparr>tempFiles := filter (\<lambda>x. x \<noteq> t) (tempFiles w)\<rparr>)"

text \<open>The state in which the connection is left, for the outcome below.\<close>

definition import_run :: "import_input \<Rightarrow> database \<Rightarrow> import_state" where
  "import_run inp db =
     (let s0 = import_setup (import_init db (in_fault inp))
      in if thrown s0 \<noteq> None then s0
         else
           (let s1 = import_try (in_now inp) (in_events inp) (in_parseError inp) s0
            in db_close (if thrown s1 \<noteq> None then import_catch s1 else s1)))"

definition streamImport :: "import_input \<Rightarrow> worker \<Rightarrow> import_outcome \<times> worker" where
  "streamImport inp w =
     (case in_format inp of
        None \<Rightarrow>
          (Returned \<lparr>res_success = False, res_sessionId = None, res_error = Some UNRECOGNIZED_FORMAT\<rparr>, w)
      | Some fmt \<Rightarrow>
          (case in_preprocess inp of
             Some (Inl e) \<Rightarrow>
               (Returned \<lparr>res_success = False, res_sessionId = None, res_error = Some (PREPROCESS_FAILED @ e)\<rparr>, w)
           | pre \<Rightarrow>
               (let tempFilePath = (case pre of Some (Inr t) \<Rightarrow> Some t | _ \<Rightarrow> None);
                    w0 = (case tempFilePath of
                            None \<Rightarrow> w
                          | Some t \<Rightarrow> w\<lparr>tempFiles := tempFiles w @ [t]\<rparr>);
                    (f, w1) = newDatabase (in_sessionId inp) w0;
                    s0 = import_setup (import_init (fileData w1 f) (in_fault inp));
                    s = import_run inp (fileData w1 f);
                    w2 = w1\<lparr>fileData := (fileData w1)(f := committed s)\<rparr>
                in case thrown s0 of
                     Some e \<Rightarrow> (Rejected e, w2)
                   | None \<Rightarrow>
                       (case thrown s of
                          Some e \<Rightarrow>
                            (Returned \<lparr>res_success = False, res_sessionId = None, res_error = Some e\<rparr>,
                             cleanup tempFilePath (unlinkSync (in_sessionId inp) w2))
                        | None \<Rightarrow>
                            (Returned \<lparr>res_success = True, res_sessionId = Some (in_sessionId inp),
                                       res_error = None\<rparr>,
                             cleanup tempFilePath w2)))))"

subsection \<open>Session listing and lookup (\<^verbatim>\<open>query/basic.ts\<close>)\<close>

record session_info =
  si_id :: string
  si_name :: string
  si_platform :: string
  si_type :: string
  si_importedAt :: int
  si_messageCount :: nat
  si_memberCount :: nat

text \<open>
  \<^verbatim>\<open>SELECT COUNT(*) FROM message msg JOIN member m ON msg.sender_id = m.id
  WHERE m.name != SYSTEM\<close> and \<^verbatim>\<open>SELECT COUNT(*) FROM member WHERE name != SYSTEM\<close>.
\<close>

definition count_messages :: "database \<Rightarrow> nat" where
  "count_messages db = length (filter (\<lambda>r. r_name r \<noteq> SYSTEM_NAME) (message_join_member db))"

definition count_members :: "database \<Rightarrow> nat" where
  "count_members db = length (filter (\<lambda>m. member_name m \<noteq> SYSTEM_NAME) (member db))"

text \<open>The session of a store, if its \<open>meta\<close> table has a row.\<close>

definition session_of :: "string \<Rightarrow> database \<Rightarrow> session_info option" where
  "session_of sid db =
     (case meta db of
        [] \<Rightarrow> None
      | m # rest \<Rightarrow>
          Some \<lparr>si_id = sid, si_name = meta_name m, si_platform = meta_platform m,
                si_type = meta_type m, si_importedAt = meta_imported_at m,
                si_messageCount = count_messages db, si_memberCount = count_members db\<rparr>)"

text \<open>
  \<^verbatim>\<open>getAllSessions\<close> opens every file of the directory with a connection of its own
  and lists the stores that have a \<open>meta\<close> row, the latest import first.
\<close>

definition getAllSessions :: "worker \<Rightarrow> session_info list" where
  "getAllSessions w =
     sort_key (\<lambda>a. - si_importedAt a)
       (List.map_filter (\<lambda>(sid, f). session_of sid (fileData w f)) (dbDir w))"

definition getSession :: "string \<Rightarrow> worker \<Rightarrow> session_info option \<times> worker" where
  "getSession sid w =
     (case openDatabase sid w of
        (None, w') \<Rightarrow> (None, w')
      | (Some db, w') \<Rightarrow> (session_of sid (fileData w' db), w'))"

subsection \<open>Properties of an import\<close>

text \<open>
  The predicates and measures the theorems about \<^verbatim>\<open>streamImport\<close> are stated with.
\<close>

text \<open>
  Rows in the order of their start: each row ends where the next one starts, no row
  starts after the next one, and the last row is open.
\<close>

fun gapless :: "name_history_row list \<Rightarrow> bool" where
  "gapless [] = True"
| "gapless [r] = (nh_end_ts r = None)"
| "gapless (r # r' # rs) =
     (nh_end_ts r = Some (nh_start_ts r') \<and> nh_start_ts r \<le> nh_start_ts r' \<and> gapless (r' # rs))"

text \<open>
  The importer between two callbacks when the store never fails: nothing thrown, a
  transaction open and known to be open.
\<close>

definition streaming :: "import_state \<Rightarrow> bool" where
  "streaming s \<longleftrightarrow> thrown s = None \<and> faultIn s = None \<and> dbInTx s \<and> inTransaction s"

text \<open>
  What the tables and the caches satisfy during an import: ids and platform ids are
  keys of \<open>member\<close>, every message has its sender, the id cache agrees with the table,
  the tracker has one entry per platform id.
\<close>

definition store_inv :: "import_state \<Rightarrow> bool" where
  "store_inv s \<longleftrightarrow>
     distinct (map member_id (member (cur s))) \<and>
     distinct (map member_platform_id (member (cur s))) \<and>
     (\<forall>m \<in> set (member (cur s)). 0 < member_id m) \<and>
     (\<forall>msg \<in> set (message (cur s)). message_sender_id msg \<in> member_id ` set (member (cur s))) \<and>
     (\<forall>pid i. map_get (memberIdMap s) pid = Some i \<longrightarrow> getMemberId (cur s) pid = Some i) \<and>
     distinct (map fst (nicknameTracker s))"

text \<open>
  The messages that pass the validation of \<^verbatim>\<open>onMessageBatch\<close>.
\<close>

definition validMessage :: "ParsedMessage \<Rightarrow> bool" where
  "validMessage msg \<longleftrightarrow>
     senderPlatformId msg \<noteq> [] \<and> senderName msg \<noteq> [] \<and> timestamp msg \<noteq> None \<and> msgType msg \<noteq> None"

text \<open>
  The members and the messages an event carries.
\<close>

fun event_members :: "parse_event \<Rightarrow> ParsedMember list" where
  "event_members (Members ms) = ms"
| "event_members e = []"

fun event_messages :: "parse_event \<Rightarrow> ParsedMessage list" where
  "event_messages (Messages b) = b"
| "event_messages e = []"

text \<open>
  What parsing adds to the store: the platform ids \<open>pids\<close>, names among \<open>names\<close>,
  \<open>n\<close> messages, no history row.
\<close>

definition extends :: "string set \<Rightarrow> string set \<Rightarrow> nat \<Rightarrow> import_state \<Rightarrow> import_state \<Rightarrow> bool" where
  "extends pids names n s s' \<longleftrightarrow>
     member_platform_id ` set (member (cur s')) = member_platform_id ` set (member (cur s)) \<union> pids \<and>
     member_name ` set (member (cur s')) \<subseteq> member_name ` set (member (cur s)) \<union> names \<and>
     length (message (cur s')) = length (message (cur s)) + n \<and>
     member_name_history (cur s') = member_name_history (cur s) \<and>
     (\<forall>e \<in> set (nicknameTracker s'). tr_currentName (snd e) \<in> (\<lambda>e. tr_currentName (snd e)) ` set (nicknameTracker s) \<union> names)"

definition all_members :: "parse_event list \<Rightarrow> ParsedMember list" where
  "all_members events = concat (map event_members events)"

definition all_messages :: "parse_event list \<Rightarrow> ParsedMessage list" where
  "all_messages events = concat (map event_messages events)"

text \<open>
  The rows \<^verbatim>\<open>writeHistory\<close> inserts for one tracker entry.
\<close>

definition entryRows :: "(string, int) jsmap \<Rightarrow> string \<times> tracker \<Rightarrow> name_history_row list" where
  "entryRows idmap entry =
     (case entry of (platformId, t) \<Rightarrow>
        if platformId = [] \<or> platformId = ''0'' \<or> platformId = ''undefined'' then []
        else case map_get idmap platformId of
               None \<Rightarrow> []
             | Some senderId \<Rightarrow>
                 if senderId = 0 then []
                 else (let names = map_delete (uniqueNames (tr_history t)) platformId
                       in if length names \<le> 1 then []
                          else historyRows senderId (sort_key (\<lambda>a. fst (snd a)) names)))"

text \<open>
  The importer in the history phase, and what that phase changes.
\<close>

definition quiet :: "import_state \<Rightarrow> bool" where
  "quiet s \<longleftrightarrow> thrown s = None \<and> faultIn s = None \<and> dbInTx s"

definition hist_extends :: "name_history_row list \<Rightarrow> string set \<Rightarrow> import_state \<Rightarrow> import_state \<Rightarrow> bool" where
  "hist_extends rows names s s' \<longleftrightarrow>
     quiet s' \<and> inTransaction s' = inTransaction s \<and>
     member_name_history (cur s') = member_name_history (cur s) @ rows \<and>
     map member_id (member (cur s')) = map member_id (member (cur s)) \<and>
     map member_platform_id (member (cur s')) = map member_platform_id (member (cur s)) \<and>
     member_name ` set (member (cur s')) \<subseteq> member_name ` set (member (cur s)) \<union> names \<and>
     message (cur s') = message (cur s) \<and> meta (cur s') = meta (cur s) \<and>
     memberIdMap s' = memberIdMap s \<and> nicknameTracker s' = nicknameTracker s"

text \<open>
  The state after the callbacks of all events.
\<close>

definition streamed :: "int \<Rightarrow> parse_event list \<Rightarrow> import_state \<Rightarrow> import_state" where
  "streamed now events s = foldl (\<lambda>s e. guard (dispatch now e) s) s events"

text \<open>
  The names observed for a member. \<open>nick_step\<close> follows \<^verbatim>\<open>memberNicknameMap\<close>;
  a stored message carries a real name when the name is neither the platform id nor the
  original nickname known at that point; \<open>observe\<close> collects these names in order.
\<close>

definition nick_step :: "(string, string) jsmap \<Rightarrow> ParsedMember \<Rightarrow> (string, string) jsmap" where
  "nick_step nick mbr =
     (case nickname_or_null (mb_nickname mbr) of
        None \<Rightarrow> nick
      | Some n \<Rightarrow> map_set nick (mb_platformId mbr) n)"

definition realName :: "(string, string) jsmap \<Rightarrow> ParsedMessage \<Rightarrow> bool" where
  "realName nick m \<longleftrightarrow>
     validMessage m \<and> senderName m \<noteq> senderPlatformId m \<and>
     Some (senderName m) \<noteq> map_get nick (senderPlatformId m)"

fun observe :: "(string, string) jsmap \<times> (string \<times> string) list \<Rightarrow> parse_event \<Rightarrow>
                (string, string) jsmap \<times> (string \<times> string) list" where
  "observe (nick, obs) (Members ms) = (foldl nick_step nick ms, obs)"
| "observe (nick, obs) (Messages b) =
     (nick, obs @ map (\<lambda>m. (senderPlatformId m, senderName m)) (filter (realName nick) b))"
| "observe g e = g"

definition observedRealNames :: "parse_event list \<Rightarrow> string \<Rightarrow> string set" where
  "observedRealNames events pid =
     set (map snd (filter (\<lambda>x. fst x = pid) (snd (foldl observe ([], []) events))))"

text \<open>
  Every name of a tracker history is among the observed ones.
\<close>

definition tracked_in :: "(string \<times> string) set \<Rightarrow> import_state \<Rightarrow> bool" where
  "tracked_in obs s \<longleftrightarrow>
     (\<forall>e \<in> set (nicknameTracker s). \<forall>h \<in> set (tr_history (snd e)). (fst e, fst h) \<in> obs)"

text \<open>
  The store a complete import leaves in a new file.
\<close>

definition imported :: "import_input \<Rightarrow> database" where
  "imported inp =
     cur (import_try (in_now inp) (in_events inp) None (import_setup (import_init empty_database None)))"

subsection \<open>A sample import\<close>

text \<open>
  An empty data directory, and a parsed file in which \<open>a\<close> writes as Ann, as Annie and
  as Ann again, and \<open>b\<close> writes as Bob.
\<close>

definition import_witness_worker :: worker where
  "import_witness_worker =
     \<lparr>dbDir = [], fileData = (\<lambda>f. empty_database), nextFile = 0, dbCache = [], tempFiles = []\<rparr>"

definition import_witness_input :: import_input where
  "import_witness_input =
     \<lparr>in_format = Some ''chatlab'', in_preprocess = None, in_sessionId = ''chat_1'',
      in_now = 1000,
      in_events =
        [Meta \<lparr>pm_name = ''group'', pm_platform = ''qq'', pm_type = ''group''\<rparr>,
         Messages
           [\<lparr>senderPlatformId = ''a'', senderName = ''Ann'', timestamp = Some 10,
             msgType = Some 0, msgContent = Some ''hello''\<rparr>,
            \<lparr>senderPlatformId = ''b'', senderName = ''Bob'', timestamp = Some 15,
             msgType = Some 0, msgContent = Some ''hi''\<rparr>,
            \<lparr>senderPlatformId = ''a'', senderName = ''Annie'', timestamp = Some 20,
             msgType = Some 0, msgContent = Some ''new name''\<rparr>,
            \<lparr>senderPlatformId = ''a'', senderName = ''Ann'', timestamp = Some 30,
             msgType = Some 0, msgContent = Some ''back''\<rparr>],
         Done 4 2],
      in_parseError = None, in_fault = None\<rparr>"

subsection \<open>A failing store\<close>

text \<open>
  The sample import of a large file, preprocessed into the working file \<open>tmp1\<close>, on a
  store whose fourth call fails: the call that creates the tables.
\<close>

definition import_fault_input :: import_input where
  "import_fault_input =
     import_witness_input\<lparr>in_preprocess := Some (Inr ''tmp1''), in_fault := Some 3\<rparr>"

text \<open>The same import on a store whose twentieth call fails, among the message inserts.\<close>

definition import_late_fault_input :: import_input where
  "import_late_fault_input =
     import_witness_input\<lparr>in_preprocess := Some (Inr ''tmp1''), in_fault := Some 19\<rparr>"

section \<open>Association lists as maps\<close>

lemma map_of_map_set [simp]: "map_of (map_set m k v) = (map_of m)(k \<mapsto> v)"
  by (induction m) (auto simp: fun_eq_iff)

lemma keys_map_set_list:
  "map fst (map_set m k v) = (if k \<in> set (map fst m) then map fst m else map fst m @ [k])"
  by (induction m) (force simp: image_iff)+

lemma keys_map_set: "fst ` set (map_set m k v) = insert k (fst ` set m)"
  using keys_map_set_list[of m k v] by (metis (no_types, lifting) Un_insert_right insert_absorb list.set(1,2) list.set_map set_append sup_bot.right_neutral)

lemma distinct_map_set: "distinct (map fst m) \<Longrightarrow> distinct (map fst (map_set m k v))"
  by (simp add: keys_map_set_list)

lemma map_get_map_set [simp]: "map_get (map_set m k v) k' = (if k' = k then Some v else map_get m k')"
  by (simp add: map_get_def)

lemma map_has_iff: "map_has m k \<longleftrightarrow> k \<in> set (map fst m)"
  by (simp add: map_has_def map_of_eq_None_iff)

lemma length_map_set: "length (map_set m k v) = (if k \<in> fst ` set m then length m else Suc (length m))"
  using arg_cong[OF keys_map_set_list[of m k v], of length] by (simp split: if_splits)

lemma in_map_set: "e \<in> set (map_set m k v) \<Longrightarrow> e = (k, v) \<or> e \<in> set m"
  by (induction m) (auto split: if_splits)

lemma map_get_in: "map_get m k = Some v \<Longrightarrow> (k, v) \<in> set m"
  by (simp add: map_get_def map_of_SomeD)

section \<open>Properties of the repeat-chain analysis\<close>

lemma repeat_scenario_query: "repeat_query repeat_scenario_db None = repeat_scenario_rows"
  by code_simp

lemma repeat_scenario_scan: "repeat_scan repeat_scenario_rows = repeat_scenario_state"
  by code_simp

lemma repeat_scenario_open:
  "openDatabase ''s'' repeat_scenario_worker = (Some 0, repeat_scenario_worker\<lparr>dbCache := [(''s'', 0)]\<rparr>)"
  by (simp add: openDatabase_def repeat_scenario_worker_def map_get_def)

lemma repeat_scenario_result:
  "fst (getRepeatAnalysis ''s'' None repeat_scenario_worker) = repeat_result_of repeat_scenario_state"
  by (simp add: getRepeatAnalysis_def repeat_scenario_open repeat_scenario_scan)
     (simp add: repeat_scenario_worker_def repeat_scenario_query repeat_scenario_scan)

lemma repeat_scenario_fields:
  "memberInfo repeat_scenario_state = [(1, ''a'', ''A''), (2, ''b'', ''B''), (3, ''c'', ''C'')]"
  "originatorCount repeat_scenario_state = [(1, 1)]"
  "initiatorCount repeat_scenario_state = [(2, 1)]"
  "breakerCount repeat_scenario_state = [(1, 1)]"
  "totalRepeatChains repeat_scenario_state = 1"
  "totalChainLength repeat_scenario_state = 3"
  "chainLengthCount repeat_scenario_state = [(3, 1)]"
  "contentStats repeat_scenario_state =
     [(''hi'', \<lparr>cs_count = 1, cs_maxChainLength = 3, cs_originatorId = 1, cs_lastTs = 100\<rparr>)]"
  by (simp_all add: repeat_scenario_state_def)

lemma repeat_scenario_rank:
  "buildRankList [(1, ''a'', ''A''), (2, ''b'', ''B''), (3, ''c'', ''C'')] [(1, 1)] 1 =
     [\<lparr>rk_memberId = 1, rk_platformId = ''a'', rk_name = ''A'', rk_count = 1, rk_percentage = 100\<rparr>]"
  "buildRankList [(1, ''a'', ''A''), (2, ''b'', ''B''), (3, ''c'', ''C'')] [(2, 1)] 1 =
     [\<lparr>rk_memberId = 2, rk_platformId = ''b'', rk_name = ''B'', rk_count = 1, rk_percentage = 100\<rparr>]"
  by code_simp+

lemma repeat_scenario_originators:
  "originators (repeat_result_of repeat_scenario_state) =
     [\<lparr>rk_memberId = 1, rk_platformId = ''a'', rk_name = ''A'', rk_count = 1, rk_percentage = 100\<rparr>]"
  by (simp only: repeat_result_of_def repeat_result.select_convs repeat_scenario_fields repeat_scenario_rank)

lemma repeat_scenario_initiators:
  "initiators (repeat_result_of repeat_scenario_state) =
     [\<lparr>rk_memberId = 2, rk_platformId = ''b'', rk_name = ''B'', rk_count = 1, rk_percentage = 100\<rparr>]"
  by (simp only: repeat_result_of_def repeat_result.select_convs repeat_scenario_fields repeat_scenario_rank)

lemma repeat_scenario_breakers:
  "breakers (repeat_result_of repeat_scenario_state) =
     [\<lparr>rk_memberId = 1, rk_platformId = ''a'', rk_name = ''A'', rk_count = 1, rk_percentage = 100\<rparr>]"
  by (simp only: repeat_result_of_def repeat_result.select_convs repeat_scenario_fields repeat_scenario_rank)

lemma repeat_scenario_hot_list:
  "buildHotContents [(1, ''a'', ''A''), (2, ''b'', ''B''), (3, ''c'', ''C'')]
     [(''hi'', \<lparr>cs_count = 1, cs_maxChainLength = 3, cs_originatorId = 1, cs_lastTs = 100\<rparr>)] =
     [\<lparr>hc_content = ''hi'', hc_count = 1, hc_maxChainLength = 3, hc_originatorName = ''A'', hc_lastTs = 100\<rparr>]"
  by code_simp

lemma repeat_scenario_hot:
  "hotContents (repeat_result_of repeat_scenario_state) =
     [\<lparr>hc_content = ''hi'', hc_count = 1, hc_maxChainLength = 3, hc_originatorName = ''A'', hc_lastTs = 100\<rparr>]"
  by (simp only: repeat_result_of_def repeat_result.select_convs repeat_scenario_fields repeat_scenario_hot_list)

lemma repeat_scenario_lengths:
  "chainLengthDistribution (repeat_result_of repeat_scenario_state) = [\<lparr>cl_length = 3, cl_count = 1\<rparr>] \<and>
   totalRepeatChains_r (repeat_result_of repeat_scenario_state) = 1"
  by (simp add: repeat_result_of_def repeat_scenario_fields)

text \<open>
  Claim C6. For the time-ordered text messages A: ``hi'', B: ``hi'', C: ``hi'', A: ``bye''
  of three distinct senders, \<^const>\<open>getRepeatAnalysis\<close> reports exactly one repeat
  chain, of length 3, with originator A, initiator B and breaker A (each with count 1),
  and the hot contents hold ``hi'' with maximal chain length 3.
\<close>

theorem repeat_chain_scenario:
  "(let r = fst (getRepeatAnalysis ''s'' None repeat_scenario_worker) in
      totalRepeatChains_r r = 1 \<and>
      chainLengthDistribution r = [\<lparr>cl_length = 3, cl_count = 1\<rparr>] \<and>
      originators r = [\<lparr>rk_memberId = 1, rk_platformId = ''a'', rk_name = ''A'', rk_count = 1, rk_percentage = 100\<rparr>] \<and>
      initiators r = [\<lparr>rk_memberId = 2, rk_platformId = ''b'', rk_name = ''B'', rk_count = 1, rk_percentage = 100\<rparr>] \<and>
      breakers r = [\<lparr>rk_memberId = 1, rk_platformId = ''a'', rk_name = ''A'', rk_count = 1, rk_percentage = 100\<rparr>] \<and>
      hotContents r = [\<lparr>hc_content = ''hi'', hc_count = 1, hc_maxChainLength = 3, hc_originatorName = ''A'', hc_lastTs = 100\<rparr>])"
  unfolding Let_def repeat_scenario_result
  using repeat_scenario_originators repeat_scenario_initiators repeat_scenario_breakers
    repeat_scenario_hot repeat_scenario_lengths
  by simp

lemma processRepeatChain_keeps:
  "currentContent (processRepeatChain c b s) = currentContent s"
  "repeatChain (processRepeatChain c b s) = repeatChain s"
  by (auto simp: processRepeatChain_def Let_def split: list.splits)

text \<open>
  Claim C10. A message whose trimmed content equals the content of the current chain and
  whose sender is the sender of the chain's last entry neither extends nor closes the
  chain: the entries, the current content and every chain statistic are unchanged, and
  a following message with the same content from another sender still extends the chain.
\<close>

theorem repeat_same_sender_ignored:
  assumes "currentContent s = Some (js_trim (rr_content msg))"
      and "lastSender (repeatChain s) = Some (rr_senderId msg)"
  shows "repeatChain (repeat_step s msg) = repeatChain s \<and>
         currentContent (repeat_step s msg) = currentContent s \<and>
         totalRepeatChains (repeat_step s msg) = totalRepeatChains s \<and>
         totalChainLength (repeat_step s msg) = totalChainLength s \<and>
         originatorCount (repeat_step s msg) = originatorCount s \<and>
         initiatorCount (repeat_step s msg) = initiatorCount s \<and>
         breakerCount (repeat_step s msg) = breakerCount s \<and>
         chainLengthCount (repeat_step s msg) = chainLengthCount s \<and>
         contentStats (repeat_step s msg) = contentStats s \<and>
         fastestRepeaterStats (repeat_step s msg) = fastestRepeaterStats s \<and>
         (\<forall>msg2. js_trim (rr_content msg2) = js_trim (rr_content msg) \<and>
                 rr_senderId msg2 \<noteq> rr_senderId msg \<longrightarrow>
            repeatChain (repeat_step (repeat_step s msg) msg2) =
              repeatChain s @ [\<lparr>ce_senderId = rr_senderId msg2,
                                 ce_content = js_trim (rr_content msg2), ce_ts = rr_ts msg2\<rparr>] \<and>
            totalRepeatChains (repeat_step (repeat_step s msg) msg2) = totalRepeatChains s)"
  using assms by (simp add: repeat_step_def Let_def)

theorem repeat_same_sender_ignored_witness:
  "currentContent repeat_witness_state = Some (js_trim (rr_content repeat_witness_msg)) \<and>
   lastSender (repeatChain repeat_witness_state) = Some (rr_senderId repeat_witness_msg) \<and>
   repeatChain (repeat_step repeat_witness_state repeat_witness_msg) =
     repeatChain repeat_witness_state \<and>
   totalRepeatChains (repeat_step repeat_witness_state repeat_witness_msg) = 0 \<and>
   repeatChain (repeat_step (repeat_step repeat_witness_state repeat_witness_msg)
                  repeat_witness_next) =
     [\<lparr>ce_senderId = 1, ce_content = ''hi'', ce_ts = 100\<rparr>,
      \<lparr>ce_senderId = 2, ce_content = ''hi'', ce_ts = 101\<rparr>,
      \<lparr>ce_senderId = 3, ce_content = ''hi'', ce_ts = 103\<rparr>]"
proof -
  have h1: "currentContent repeat_witness_state = Some (js_trim (rr_content repeat_witness_msg))"
    by code_simp
  have h2: "lastSender (repeatChain repeat_witness_state) = Some (rr_senderId repeat_witness_msg)"
    by code_simp
  have h3: "js_trim (rr_content repeat_witness_next) = js_trim (rr_content repeat_witness_msg) \<and>
            rr_senderId repeat_witness_next \<noteq> rr_senderId repeat_witness_msg"
    by code_simp
  have h4: "repeatChain repeat_witness_state =
              [\<lparr>ce_senderId = 1, ce_content = ''hi'', ce_ts = 100\<rparr>,
               \<lparr>ce_senderId = 2, ce_content = ''hi'', ce_ts = 101\<rparr>]"
    by code_simp
  have h5: "totalRepeatChains repeat_witness_state = 0"
    by code_simp
  have h6: "js_trim (rr_content repeat_witness_next) = ''hi'' \<and> rr_senderId repeat_witness_next = 3 \<and>
            rr_ts repeat_witness_next = 103"
    by code_simp
  from repeat_same_sender_ignored [OF h1 h2] h1 h2 h3 h4 h5 h6 show ?thesis
    by simp
qed

section \<open>Properties of the mention analysis\<close>

subsection \<open>Loops that skip processed keys\<close>

lemma firsts_subset: "set (firsts key P xs) \<subseteq> set xs"
  by (induction xs arbitrary: P) auto

lemma filter_firsts:
  "filter (\<lambda>e. key e = k) (firsts key P xs) =
     (if k \<in> set P then [] else take 1 (filter (\<lambda>e. key e = k) xs))"
  by (induction xs arbitrary: P) auto

lemma fold_firsts:
  assumes step: "\<And>P out e. f (P, out) e =
                   (if key e \<in> set P then (P, out) else (P @ [key e], out @ g e))"
  shows "foldl f (P, out) xs =
           (P @ map key (firsts key P xs), out @ concat (map g (firsts key P xs)))"
  by (induction xs arbitrary: P out) (simp_all add: step)

lemma filter_concat_select:
  assumes "\<And>e i. e \<in> set F \<Longrightarrow> i \<in> set (g e) \<Longrightarrow> Q i \<longleftrightarrow> key e = k"
  shows "filter Q (concat (map g F)) = concat (map g (filter (\<lambda>e. key e = k) F))"
  using assms
proof (induction F)
  case Nil
  then show ?case by simp
next
  case (Cons e F)
  have "filter Q (g e) = (if key e = k then g e else [])"
    using Cons.prems[of e] by (auto simp: filter_empty_conv filter_id_conv)
  moreover have "filter Q (concat (map g F)) = concat (map g (filter (\<lambda>e. key e = k) F))"
    using Cons.prems by (intro Cons.IH) auto
  ultimately show ?case by simp
qed

lemma skip_loop_filter:
  assumes step: "\<And>P out e. f (P, out) e =
                   (if key e \<in> set P then (P, out) else (P @ [key e], out @ g e))"
      and sel: "\<And>e i. e \<in> set xs \<Longrightarrow> i \<in> set (g e) \<Longrightarrow> Q i \<longleftrightarrow> key e = k"
  shows "filter Q (snd (foldl f ([], []) xs)) =
           concat (map g (take 1 (filter (\<lambda>e. key e = k) xs)))"
proof -
  have "filter Q (concat (map g (firsts key [] xs))) =
          concat (map g (filter (\<lambda>e. key e = k) (firsts key [] xs)))"
    using firsts_subset[of key "[]" xs] by (intro filter_concat_select sel) auto
  then show ?thesis
    by (simp add: fold_firsts[of f key g, OF step] filter_firsts)
qed

subsection \<open>The entries of a pair\<close>

lemma pairKey_eq_iff: "pairKey x y = pairKey a b \<longleftrightarrow> {x, y} = {a, b}"
  by (auto simp: pairKey_def min_def max_def doubleton_eq_iff)

lemma matrix_entries_iff:
  assumes "wf_matrix M"
  shows "(x, y, c) \<in> set (matrix_entries M) \<longleftrightarrow>
           (\<exists>tm. map_get M x = Some tm \<and> map_get tm y = Some c)"
proof -
  have "(x, y, c) \<in> set (matrix_entries M) \<longleftrightarrow> (\<exists>tm. (x, tm) \<in> set M \<and> (y, c) \<in> set tm)"
    by (auto simp: matrix_entries_def)
  also have "\<dots> \<longleftrightarrow> (\<exists>tm. map_get M x = Some tm \<and> map_get tm y = Some c)"
    using assms by (fastforce simp: wf_matrix_def map_get_def)
  finally show ?thesis .
qed

lemma matrix_entries_get:
  assumes "wf_matrix M" "(x, y, c) \<in> set (matrix_entries M)"
  shows "matrix_get M x y = c"
  using assms by (auto simp: matrix_entries_iff matrix_get_def)

lemma matrix_get_entry:
  assumes "wf_matrix M" "0 < matrix_get M x y"
  shows "(x, y, matrix_get M x y) \<in> set (matrix_entries M)"
  using assms by (auto simp: matrix_entries_iff matrix_get_def split: option.splits)

lemma pair_first_entry:
  assumes wf: "wf_matrix M" and pos: "0 < matrix_get M a b"
  shows "\<exists>e. take 1 (filter (\<lambda>e. entry_key e = pairKey a b) (matrix_entries M)) = [e] \<and>
             (e = (a, b, matrix_get M a b) \<or> e = (b, a, matrix_get M b a))"
proof -
  let ?F = "filter (\<lambda>e. entry_key e = pairKey a b) (matrix_entries M)"
  have "(a, b, matrix_get M a b) \<in> set ?F"
    using matrix_get_entry[OF wf pos] by (simp add: entry_key_def)
  then obtain e F' where F: "?F = e # F'" by (cases ?F) auto
  then have "e \<in> set ?F" by simp
  then have e: "e \<in> set (matrix_entries M)" "entry_key e = pairKey a b" by auto
  obtain x y c where xyc: "e = (x, y, c)" by (cases e)
  from e(2) have "{x, y} = {a, b}" by (simp add: xyc entry_key_def pairKey_eq_iff)
  moreover have "c = matrix_get M x y" using matrix_entries_get[OF wf] e(1) xyc by simp
  ultimately have "e = (a, b, matrix_get M a b) \<or> e = (b, a, matrix_get M b a)"
    by (auto simp: xyc doubleton_eq_iff)
  with F show ?thesis by simp
qed

subsection \<open>The two loops\<close>

lemma oneWay_entry_step:
  "oneWay_entry matrix info (P, out) e =
     (if entry_key e \<in> set P then (P, out) else (P @ [entry_key e], out @ oneWay_items matrix info e))"
  by (cases e) (simp add: oneWay_entry_def oneWay_items_def entry_key_def Let_def)

lemma twoWay_entry_step:
  "twoWay_entry matrix info (P, out) e =
     (if entry_key e \<in> set P then (P, out) else (P @ [entry_key e], out @ twoWay_items matrix info e))"
  by (cases e) (simp add: twoWay_entry_def twoWay_items_def entry_key_def Let_def)

lemma oneWay_items_pair:
  assumes "i \<in> set (oneWay_items matrix info (x, y, c))"
  shows "{ow_fromMemberId i, ow_toMemberId i} = {x, y}"
  using assms by (auto simp: oneWay_items_def oneWay_entry_def Let_def split: if_splits)

lemma twoWay_items_pair:
  assumes "i \<in> set (twoWay_items matrix info (x, y, c))"
  shows "{tw_member1Id i, tw_member2Id i} = {x, y}"
  using assms by (auto simp: twoWay_items_def twoWay_entry_def Let_def split: if_splits)

lemma oneWay_items_length: "length (oneWay_items matrix info e) \<le> 1"
  by (cases e) (simp add: oneWay_items_def oneWay_entry_def Let_def)

lemma twoWay_items_length: "length (twoWay_items matrix info e) \<le> 1"
  by (cases e) (simp add: twoWay_items_def twoWay_entry_def Let_def)

lemma sort_key_short: "length xs \<le> 1 \<Longrightarrow> sort_key f xs = xs"
  by (cases xs) auto

lemma sort_key_oneWay_items [simp]:
  "sort_key f (oneWay_items M info e) = oneWay_items M info e"
  by (rule sort_key_short) (rule oneWay_items_length)

lemma sort_key_twoWay_items [simp]:
  "sort_key f (twoWay_items M info e) = twoWay_items M info e"
  by (rule sort_key_short) (rule twoWay_items_length)

lemma detect_oneWay_pair:
  assumes wf: "wf_matrix M" and pos: "0 < matrix_get M a b"
  shows "filter (\<lambda>i. {ow_fromMemberId i, ow_toMemberId i} = {a, b}) (detect_oneWay M info) =
           oneWay_items M info (a, b, matrix_get M a b) \<or>
         filter (\<lambda>i. {ow_fromMemberId i, ow_toMemberId i} = {a, b}) (detect_oneWay M info) =
           oneWay_items M info (b, a, matrix_get M b a)"
proof -
  let ?Q = "\<lambda>i. {ow_fromMemberId i, ow_toMemberId i} = {a, b}"
  have sel: "?Q i \<longleftrightarrow> entry_key e = pairKey a b"
    if "e \<in> set (matrix_entries M)" "i \<in> set (oneWay_items M info e)" for e i
  proof -
    obtain x y c where e: "e = (x, y, c)" by (cases e)
    from oneWay_items_pair[of i M info x y c] that(2) e show ?thesis
      by (simp add: entry_key_def pairKey_eq_iff)
  qed
  have "filter ?Q (snd (foldl (oneWay_entry M info) ([], []) (matrix_entries M))) =
          concat (map (oneWay_items M info)
            (take 1 (filter (\<lambda>e. entry_key e = pairKey a b) (matrix_entries M))))"
    by (rule skip_loop_filter[OF oneWay_entry_step sel])
  moreover from pair_first_entry[OF wf pos] obtain e where
    "take 1 (filter (\<lambda>e. entry_key e = pairKey a b) (matrix_entries M)) = [e]"
    "e = (a, b, matrix_get M a b) \<or> e = (b, a, matrix_get M b a)" by blast
  ultimately have "filter ?Q (snd (foldl (oneWay_entry M info) ([], []) (matrix_entries M))) =
           oneWay_items M info (a, b, matrix_get M a b) \<or>
         filter ?Q (snd (foldl (oneWay_entry M info) ([], []) (matrix_entries M))) =
           oneWay_items M info (b, a, matrix_get M b a)"
    by auto
  then show ?thesis
    unfolding detect_oneWay_def filter_sort
    by auto
qed

lemma detect_twoWay_pair:
  assumes wf: "wf_matrix M" and pos: "0 < matrix_get M a b"
  shows "filter (\<lambda>i. {tw_member1Id i, tw_member2Id i} = {a, b}) (detect_twoWay M info) =
           twoWay_items M info (a, b, matrix_get M a b) \<or>
         filter (\<lambda>i. {tw_member1Id i, tw_member2Id i} = {a, b}) (detect_twoWay M info) =
           twoWay_items M info (b, a, matrix_get M b a)"
proof -
  let ?Q = "\<lambda>i. {tw_member1Id i, tw_member2Id i} = {a, b}"
  have sel: "?Q i \<longleftrightarrow> entry_key e = pairKey a b"
    if "e \<in> set (matrix_entries M)" "i \<in> set (twoWay_items M info e)" for e i
  proof -
    obtain x y c where e: "e = (x, y, c)" by (cases e)
    from twoWay_items_pair[of i M info x y c] that(2) e show ?thesis
      by (simp add: entry_key_def pairKey_eq_iff)
  qed
  have "filter ?Q (snd (foldl (twoWay_entry M info) ([], []) (matrix_entries M))) =
          concat (map (twoWay_items M info)
            (take 1 (filter (\<lambda>e. entry_key e = pairKey a b) (matrix_entries M))))"
    by (rule skip_loop_filter[OF twoWay_entry_step sel])
  moreover from pair_first_entry[OF wf pos] obtain e where
    "take 1 (filter (\<lambda>e. entry_key e = pairKey a b) (matrix_entries M)) = [e]"
    "e = (a, b, matrix_get M a b) \<or> e = (b, a, matrix_get M b a)" by blast
  ultimately have "filter ?Q (snd (foldl (twoWay_entry M info) ([], []) (matrix_entries M))) =
           twoWay_items M info (a, b, matrix_get M a b) \<or>
         filter ?Q (snd (foldl (twoWay_entry M info) ([], []) (matrix_entries M))) =
           twoWay_items M info (b, a, matrix_get M b a)"
    by auto
  then show ?thesis
    unfolding detect_twoWay_def filter_sort
    by auto
qed

subsection \<open>The scan builds the matrix of mention counts\<close>

lemma wf_matrix_cell:
  assumes "wf_matrix M"
  shows "wf_matrix (map_set (if \<not> map_has M k then map_set M k [] else M) k
           (map_incr (case map_get (if \<not> map_has M k then map_set M k [] else M) k of
                        None \<Rightarrow> [] | Some fm \<Rightarrow> fm) i))"
proof -
  let ?M1 = "if \<not> map_has M k then map_set M k [] else M"
  let ?fm = "case map_get ?M1 k of None \<Rightarrow> [] | Some fm \<Rightarrow> fm"
  have wf1: "wf_matrix ?M1"
  proof (cases "map_has M k")
    case True
    with assms show ?thesis by simp
  next
    case False
    have "distinct (map fst (snd e))" if "e \<in> set (map_set M k [])" for e
      using in_map_set[OF that] assms by (auto simp: wf_matrix_def)
    with assms False show ?thesis by (simp add: wf_matrix_def distinct_map_set)
  qed
  have "distinct (map fst ?fm)"
  proof (cases "map_get ?M1 k")
    case None then show ?thesis by simp
  next
    case (Some fm)
    then have "(k, fm) \<in> set ?M1" by (rule map_get_in)
    with wf1 Some show ?thesis by (auto simp: wf_matrix_def)
  qed
  then have "distinct (map fst (map_incr ?fm i))"
    by (simp add: map_incr_def distinct_map_set)
  moreover have "distinct (map fst (snd e))"
    if "e \<in> set (map_set ?M1 k (map_incr ?fm i))" "distinct (map fst (map_incr ?fm i))" for e
    using in_map_set[OF that(1)] wf1 that(2) by (auto simp: wf_matrix_def)
  ultimately show ?thesis
    using wf1 by (simp add: wf_matrix_def distinct_map_set)
qed

lemma matrix_get_cell:
  "matrix_get (map_set (if \<not> map_has M k then map_set M k [] else M) k
           (map_incr (case map_get (if \<not> map_has M k then map_set M k [] else M) k of
                        None \<Rightarrow> [] | Some fm \<Rightarrow> fm) i)) x y =
     matrix_get M x y + (if x = k \<and> y = i then 1 else 0)"
  by (auto simp: matrix_get_def map_has_def map_get_def map_incr_def split: option.splits)

lemma mention_match_new:
  assumes "map_get n2id n = Some i" "i \<noteq> 0" "i \<noteq> sender" "i \<notin> set seen"
  shows "mention_match n2id sender (seen, s) n =
           (seen @ [i],
            s\<lparr>totalMentions := totalMentions s + 1,
              mentionMatrix :=
                map_set (if \<not> map_has (mentionMatrix s) sender
                         then map_set (mentionMatrix s) sender [] else mentionMatrix s) sender
                  (map_incr (case map_get (if \<not> map_has (mentionMatrix s) sender
                                           then map_set (mentionMatrix s) sender []
                                           else mentionMatrix s) sender of
                               None \<Rightarrow> [] | Some fm \<Rightarrow> fm) i),
              mentionerCount := map_incr (mentionerCount s) sender,
              mentionedCount := map_incr (mentionedCount s) i\<rparr>)"
  using assms by (simp add: mention_match_def Let_def)

lemma mention_match_old:
  assumes "\<not> (\<exists>i. map_get n2id n = Some i \<and> i \<noteq> 0 \<and> i \<noteq> sender \<and> i \<notin> set seen)"
  shows "mention_match n2id sender (seen, s) n = (seen, s)"
  using assms by (auto simp: mention_match_def Let_def split: option.splits)

lemma names_fold:
  assumes "wf_matrix (mentionMatrix s)"
      and "\<And>x y. matrix_get (mentionMatrix s) x y \<le> totalMentions s"
  shows "wf_matrix (mentionMatrix (snd (foldl (mention_match n2id sender) (seen, s) names))) \<and>
         (\<forall>x y. matrix_get (mentionMatrix (snd (foldl (mention_match n2id sender) (seen, s) names))) x y \<le>
                  totalMentions (snd (foldl (mention_match n2id sender) (seen, s) names))) \<and>
         (\<forall>x y. matrix_get (mentionMatrix (snd (foldl (mention_match n2id sender) (seen, s) names))) x y =
                  matrix_get (mentionMatrix s) x y +
                  (if x = sender \<and> counted n2id sender seen names y then 1 else 0))"
  using assms
proof (induction names arbitrary: seen s)
  case Nil
  then show ?case by (simp add: counted_def)
next
  case (Cons n names)
  show ?case
  proof (cases "\<exists>i. map_get n2id n = Some i \<and> i \<noteq> 0 \<and> i \<noteq> sender \<and> i \<notin> set seen")
    case False
    then have eq: "mention_match n2id sender (seen, s) n = (seen, s)"
      by (rule mention_match_old)
    have c: "counted n2id sender seen (n # names) y = counted n2id sender seen names y" for y
      using False by (auto simp: counted_def) metis
    have fe: "foldl (mention_match n2id sender) (seen, s) (n # names) =
              foldl (mention_match n2id sender) (seen, s) names"
      by (simp add: eq)
    show ?thesis unfolding fe c by (rule Cons.IH[OF Cons.prems])
  next
    case True
    then obtain i where i: "map_get n2id n = Some i" "i \<noteq> 0" "i \<noteq> sender" "i \<notin> set seen"
      by blast
    define M1 where "M1 = map_set (if \<not> map_has (mentionMatrix s) sender
                         then map_set (mentionMatrix s) sender [] else mentionMatrix s) sender
                  (map_incr (case map_get (if \<not> map_has (mentionMatrix s) sender
                                           then map_set (mentionMatrix s) sender []
                                           else mentionMatrix s) sender of
                               None \<Rightarrow> [] | Some fm \<Rightarrow> fm) i)"
    define s1 where "s1 = s\<lparr>totalMentions := totalMentions s + 1, mentionMatrix := M1,
              mentionerCount := map_incr (mentionerCount s) sender,
              mentionedCount := map_incr (mentionedCount s) i\<rparr>"
    have eq: "mention_match n2id sender (seen, s) n = (seen @ [i], s1)"
      unfolding s1_def M1_def by (rule mention_match_new[OF i])
    have cell: "matrix_get M1 x y = matrix_get (mentionMatrix s) x y + (if x = sender \<and> y = i then 1 else 0)" for x y
      unfolding M1_def by (rule matrix_get_cell)
    have wf1: "wf_matrix (mentionMatrix s1)"
      unfolding s1_def M1_def using wf_matrix_cell[OF Cons.prems(1)] by simp
    have le1: "matrix_get (mentionMatrix s1) x y \<le> totalMentions s1" for x y
      using Cons.prems(2)[of x y] by (auto simp: s1_def cell)
    have c: "(if x = sender \<and> counted n2id sender seen (n # names) y then 1 else 0) =
             (if x = sender \<and> y = i then 1 else 0) +
             (if x = sender \<and> counted n2id sender (seen @ [i]) names y then 1 else (0::nat))" for x y
      using i by (auto simp: counted_def)
    have m1: "matrix_get (mentionMatrix s1) x y =
                matrix_get (mentionMatrix s) x y + (if x = sender \<and> y = i then 1 else 0)" for x y
      by (simp add: s1_def cell)
    have fe: "foldl (mention_match n2id sender) (seen, s) (n # names) =
              foldl (mention_match n2id sender) (seen @ [i], s1) names"
      by (simp add: eq)
    define s2 where "s2 = snd (foldl (mention_match n2id sender) (seen @ [i], s1) names)"
    from Cons.IH[OF wf1 le1, of "seen @ [i]", folded s2_def] have
      A: "wf_matrix (mentionMatrix s2)" and
      B: "\<And>x y. matrix_get (mentionMatrix s2) x y \<le> totalMentions s2" and
      C: "\<And>x y. matrix_get (mentionMatrix s2) x y = matrix_get (mentionMatrix s1) x y +
                  (if x = sender \<and> counted n2id sender (seen @ [i]) names y then 1 else 0)"
      by blast+
    have D: "matrix_get (mentionMatrix s2) x y = matrix_get (mentionMatrix s) x y +
                  (if x = sender \<and> counted n2id sender seen (n # names) y then 1 else 0)" for x y
      unfolding C m1 c by simp
    show ?thesis unfolding fe s2_def[symmetric] using A B D by blast
  qed
qed

lemma mention_step_props:
  assumes "wf_matrix (mentionMatrix s)"
      and "\<And>x y. matrix_get (mentionMatrix s) x y \<le> totalMentions s"
  shows "wf_matrix (mentionMatrix (mention_step n2id s msg))"
    and "\<And>x y. matrix_get (mentionMatrix (mention_step n2id s msg)) x y \<le>
                totalMentions (mention_step n2id s msg)"
    and "\<And>x y. matrix_get (mentionMatrix (mention_step n2id s msg)) x y =
                matrix_get (mentionMatrix s) x y +
                (if x = fst msg \<and> mentions n2id msg y then 1 else 0)"
proof -
  note nf = names_fold[OF assms, of n2id "fst msg" "[]" "mentionedNames (snd msg)"]
  have c: "counted n2id (fst msg) [] (mentionedNames (snd msg)) y = mentions n2id msg y" for y
    by (simp add: counted_def mentions_def)
  note nf' = nf[folded mention_step_def]
  from nf' show "wf_matrix (mentionMatrix (mention_step n2id s msg))" by blast
  from nf' show "\<And>x y. matrix_get (mentionMatrix (mention_step n2id s msg)) x y \<le>
                totalMentions (mention_step n2id s msg)" by blast
  from nf' have "matrix_get (mentionMatrix (mention_step n2id s msg)) x y =
                matrix_get (mentionMatrix s) x y +
                (if x = fst msg \<and> counted n2id (fst msg) [] (mentionedNames (snd msg)) y then 1 else 0)" for x y
    by blast
  then show "\<And>x y. matrix_get (mentionMatrix (mention_step n2id s msg)) x y =
                matrix_get (mentionMatrix s) x y +
                (if x = fst msg \<and> mentions n2id msg y then 1 else 0)"
    by (simp add: c)
qed

lemma scan_fold:
  assumes "wf_matrix (mentionMatrix s)"
      and "\<And>x y. matrix_get (mentionMatrix s) x y \<le> totalMentions s"
  shows "wf_matrix (mentionMatrix (foldl (mention_step n2id) s msgs)) \<and>
         (\<forall>x y. matrix_get (mentionMatrix (foldl (mention_step n2id) s msgs)) x y \<le>
                  totalMentions (foldl (mention_step n2id) s msgs)) \<and>
         (\<forall>x y. matrix_get (mentionMatrix (foldl (mention_step n2id) s msgs)) x y =
                  matrix_get (mentionMatrix s) x y +
                  length (filter (\<lambda>msg. fst msg = x \<and> mentions n2id msg y) msgs))"
  using assms
proof (induction msgs arbitrary: s)
  case Nil
  then show ?case by simp
next
  case (Cons msg msgs)
  note p = mention_step_props[OF Cons.prems, of n2id msg]
  define s2 where "s2 = foldl (mention_step n2id) (mention_step n2id s msg) msgs"
  from Cons.IH[OF p(1) p(2), folded s2_def] have
    A: "wf_matrix (mentionMatrix s2)" and
    B: "\<And>x y. matrix_get (mentionMatrix s2) x y \<le> totalMentions s2" and
    C: "\<And>x y. matrix_get (mentionMatrix s2) x y =
            matrix_get (mentionMatrix (mention_step n2id s msg)) x y +
            length (filter (\<lambda>msg. fst msg = x \<and> mentions n2id msg y) msgs)"
    by blast+
  have D: "matrix_get (mentionMatrix s2) x y = matrix_get (mentionMatrix s) x y +
            length (filter (\<lambda>msg. fst msg = x \<and> mentions n2id msg y) (msg # msgs))" for x y
    unfolding C p(3) by simp
  have fe: "foldl (mention_step n2id) s (msg # msgs) = s2" by (simp add: s2_def)
  show ?case unfolding fe using A B D by blast
qed

lemma mention_scan_props:
  "wf_matrix (mentionMatrix (mention_scan db tf))"
  "matrix_get (mentionMatrix (mention_scan db tf)) x y \<le> totalMentions (mention_scan db tf)"
  "matrix_get (mentionMatrix (mention_scan db tf)) x y = mention_count db tf x y"
proof -
  have i: "wf_matrix (mentionMatrix mention_init)"
          "\<And>x y. matrix_get (mentionMatrix mention_init) x y \<le> totalMentions mention_init"
    by (simp_all add: mention_init_def wf_matrix_def matrix_get_def map_get_def)
  note sf = scan_fold[OF i, of "build_nameToMemberId db (mention_members db)" "mention_query db tf",
      folded mention_scan_def]
  from sf show "wf_matrix (mentionMatrix (mention_scan db tf))" by blast
  from sf show "matrix_get (mentionMatrix (mention_scan db tf)) x y \<le> totalMentions (mention_scan db tf)"
    by blast
  from sf have "matrix_get (mentionMatrix (mention_scan db tf)) x y =
      matrix_get (mentionMatrix mention_init) x y +
      length (filter (\<lambda>msg. fst msg = x \<and> mentions (build_nameToMemberId db (mention_members db)) msg y)
                (mention_query db tf))"
    by blast
  then show "matrix_get (mentionMatrix (mention_scan db tf)) x y = mention_count db tf x y"
    by (simp add: mention_count_def mention_init_def matrix_get_def map_get_def)
qed

lemma mention_analysis_pairs:
  assumes "0 < mention_count db tf a b"
  shows "oneWay_r (mention_analysis db tf) =
           detect_oneWay (mentionMatrix (mention_scan db tf)) (build_memberIdToInfo (mention_members db))"
    and "twoWay_r (mention_analysis db tf) =
           detect_twoWay (mentionMatrix (mention_scan db tf)) (build_memberIdToInfo (mention_members db))"
proof -
  have m: "mention_members db \<noteq> []"
  proof
    assume "mention_members db = []"
    then have "mention_count db tf a b = 0"
      by (auto simp: mention_count_def mentions_def build_nameToMemberId_def map_get_def
          filter_empty_conv)
    with assms show False by simp
  qed
  have t: "totalMentions (mention_scan db tf) \<noteq> 0"
    using mention_scan_props(2,3)[of db tf a b] assms by simp
  from m t show "oneWay_r (mention_analysis db tf) =
           detect_oneWay (mentionMatrix (mention_scan db tf)) (build_memberIdToInfo (mention_members db))"
    by (simp add: mention_analysis_def Let_def mention_scan_def[symmetric])
  from m t show "twoWay_r (mention_analysis db tf) =
           detect_twoWay (mentionMatrix (mention_scan db tf)) (build_memberIdToInfo (mention_members db))"
    by (simp add: mention_analysis_def Let_def mention_scan_def[symmetric])
qed

lemma dbl_ratio_facts:
  "dbl (4 / 5) \<le> dbl (9 / 10)"
  "dbl (1 / 10) \<le> dbl (1 / 5)"
  "\<not> dbl (4 / 5) \<le> dbl (1 / 10)"
  "\<not> dbl (3 / 10) \<le> dbl (1 / 9)"
  "\<not> dbl (4 / 5) \<le> dbl (5 / 9)"
  "\<not> dbl (5 / 9) \<le> dbl (1 / 5)"
  "\<not> dbl (4 / 5) \<le> dbl (4 / 9)"
  "\<not> dbl (4 / 9) \<le> dbl (1 / 5)"
  "dbl (3 / 10) \<le> dbl (4 / 5)"
  by code_simp+

lemma round2_facts:
  "round2 (dbl (9 / 10)) = dbl (9 / 10)"
  "round2 (dbl (1 - dbl (1 / 10))) = dbl (9 / 10)"
  "round2 (dbl (4 / 5)) = dbl (4 / 5)"
  by code_simp+

lemma oneWay_items_9_1:
  assumes "matrix_get M b a = 1"
  shows "oneWay_items M info (a, b, 9) =
           [\<lparr>ow_fromMemberId = a, ow_fromName = info_name info a, ow_toMemberId = b,
             ow_toName = info_name info b, ow_fromToCount = 9, ow_toFromCount = 1,
             ow_ratio = dbl (9 / 10)\<rparr>]"
  using assms by (simp add: oneWay_items_def oneWay_entry_def Let_def dbl_ratio_facts round2_facts)

lemma oneWay_items_1_9:
  assumes "matrix_get M a b = 9"
  shows "oneWay_items M info (b, a, 1) =
           [\<lparr>ow_fromMemberId = a, ow_fromName = info_name info a, ow_toMemberId = b,
             ow_toName = info_name info b, ow_fromToCount = 9, ow_toFromCount = 1,
             ow_ratio = dbl (9 / 10)\<rparr>]"
  using assms by (simp add: oneWay_items_def oneWay_entry_def Let_def dbl_ratio_facts round2_facts)

lemma twoWay_items_9_1:
  "matrix_get M b a = 1 \<Longrightarrow> twoWay_items M info (a, b, 9) = []"
  "matrix_get M a b = 9 \<Longrightarrow> twoWay_items M info (b, a, 1) = []"
  by (simp_all add: twoWay_items_def twoWay_entry_def Let_def dbl_ratio_facts round2_facts)

lemma oneWay_items_5_4:
  "matrix_get M b a = 4 \<Longrightarrow> oneWay_items M info (a, b, 5) = []"
  "matrix_get M a b = 5 \<Longrightarrow> oneWay_items M info (b, a, 4) = []"
  by (simp_all add: oneWay_items_def oneWay_entry_def Let_def dbl_ratio_facts round2_facts)

lemma twoWay_items_5_4:
  "matrix_get M b a = 4 \<Longrightarrow> twoWay_items M info (a, b, 5) =
     [\<lparr>tw_member1Id = a, tw_member1Name = info_name info a, tw_member2Id = b,
       tw_member2Name = info_name info b, tw_member1To2 = 5, tw_member2To1 = 4,
       tw_total = 9, tw_balance = dbl (4 / 5)\<rparr>]"
  "matrix_get M a b = 5 \<Longrightarrow> twoWay_items M info (b, a, 4) =
     [\<lparr>tw_member1Id = b, tw_member1Name = info_name info b, tw_member2Id = a,
       tw_member2Name = info_name info a, tw_member1To2 = 4, tw_member2To1 = 5,
       tw_total = 9, tw_balance = dbl (4 / 5)\<rparr>]"
  by (simp_all add: twoWay_items_def twoWay_entry_def Let_def dbl_ratio_facts round2_facts)

lemma getMentionAnalysis_open:
  "openDatabase sid w = (Some f, w') \<Longrightarrow>
   fst (getMentionAnalysis sid tf w) = mention_analysis (fileData w' f) tf"
  by (simp add: getMentionAnalysis_def)

lemma mention_pair_9_1:
  assumes "mention_count db tf a b = 9" "mention_count db tf b a = 1"
  shows "filter (\<lambda>i. {ow_fromMemberId i, ow_toMemberId i} = {a, b}) (oneWay_r (mention_analysis db tf)) =
           [\<lparr>ow_fromMemberId = a, ow_fromName = mention_name db a, ow_toMemberId = b,
             ow_toName = mention_name db b, ow_fromToCount = 9, ow_toFromCount = 1,
             ow_ratio = dbl (9 / 10)\<rparr>]"
    and "filter (\<lambda>i. {tw_member1Id i, tw_member2Id i} = {a, b}) (twoWay_r (mention_analysis db tf)) = []"
proof -
  let ?M = "mentionMatrix (mention_scan db tf)"
  let ?I = "build_memberIdToInfo (mention_members db)"
  have pos: "0 < mention_count db tf a b" using assms by simp
  have wf: "wf_matrix ?M" by (rule mention_scan_props)
  have g: "matrix_get ?M a b = 9" "matrix_get ?M b a = 1"
    using assms by (simp_all add: mention_scan_props)
  have pos': "0 < matrix_get ?M a b" using g by simp
  note d1 = detect_oneWay_pair[OF wf pos', of ?I, unfolded g
      oneWay_items_9_1[OF g(2)] oneWay_items_1_9[OF g(1)], folded mention_name_def]
  note d2 = detect_twoWay_pair[OF wf pos', of ?I, unfolded g
      twoWay_items_9_1(1)[OF g(2)] twoWay_items_9_1(2)[OF g(1)]]
  from d1 show "filter (\<lambda>i. {ow_fromMemberId i, ow_toMemberId i} = {a, b}) (oneWay_r (mention_analysis db tf)) =
           [\<lparr>ow_fromMemberId = a, ow_fromName = mention_name db a, ow_toMemberId = b,
             ow_toName = mention_name db b, ow_fromToCount = 9, ow_toFromCount = 1,
             ow_ratio = dbl (9 / 10)\<rparr>]"
    unfolding mention_analysis_pairs[OF pos] by blast
  from d2 show "filter (\<lambda>i. {tw_member1Id i, tw_member2Id i} = {a, b}) (twoWay_r (mention_analysis db tf)) = []"
    unfolding mention_analysis_pairs[OF pos] by blast
qed

lemma mention_pair_5_4:
  assumes "mention_count db tf a b = 5" "mention_count db tf b a = 4"
  shows "filter (\<lambda>i. {ow_fromMemberId i, ow_toMemberId i} = {a, b}) (oneWay_r (mention_analysis db tf)) = []"
    and "filter (\<lambda>i. {tw_member1Id i, tw_member2Id i} = {a, b}) (twoWay_r (mention_analysis db tf)) =
           [\<lparr>tw_member1Id = a, tw_member1Name = mention_name db a, tw_member2Id = b,
             tw_member2Name = mention_name db b, tw_member1To2 = 5, tw_member2To1 = 4,
             tw_total = 9, tw_balance = dbl (4 / 5)\<rparr>] \<or>
         filter (\<lambda>i. {tw_member1Id i, tw_member2Id i} = {a, b}) (twoWay_r (mention_analysis db tf)) =
           [\<lparr>tw_member1Id = b, tw_member1Name = mention_name db b, tw_member2Id = a,
             tw_member2Name = mention_name db a, tw_member1To2 = 4, tw_member2To1 = 5,
             tw_total = 9, tw_balance = dbl (4 / 5)\<rparr>]"
proof -
  let ?M = "mentionMatrix (mention_scan db tf)"
  let ?I = "build_memberIdToInfo (mention_members db)"
  have pos: "0 < mention_count db tf a b" using assms by simp
  have wf: "wf_matrix ?M" by (rule mention_scan_props)
  have g: "matrix_get ?M a b = 5" "matrix_get ?M b a = 4"
    using assms by (simp_all add: mention_scan_props)
  have pos': "0 < matrix_get ?M a b" using g by simp
  note d1 = detect_oneWay_pair[OF wf pos', of ?I, unfolded g
      oneWay_items_5_4(1)[OF g(2)] oneWay_items_5_4(2)[OF g(1)]]
  note d2 = detect_twoWay_pair[OF wf pos', of ?I, unfolded g
      twoWay_items_5_4(1)[OF g(2)] twoWay_items_5_4(2)[OF g(1)], folded mention_name_def]
  from d1 show "filter (\<lambda>i. {ow_fromMemberId i, ow_toMemberId i} = {a, b}) (oneWay_r (mention_analysis db tf)) = []"
    unfolding mention_analysis_pairs[OF pos] by blast
  from d2 show "filter (\<lambda>i. {tw_member1Id i, tw_member2Id i} = {a, b}) (twoWay_r (mention_analysis db tf)) =
           [\<lparr>tw_member1Id = a, tw_member1Name = mention_name db a, tw_member2Id = b,
             tw_member2Name = mention_name db b, tw_member1To2 = 5, tw_member2To1 = 4,
             tw_total = 9, tw_balance = dbl (4 / 5)\<rparr>] \<or>
         filter (\<lambda>i. {tw_member1Id i, tw_member2Id i} = {a, b}) (twoWay_r (mention_analysis db tf)) =
           [\<lparr>tw_member1Id = b, tw_member1Name = mention_name db b, tw_member2Id = a,
             tw_member2Name = mention_name db a, tw_member1To2 = 4, tw_member2To1 = 5,
             tw_total = 9, tw_balance = dbl (4 / 5)\<rparr>]"
    unfolding mention_analysis_pairs[OF pos] by blast
qed


lemma mention_scenario_open:
  "openDatabase ''s'' (mention_worker msgs) =
     (Some 0, (mention_worker msgs)\<lparr>dbCache := [(''s'', 0)]\<rparr>)"
  by (simp add: openDatabase_def mention_worker_def map_get_def)

lemma mention_scenario_counts:
  "mention_count (mention_db msgs_9_1) None 1 2 = 9"
  "mention_count (mention_db msgs_9_1) None 2 1 = 1"
  "mention_count (mention_db msgs_5_4) None 1 2 = 5"
  "mention_count (mention_db msgs_5_4) None 2 1 = 4"
  by code_simp+

lemma mention_scenario_names:
  "mention_name (mention_db msgs) 1 = ''A''"
  "mention_name (mention_db msgs) 2 = ''B''"
  by (simp_all add: mention_name_def mention_db_def mention_members_def mention_members_AB_def
      SYSTEM_NAME_def build_memberIdToInfo_def info_name_def map_get_def)

lemma mention_scenario_matrix:
  "mentionMatrix (mention_scan (mention_db msgs_5_4) None) = [(2, [(1, 4)]), (1, [(2, 5)])]"
  "totalMentions (mention_scan (mention_db msgs_5_4) None) = 9"
  "mention_members (mention_db msgs_5_4) = mention_members_AB"
  by code_simp+

lemma mention_scenario_twoWay:
  "detect_twoWay [(2, [(1, 4)]), (1, [(2, 5)])] (build_memberIdToInfo mention_members_AB) =
     [\<lparr>tw_member1Id = 2, tw_member1Name = ''B'', tw_member2Id = 1, tw_member2Name = ''A'',
       tw_member1To2 = 4, tw_member2To1 = 5, tw_total = 9, tw_balance = dbl (4 / 5)\<rparr>]"
  by code_simp

text \<open>
  Claim C7. For every store, every time filter and every two members \<open>a\<close> and \<open>b\<close>: when
  \<open>a\<close> mentions \<open>b\<close> in 9 of the queried messages and \<open>b\<close> mentions \<open>a\<close> in 1, the
  one-way list of \<^const>\<open>getMentionAnalysis\<close> holds exactly one item for the pair,
  with \<open>a\<close> on the from-side, the counts 9 and 1 and the ratio 0.9 (as a double), and the
  two-way list holds none; when \<open>a\<close> mentions \<open>b\<close> in 5 messages and \<open>b\<close> mentions \<open>a\<close>
  in 4, the one-way list holds no item for the pair and the two-way list holds exactly
  one, with total 9 and balance 0.8, led by the member whose row comes first in the
  matrix.
\<close>

theorem mention_pair_classification:
  assumes "openDatabase sid w = (Some f, w')"
  shows "(mention_count (fileData w' f) tf a b = 9 \<and> mention_count (fileData w' f) tf b a = 1 \<longrightarrow>
            filter (\<lambda>i. {ow_fromMemberId i, ow_toMemberId i} = {a, b})
                   (oneWay_r (fst (getMentionAnalysis sid tf w))) =
              [\<lparr>ow_fromMemberId = a, ow_fromName = mention_name (fileData w' f) a,
                ow_toMemberId = b, ow_toName = mention_name (fileData w' f) b,
                ow_fromToCount = 9, ow_toFromCount = 1, ow_ratio = dbl (9 / 10)\<rparr>] \<and>
            filter (\<lambda>i. {tw_member1Id i, tw_member2Id i} = {a, b})
                   (twoWay_r (fst (getMentionAnalysis sid tf w))) = []) \<and>
         (mention_count (fileData w' f) tf a b = 5 \<and> mention_count (fileData w' f) tf b a = 4 \<longrightarrow>
            filter (\<lambda>i. {ow_fromMemberId i, ow_toMemberId i} = {a, b})
                   (oneWay_r (fst (getMentionAnalysis sid tf w))) = [] \<and>
            (filter (\<lambda>i. {tw_member1Id i, tw_member2Id i} = {a, b})
                    (twoWay_r (fst (getMentionAnalysis sid tf w))) =
               [\<lparr>tw_member1Id = a, tw_member1Name = mention_name (fileData w' f) a,
                 tw_member2Id = b, tw_member2Name = mention_name (fileData w' f) b,
                 tw_member1To2 = 5, tw_member2To1 = 4, tw_total = 9, tw_balance = dbl (4 / 5)\<rparr>] \<or>
             filter (\<lambda>i. {tw_member1Id i, tw_member2Id i} = {a, b})
                    (twoWay_r (fst (getMentionAnalysis sid tf w))) =
               [\<lparr>tw_member1Id = b, tw_member1Name = mention_name (fileData w' f) b,
                 tw_member2Id = a, tw_member2Name = mention_name (fileData w' f) a,
                 tw_member1To2 = 4, tw_member2To1 = 5, tw_total = 9, tw_balance = dbl (4 / 5)\<rparr>]))"
  unfolding getMentionAnalysis_open[OF assms]
  using mention_pair_9_1[of "fileData w' f" tf a b] mention_pair_5_4[of "fileData w' f" tf a b]
  by blast

theorem mention_pair_classification_witness:
  "openDatabase ''s'' (mention_worker msgs_9_1) =
     (Some 0, (mention_worker msgs_9_1)\<lparr>dbCache := [(''s'', 0)]\<rparr>) \<and>
   mention_count (mention_db msgs_9_1) None 1 2 = 9 \<and>
   mention_count (mention_db msgs_9_1) None 2 1 = 1 \<and>
   filter (\<lambda>i. {ow_fromMemberId i, ow_toMemberId i} = {1, 2})
          (oneWay_r (fst (getMentionAnalysis ''s'' None (mention_worker msgs_9_1)))) =
     [\<lparr>ow_fromMemberId = 1, ow_fromName = ''A'', ow_toMemberId = 2, ow_toName = ''B'',
       ow_fromToCount = 9, ow_toFromCount = 1, ow_ratio = dbl (9 / 10)\<rparr>] \<and>
   filter (\<lambda>i. {tw_member1Id i, tw_member2Id i} = {1, 2})
          (twoWay_r (fst (getMentionAnalysis ''s'' None (mention_worker msgs_9_1)))) = [] \<and>
   openDatabase ''s'' (mention_worker msgs_5_4) =
     (Some 0, (mention_worker msgs_5_4)\<lparr>dbCache := [(''s'', 0)]\<rparr>) \<and>
   mention_count (mention_db msgs_5_4) None 1 2 = 5 \<and>
   mention_count (mention_db msgs_5_4) None 2 1 = 4 \<and>
   filter (\<lambda>i. {ow_fromMemberId i, ow_toMemberId i} = {1, 2})
          (oneWay_r (fst (getMentionAnalysis ''s'' None (mention_worker msgs_5_4)))) = [] \<and>
   filter (\<lambda>i. {tw_member1Id i, tw_member2Id i} = {1, 2})
          (twoWay_r (fst (getMentionAnalysis ''s'' None (mention_worker msgs_5_4)))) =
     [\<lparr>tw_member1Id = 2, tw_member1Name = ''B'', tw_member2Id = 1, tw_member2Name = ''A'',
       tw_member1To2 = 4, tw_member2To1 = 5, tw_total = 9, tw_balance = dbl (4 / 5)\<rparr>]"
proof -
  have db: "fileData ((mention_worker msgs)\<lparr>dbCache := [(''s'', 0)]\<rparr>) 0 = mention_db msgs" for msgs
    by (simp add: mention_worker_def)
  note t1 = mention_pair_classification[OF mention_scenario_open, of msgs_9_1 None 1 2,
      unfolded db mention_scenario_names]
  note t2 = mention_pair_classification[OF mention_scenario_open, of msgs_5_4 None 1 2,
      unfolded db mention_scenario_names]
  have pos: "0 < mention_count (mention_db msgs_5_4) None 1 2"
    by (simp add: mention_scenario_counts)
  have r: "twoWay_r (fst (getMentionAnalysis ''s'' None (mention_worker msgs_5_4))) =
     [\<lparr>tw_member1Id = 2, tw_member1Name = ''B'', tw_member2Id = 1, tw_member2Name = ''A'',
       tw_member1To2 = 4, tw_member2To1 = 5, tw_total = 9, tw_balance = dbl (4 / 5)\<rparr>]"
    unfolding getMentionAnalysis_open[OF mention_scenario_open] db
      mention_analysis_pairs(2)[OF pos] mention_scenario_matrix
    by (rule mention_scenario_twoWay)
  have f: "filter (\<lambda>i. {tw_member1Id i, tw_member2Id i} = {1, 2})
          (twoWay_r (fst (getMentionAnalysis ''s'' None (mention_worker msgs_5_4)))) =
     [\<lparr>tw_member1Id = 2, tw_member1Name = ''B'', tw_member2Id = 1, tw_member2Name = ''A'',
       tw_member1To2 = 4, tw_member2To1 = 5, tw_total = 9, tw_balance = dbl (4 / 5)\<rparr>]"
    unfolding r by (simp add: insert_commute)
  from t1 t2 f mention_scenario_counts mention_scenario_open[of msgs_9_1]
    mention_scenario_open[of msgs_5_4]
  show ?thesis by blast
qed

section \<open>Properties of the ChatLab parser\<close>

lemma yield_batches_total:
  assumes "0 < b"
  shows "\<exists>bs. yield_batches b msgs i = Some bs \<and>
              (\<forall>e \<in> set bs. is_messages e \<and> batch_length e \<le> b \<and> \<not> is_meta e \<and> \<not> is_done e) \<and>
              concat (map (\<lambda>e. case e of Messages m \<Rightarrow> m | _ \<Rightarrow> []) bs) = drop i msgs"
proof (induction "length msgs - i" arbitrary: i rule: less_induct)
  case less
  show ?case
  proof (cases "i < length msgs")
    case False
    then show ?thesis by (subst yield_batches.simps) simp
  next
    case True
    with assms have "length msgs - (i + b) < length msgs - i" by arith
    from less[OF this] obtain rest where
      r: "yield_batches b msgs (i + b) = Some rest"
         "\<forall>e \<in> set rest. is_messages e \<and> batch_length e \<le> b \<and> \<not> is_meta e \<and> \<not> is_done e"
         "concat (map (\<lambda>e. case e of Messages m \<Rightarrow> m | _ \<Rightarrow> []) rest) = drop (i + b) msgs"
      by blast
    have "take b (drop i msgs) @ drop (i + b) msgs = drop i msgs"
      by (metis add.commute append_take_drop_id drop_drop)
    with r True show ?thesis
      by (subst yield_batches.simps) simp
  qed
qed

lemma on_data_fold:
  "messageBatch (foldl (on_data members b) c msgs) @ batchCollector (foldl (on_data members b) c msgs) =
     messageBatch c @ batchCollector c @
       map (\<lambda>msg. \<lparr>senderPlatformId = clm_sender msg, senderName = clm_name msg,
                   timestamp = clm_timestamp msg, msgType = clm_type msg,
                   msgContent = clm_content msg\<rparr>) msgs"
  by (induction msgs arbitrary: c) (auto simp: on_data_def Let_def)

lemma on_data_processed:
  "messagesProcessed (foldl (on_data members b) c msgs) = messagesProcessed c + length msgs"
  by (induction msgs arbitrary: c) (auto simp: on_data_def Let_def)

text \<open>
  Claim C8. For a positive batch size the ChatLab parser terminates; its event sequence
  holds exactly one \<open>meta\<close> event, which precedes every \<open>messages\<close> event, and no
  \<open>messages\<close> event carries more than \<open>batchSize\<close> messages. When the stream is read
  without error, the sequence ends with its only \<open>done\<close> event. When the reader fails,
  the generator throws after \<open>meta\<close>, having yielded neither messages nor \<open>done\<close>.
\<close>

theorem chatlab_event_contract:
  assumes "0 < batchSize"
  shows "\<exists>evs err. parseChatLab batchSize f = Some (evs, err) \<and>
           length (filter is_meta evs) = 1 \<and> meta_before_messages evs \<and>
           (\<forall>e \<in> set evs. batch_length e \<le> batchSize) \<and>
           (err = None \<longrightarrow> evs \<noteq> [] \<and> is_done (last evs) \<and> length (filter is_done evs) = 1) \<and>
           (err \<noteq> None \<longrightarrow> \<not> list_ex is_done evs \<and> \<not> list_ex is_messages evs)"
proof (cases "cf_streamError f")
  case (Some err)
  then show ?thesis
    by (simp add: parseChatLab_def Let_def meta_before_messages_def)
next
  case None
  define c where "c = on_end (foldl (on_data (chatlab_members f) batchSize) collector_init (cf_messages f))"
  from yield_batches_total[OF assms, of "messageBatch c" 0] obtain bs where
    bs: "yield_batches batchSize (messageBatch c) 0 = Some bs"
        "\<forall>e \<in> set bs. is_messages e \<and> batch_length e \<le> batchSize \<and> \<not> is_meta e \<and> \<not> is_done e"
    by blast
  from bs(2) have f1: "filter is_meta bs = []" and f2: "filter is_done bs = []"
    by (auto simp: filter_empty_conv)
  from None bs f1 f2 show ?thesis
    unfolding parseChatLab_def Let_def c_def[symmetric]
    by (auto simp: meta_before_messages_def)
qed

lemma chatlab_witness_events:
  "parseChatLab 2 chatlab_witness_file =
     Some ([Progress (createProgress Parsing 0 300 0),
            Meta \<lparr>pm_name = ''group'', pm_platform = ''unknown'', pm_type = ''group''\<rparr>,
            Members [\<lparr>mb_platformId = ''a'', mb_name = ''Ann'', mb_nickname = None\<rparr>,
                     \<lparr>mb_platformId = ''b'', mb_name = ''Bob'', mb_nickname = None\<rparr>],
            Messages [\<lparr>senderPlatformId = ''a'', senderName = ''Ann'', timestamp = Some 10,
                        msgType = Some 0, msgContent = Some ''x''\<rparr>,
                      \<lparr>senderPlatformId = ''b'', senderName = ''Bob'', timestamp = Some 11,
                        msgType = Some 0, msgContent = Some ''y''\<rparr>],
            Messages [\<lparr>senderPlatformId = ''a'', senderName = ''Ann'', timestamp = Some 12,
                        msgType = Some 0, msgContent = None\<rparr>],
            Progress (createProgress StageDone 300 300 3),
            Done 3 2], None)"
  apply code_simp
  apply (simp add: yield_batches.simps createProgress_def)
  done

theorem chatlab_event_contract_witness:
  "(0::nat) < 2 \<and>
   (\<exists>evs. parseChatLab 2 chatlab_witness_file = Some (evs, None) \<and>
          length (filter is_meta evs) = 1 \<and> meta_before_messages evs \<and>
          (\<forall>e \<in> set evs. batch_length e \<le> 2) \<and>
          evs \<noteq> [] \<and> is_done (last evs) \<and> length (filter is_done evs) = 1)"
  using chatlab_event_contract [of 2 chatlab_witness_file] chatlab_witness_events
  by auto


section \<open>Import\<close>

lemma uniqueNames_aux:
  "distinct (map fst u) \<Longrightarrow>
   distinct (map fst (foldl (\<lambda>u h. case map_get u (fst h) of
                     None \<Rightarrow> map_set u (fst h) (snd h, snd h)
                   | Some existing \<Rightarrow> map_set u (fst h) (fst existing, snd h)) u hs)) \<and>
   fst ` set (foldl (\<lambda>u h. case map_get u (fst h) of
                     None \<Rightarrow> map_set u (fst h) (snd h, snd h)
                   | Some existing \<Rightarrow> map_set u (fst h) (fst existing, snd h)) u hs) = fst ` set u \<union> fst ` set hs"
proof (induction hs arbitrary: u)
  case Nil then show ?case by simp
next
  case (Cons h hs)
  show ?case
  proof (cases "map_get u (fst h)")
    case None
    with Cons.prems Cons.IH[of "map_set u (fst h) (snd h, snd h)"] show ?thesis
      by (auto simp: distinct_map_set keys_map_set)
  next
    case (Some e)
    with Cons.prems Cons.IH[of "map_set u (fst h) (fst e, snd h)"] show ?thesis
      by (auto simp: distinct_map_set keys_map_set)
  qed
qed

lemma uniqueNames_keys:
  "distinct (map fst (uniqueNames hs))" "fst ` set (uniqueNames hs) = fst ` set hs"
  using uniqueNames_aux[of "[]" hs] by (simp_all add: uniqueNames_def)

lemma length_uniqueNames: "length (uniqueNames hs) = card (fst ` set hs)"
  using uniqueNames_keys[of hs] distinct_card[of "map fst (uniqueNames hs)"] by simp

lemma length_map_delete_le: "length (map_delete m k) \<le> length m"
  by (simp add: map_delete_def)

lemma historyRows_member: "r \<in> set (historyRows m xs) \<Longrightarrow> nh_member_id r = m"
  by (induction m xs rule: historyRows.induct) auto

lemma historyRows_starts: "map nh_start_ts (historyRows m xs) = map (\<lambda>a. fst (snd a)) xs"
  by (induction m xs rule: historyRows.induct) auto

lemma historyRows_gapless: "sorted (map (\<lambda>a. fst (snd a)) xs) \<Longrightarrow> gapless (historyRows m xs)"
proof (induction m xs rule: historyRows.induct)
  case (3 senderId name start latest nxt rest)
  then show ?case by (cases nxt; cases rest) auto
qed auto

lemma sort_key_sorted_id: "sorted (map f xs) \<Longrightarrow> sort_key f xs = xs"
  by (induction xs) (auto simp: insort_is_Cons)

lemma historyRows_sorted_gapless:
  "gapless (sort_key nh_start_ts (historyRows m (sort_key (\<lambda>a. fst (snd a)) names)))"
proof -
  have s: "sorted (map (\<lambda>a. fst (snd a)) (sort_key (\<lambda>a. fst (snd a)) names))" by simp
  then have "sorted (map nh_start_ts (historyRows m (sort_key (\<lambda>a. fst (snd a)) names)))"
    by (simp add: historyRows_starts)
  then show ?thesis by (simp add: sort_key_sorted_id historyRows_gapless[OF s])
qed

lemma guard_ok [simp]: "thrown s = None \<Longrightarrow> guard f s = f s"
  by (simp add: guard_def)

lemma tick_ok [simp]: "faultIn s = None \<Longrightarrow> tick s = s"
  by (simp add: tick_def)

lemma run_streaming: "streaming s \<Longrightarrow> run f s = s\<lparr>cur := f (cur s)\<rparr>"
  by (simp add: run_def streaming_def)

lemma streaming_cur [simp]: "streaming (s\<lparr>cur := c\<rparr>) = streaming s"
  by (simp add: streaming_def)

lemma commitAndBeginNew_streaming:
  "streaming s \<Longrightarrow>
   commitAndBeginNew s =
     s\<lparr>committed := cur s,
       lastCheckpointCount :=
         (if totalMessageCount s - lastCheckpointCount s \<ge> CHECKPOINT_INTERVAL
          then totalMessageCount s else lastCheckpointCount s)\<rparr>"
  by (simp add: commitAndBeginNew_def streaming_def exec_COMMIT_def beginTransaction_def
      exec_BEGIN_def doCheckpoint_def Let_def)

lemma onMeta_streaming:
  "streaming s \<Longrightarrow>
   onMeta now m s =
     (if metaInserted s then s
      else s\<lparr>cur := insertMeta (pm_name m) (pm_platform m) (pm_type m) now (cur s),
             metaInserted := True\<rparr>)"
  by (simp add: onMeta_def run_streaming streaming_def)

lemma getMemberId_insertMember:
  "getMemberId (insertMember pid name nick db) pid \<noteq> None"
  by (auto simp: getMemberId_def insertMember_def find_None_iff split: option.splits)

lemma streaming_fields [simp]:
  "streaming (s\<lparr>memberIdMap := a\<rparr>) = streaming s"
  "streaming (s\<lparr>memberNicknameMap := b\<rparr>) = streaming s"
  "streaming (s\<lparr>nicknameTracker := c\<rparr>) = streaming s"
  "streaming (s\<lparr>metaInserted := d\<rparr>) = streaming s"
  "streaming (s\<lparr>messageCountInBatch := e\<rparr>) = streaming s"
  "streaming (s\<lparr>totalMessageCount := f\<rparr>) = streaming s"
  "streaming (s\<lparr>lastCheckpointCount := g\<rparr>) = streaming s"
  "streaming (s\<lparr>committed := h\<rparr>) = streaming s"
  by (simp_all add: streaming_def)

lemma cacheMemberId_fields [simp]:
  "cur (cacheMemberId p s) = cur s"
  "committed (cacheMemberId p s) = committed s"
  "memberNicknameMap (cacheMemberId p s) = memberNicknameMap s"
  "nicknameTracker (cacheMemberId p s) = nicknameTracker s"
  "streaming (cacheMemberId p s) = streaming s"
  "thrown (cacheMemberId p s) = thrown s"
  "faultIn (cacheMemberId p s) = faultIn s"
  "dbInTx (cacheMemberId p s) = dbInTx s"
  "inTransaction (cacheMemberId p s) = inTransaction s"
  by (simp_all add: cacheMemberId_def streaming_def split: option.splits)

lemma onMember_streaming:
  assumes "streaming s"
  shows "streaming (onMember mbr s)"
    and "cur (onMember mbr s) =
           insertMember (mb_platformId mbr) (mb_name mbr) (nickname_or_null (mb_nickname mbr)) (cur s)"
    and "memberIdMap (onMember mbr s) =
           memberIdMap (cacheMemberId (mb_platformId mbr)
             (s\<lparr>cur := insertMember (mb_platformId mbr) (mb_name mbr)
                            (nickname_or_null (mb_nickname mbr)) (cur s)\<rparr>))"
    and "nicknameTracker (onMember mbr s) = nicknameTracker s"
    and "memberNicknameMap (onMember mbr s) =
           (case nickname_or_null (mb_nickname mbr) of
              None \<Rightarrow> memberNicknameMap s
            | Some n \<Rightarrow> map_set (memberNicknameMap s) (mb_platformId mbr) n)"
  using assms
  by (simp_all add: onMember_def run_streaming Let_def streaming_def split: option.splits)

lemma trackNickname_fields [simp]:
  "cur (trackNickname p n t s) = cur s"
  "committed (trackNickname p n t s) = committed s"
  "memberIdMap (trackNickname p n t s) = memberIdMap s"
  "memberNicknameMap (trackNickname p n t s) = memberNicknameMap s"
  "streaming (trackNickname p n t s) = streaming s"
  "messageCountInBatch (trackNickname p n t s) = messageCountInBatch s"
  "totalMessageCount (trackNickname p n t s) = totalMessageCount s"
  "lastCheckpointCount (trackNickname p n t s) = lastCheckpointCount s"
  "thrown (trackNickname p n t s) = thrown s"
  "faultIn (trackNickname p n t s) = faultIn s"
  "dbInTx (trackNickname p n t s) = dbInTx s"
  "inTransaction (trackNickname p n t s) = inTransaction s"
  by (simp_all add: trackNickname_def streaming_def split: option.splits)

lemma trackNickname_counts [simp]:
  "nicknameTracker (trackNickname p n t (s\<lparr>messageCountInBatch := a, totalMessageCount := b\<rparr>)) =
     nicknameTracker (trackNickname p n t s)"
  by (simp add: trackNickname_def isRealNickname_def split: option.splits)

lemma afterInsert_streaming:
  assumes "streaming s"
  shows "streaming (afterInsert p n t s)"
    and "cur (afterInsert p n t s) = cur s"
    and "memberIdMap (afterInsert p n t s) = memberIdMap s"
    and "memberNicknameMap (afterInsert p n t s) = memberNicknameMap s"
    and "nicknameTracker (afterInsert p n t s) = nicknameTracker (trackNickname p n t s)"
  using assms
  by (simp_all add: afterInsert_def Let_def commitAndBeginNew_streaming)
     (simp_all add: streaming_def)

lemma foldr_max_ge: "x \<in> set ids \<Longrightarrow> x \<le> foldr max ids (0::int)"
  by (induction ids) auto

lemma foldr_max_nonneg: "0 \<le> foldr max ids (0::int)"
  by (induction ids) auto

lemma next_id_gt: "x \<in> set ids \<Longrightarrow> x < next_id ids"
  using foldr_max_ge[of x ids] by (simp add: next_id_def)

lemma next_id_pos: "0 < next_id ids"
  using foldr_max_nonneg[of ids] by (simp add: next_id_def)

lemma next_id_fresh: "next_id ids \<notin> set ids"
  using next_id_gt[of "next_id ids" ids] by auto

lemma find_key_iff:
  "distinct (map f xs) \<Longrightarrow> find (\<lambda>m. f m = p) xs = Some m \<longleftrightarrow> m \<in> set xs \<and> f m = p"
  by (induction xs) (auto simp: image_iff)

lemma find_app:
  "find P (xs @ ys) = (case find P xs of None \<Rightarrow> find P ys | Some x \<Rightarrow> Some x)"
  by (induction xs) auto

lemma getMemberId_Some_iff:
  assumes "distinct (map member_platform_id (member db))"
  shows "getMemberId db pid = Some i \<longleftrightarrow>
           (\<exists>m \<in> set (member db). member_platform_id m = pid \<and> member_id m = i)"
proof -
  have "getMemberId db pid = Some i \<longleftrightarrow>
          (\<exists>m. find (\<lambda>m. member_platform_id m = pid) (member db) = Some m \<and> member_id m = i)"
    by (simp add: getMemberId_def split: option.splits)
  also have "\<dots> \<longleftrightarrow> (\<exists>m. (m \<in> set (member db) \<and> member_platform_id m = pid) \<and> member_id m = i)"
    by (simp only: find_key_iff[OF assms])
  finally show ?thesis by blast
qed

lemma getMemberId_None_iff:
  "getMemberId db pid = None \<longleftrightarrow> pid \<notin> member_platform_id ` set (member db)"
proof -
  have "getMemberId db pid = None \<longleftrightarrow> find (\<lambda>m. member_platform_id m = pid) (member db) = None"
    by (simp add: getMemberId_def split: option.splits)
  then show ?thesis by (auto simp: find_None_iff)
qed

lemma insertMember_fields [simp]:
  "message (insertMember p n k db) = message db"
  "meta (insertMember p n k db) = meta db"
  "member_name_history (insertMember p n k db) = member_name_history db"
  by (simp_all add: insertMember_def)

lemma insertMember_pids:
  "member_platform_id ` set (member (insertMember p n k db)) = insert p (member_platform_id ` set (member db))"
  by (auto simp: insertMember_def)

lemma insertMember_distinct_pids:
  "distinct (map member_platform_id (member db)) \<Longrightarrow>
   distinct (map member_platform_id (member (insertMember p n k db)))"
  by (auto simp: insertMember_def)

lemma insertMember_distinct_ids:
  "distinct (map member_id (member db)) \<Longrightarrow> distinct (map member_id (member (insertMember p n k db)))"
  using next_id_fresh[of "map member_id (member db)"] by (auto simp: insertMember_def)

lemma insertMember_pos:
  "\<forall>m \<in> set (member db). 0 < member_id m \<Longrightarrow> \<forall>m \<in> set (member (insertMember p n k db)). 0 < member_id m"
  by (auto simp: insertMember_def next_id_pos)

lemma insertMember_ids_mono:
  "member_id ` set (member db) \<subseteq> member_id ` set (member (insertMember p n k db))"
  by (auto simp: insertMember_def)

lemma insertMember_getMemberId_mono:
  "getMemberId db pid = Some i \<Longrightarrow> getMemberId (insertMember p n k db) pid = Some i"
  by (auto simp: getMemberId_def insertMember_def find_app split: option.splits)

lemma insertMember_names:
  "member_name ` set (member (insertMember p n k db)) \<subseteq> insert n (member_name ` set (member db))"
  by (auto simp: insertMember_def)

lemma store_inv_cong:
  "cur s = cur t \<Longrightarrow> memberIdMap s = memberIdMap t \<Longrightarrow> nicknameTracker s = nicknameTracker t \<Longrightarrow>
   store_inv s = store_inv t"
  by (simp add: store_inv_def)

lemma store_inv_insertMember:
  assumes "store_inv s"
  shows "store_inv (s\<lparr>cur := insertMember p n k (cur s)\<rparr>)"
  using assms insertMember_ids_mono[of "cur s" p n k]
  by (auto simp: store_inv_def insertMember_distinct_pids insertMember_distinct_ids
      insertMember_pos insertMember_getMemberId_mono)

lemma store_inv_cacheMemberId:
  assumes "store_inv s"
  shows "store_inv (cacheMemberId p s)"
  using assms by (auto simp: store_inv_def cacheMemberId_def split: option.splits)

lemma onMember_inv:
  assumes "streaming s" "store_inv s"
  shows "store_inv (onMember mbr s)"
proof -
  let ?t = "cacheMemberId (mb_platformId mbr)
             (s\<lparr>cur := insertMember (mb_platformId mbr) (mb_name mbr)
                            (nickname_or_null (mb_nickname mbr)) (cur s)\<rparr>)"
  have "store_inv ?t"
    by (intro store_inv_cacheMemberId store_inv_insertMember assms)
  moreover have "store_inv (onMember mbr s) = store_inv ?t"
    by (rule store_inv_cong) (simp_all add: onMember_streaming[OF assms(1)])
  ultimately show ?thesis by simp
qed

lemma ensureMember_streaming:
  assumes "streaming s"
  shows "ensureMember msg s =
           (if \<not> map_has (memberIdMap s) (senderPlatformId msg)
            then cacheMemberId (senderPlatformId msg)
                   (s\<lparr>cur := insertMember (senderPlatformId msg)
                                  (if senderName msg \<noteq> [] then senderName msg else senderPlatformId msg)
                                  None (cur s)\<rparr>)
            else s)"
  using assms by (simp add: ensureMember_def Let_def run_streaming) (simp add: streaming_def)

lemma ensureMember_props:
  assumes "streaming s" "store_inv s"
  shows "streaming (ensureMember msg s)" "store_inv (ensureMember msg s)"
    and "\<exists>i. map_get (memberIdMap (ensureMember msg s)) (senderPlatformId msg) = Some i"
    and "nicknameTracker (ensureMember msg s) = nicknameTracker s"
    and "memberNicknameMap (ensureMember msg s) = memberNicknameMap s"
    and "message (cur (ensureMember msg s)) = message (cur s)"
    and "member_name_history (cur (ensureMember msg s)) = member_name_history (cur s)"
    and "meta (cur (ensureMember msg s)) = meta (cur s)"
proof -
  show "streaming (ensureMember msg s)"
    using assms(1) by (simp add: ensureMember_streaming)
  show "store_inv (ensureMember msg s)"
    using assms by (simp add: ensureMember_streaming store_inv_cacheMemberId store_inv_insertMember)
  show "\<exists>i. map_get (memberIdMap (ensureMember msg s)) (senderPlatformId msg) = Some i"
  proof (cases "map_has (memberIdMap s) (senderPlatformId msg)")
    case True
    then show ?thesis
      using assms(1) by (auto simp: ensureMember_streaming map_has_def map_get_def)
  next
    case False
    let ?n = "if senderName msg \<noteq> [] then senderName msg else senderPlatformId msg"
    obtain i where "getMemberId (insertMember (senderPlatformId msg) ?n None (cur s)) (senderPlatformId msg) = Some i"
      using getMemberId_insertMember[of "senderPlatformId msg" ?n None "cur s"] by blast
    with False show ?thesis
      using assms(1) by (simp add: ensureMember_streaming cacheMemberId_def)
  qed
qed (simp_all add: ensureMember_streaming[OF assms(1)])

lemma onMessage_invalid: "\<not> validMessage msg \<Longrightarrow> onMessage msg s = s"
  by (auto simp: validMessage_def onMessage_def split: option.splits)

lemma trackNickname_tracker_cong:
  "nicknameTracker s = nicknameTracker t \<Longrightarrow> memberNicknameMap s = memberNicknameMap t \<Longrightarrow>
   nicknameTracker (trackNickname p n ts s) = nicknameTracker (trackNickname p n ts t)"
  by (simp add: trackNickname_def isRealNickname_def split: option.splits)

lemma trackNickname_distinct:
  "distinct (map fst (nicknameTracker s)) \<Longrightarrow> distinct (map fst (nicknameTracker (trackNickname p n ts s)))"
  by (simp add: trackNickname_def distinct_map_set split: option.splits)

lemma insertMessage_fields [simp]:
  "member (insertMessage i ts ty c db) = member db"
  "meta (insertMessage i ts ty c db) = meta db"
  "member_name_history (insertMessage i ts ty c db) = member_name_history db"
  "getMemberId (insertMessage i ts ty c db) p = getMemberId db p"
  by (simp_all add: insertMessage_def getMemberId_def)

lemma onMessage_valid:
  assumes "streaming s" "store_inv s" "validMessage msg"
  shows "\<exists>i ts ty. timestamp msg = Some ts \<and> msgType msg = Some ty \<and>
           map_get (memberIdMap (ensureMember msg s)) (senderPlatformId msg) = Some i \<and>
           streaming (onMessage msg s) \<and>
           cur (onMessage msg s) = insertMessage i ts ty (msgContent msg) (cur (ensureMember msg s)) \<and>
           memberIdMap (onMessage msg s) = memberIdMap (ensureMember msg s) \<and>
           memberNicknameMap (onMessage msg s) = memberNicknameMap s \<and>
           nicknameTracker (onMessage msg s) =
             nicknameTracker (trackNickname (senderPlatformId msg) (senderName msg) ts s)"
proof -
  let ?s1 = "ensureMember msg s"
  from assms(3) obtain ts ty where v: "timestamp msg = Some ts" "msgType msg = Some ty"
    "senderPlatformId msg \<noteq> []" "senderName msg \<noteq> []"
    by (auto simp: validMessage_def)
  note e = ensureMember_props[OF assms(1,2), of msg]
  from e(3) obtain i where i: "map_get (memberIdMap ?s1) (senderPlatformId msg) = Some i" by blast
  have th: "thrown ?s1 = None" using e(1) by (simp add: streaming_def)
  let ?s2 = "?s1\<lparr>cur := insertMessage i ts ty (msgContent msg) (cur ?s1)\<rparr>"
  have s2: "streaming ?s2" using e(1) by simp
  then have th2: "thrown ?s2 = None" by (simp add: streaming_def)
  have eq: "onMessage msg s = afterInsert (senderPlatformId msg) (senderName msg) ts ?s2"
    using v i th th2 by (simp add: onMessage_def run_streaming[OF e(1)])
  have "nicknameTracker (trackNickname (senderPlatformId msg) (senderName msg) ts ?s2) =
        nicknameTracker (trackNickname (senderPlatformId msg) (senderName msg) ts s)"
    by (rule trackNickname_tracker_cong) (simp_all add: e)
  with v i s2 show ?thesis
    by (simp add: eq afterInsert_streaming[OF s2] e)
qed

lemma onMessage_inv:
  assumes "streaming s" "store_inv s"
  shows "streaming (onMessage msg s) \<and> store_inv (onMessage msg s)"
proof (cases "validMessage msg")
  case False
  with assms show ?thesis by (simp add: onMessage_invalid)
next
  case True
  from onMessage_valid[OF assms True] obtain i ts ty where
    f: "map_get (memberIdMap (ensureMember msg s)) (senderPlatformId msg) = Some i"
       "streaming (onMessage msg s)"
       "cur (onMessage msg s) = insertMessage i ts ty (msgContent msg) (cur (ensureMember msg s))"
       "memberIdMap (onMessage msg s) = memberIdMap (ensureMember msg s)"
       "nicknameTracker (onMessage msg s) =
          nicknameTracker (trackNickname (senderPlatformId msg) (senderName msg) ts s)"
    by blast
  note e = ensureMember_props[OF assms, of msg]
  from e(2) f(1) have "getMemberId (cur (ensureMember msg s)) (senderPlatformId msg) = Some i"
    by (simp add: store_inv_def)
  with e(2) have "i \<in> member_id ` set (member (cur (ensureMember msg s)))"
    by (auto simp: store_inv_def getMemberId_Some_iff)
  with e(2) assms(2) have "store_inv (onMessage msg s)"
    by (auto simp: store_inv_def f insertMessage_def trackNickname_distinct getMemberId_def)
  with f(2) show ?thesis by simp
qed

lemma extends_refl: "extends {} {} 0 s s"
  by (simp add: extends_def)

lemma extendsD:
  assumes "extends P N k s s'"
  shows "member_platform_id ` set (member (cur s')) = member_platform_id ` set (member (cur s)) \<union> P"
    and "member_name ` set (member (cur s')) \<subseteq> member_name ` set (member (cur s)) \<union> N"
    and "length (message (cur s')) = length (message (cur s)) + k"
    and "member_name_history (cur s') = member_name_history (cur s)"
    and "\<And>e. e \<in> set (nicknameTracker s') \<Longrightarrow>
           tr_currentName (snd e) \<in> (\<lambda>e. tr_currentName (snd e)) ` set (nicknameTracker s) \<union> N"
  using assms unfolding extends_def by simp_all

lemma extends_trans:
  assumes a: "extends p1 n1 k1 s s'" and b: "extends p2 n2 k2 s' s''"
  shows "extends (p1 \<union> p2) (n1 \<union> n2) (k1 + k2) s s''"
  unfolding extends_def
proof (intro conjI ballI)
  show "member_platform_id ` set (member (cur s'')) =
          member_platform_id ` set (member (cur s)) \<union> (p1 \<union> p2)"
    unfolding extendsD(1)[OF b] extendsD(1)[OF a] by (rule Un_assoc)
  show "member_name ` set (member (cur s'')) \<subseteq> member_name ` set (member (cur s)) \<union> (n1 \<union> n2)"
    using extendsD(2)[OF a] extendsD(2)[OF b] by blast
  show "length (message (cur s'')) = length (message (cur s)) + (k1 + k2)"
    unfolding extendsD(3)[OF b] extendsD(3)[OF a] by simp
  show "member_name_history (cur s'') = member_name_history (cur s)"
    unfolding extendsD(4)[OF b] extendsD(4)[OF a] by (rule refl)
  fix e assume "e \<in> set (nicknameTracker s'')"
  from extendsD(5)[OF b this]
  consider "tr_currentName (snd e) \<in> n2"
    | e' where "e' \<in> set (nicknameTracker s')" "tr_currentName (snd e) = tr_currentName (snd e')"
    by auto
  then show "tr_currentName (snd e) \<in>
          (\<lambda>e. tr_currentName (snd e)) ` set (nicknameTracker s) \<union> (n1 \<union> n2)"
  proof cases
    case 1
    then show ?thesis by simp
  next
    case 2
    from extendsD(5)[OF a 2(1)] 2(2) show ?thesis by auto
  qed
qed

lemma onMember_extends:
  assumes "streaming s"
  shows "extends {mb_platformId mbr} {mb_name mbr} 0 s (onMember mbr s)"
  using insertMember_names[of "mb_platformId mbr" "mb_name mbr" _ "cur s"]
  by (auto simp: extends_def onMember_streaming[OF assms] insertMember_pids)

lemma ensureMember_pids:
  assumes "streaming s" "store_inv s"
  shows "member_platform_id ` set (member (cur (ensureMember msg s))) =
           insert (senderPlatformId msg) (member_platform_id ` set (member (cur s)))"
proof (cases "map_has (memberIdMap s) (senderPlatformId msg)")
  case False
  then show ?thesis by (simp add: ensureMember_streaming[OF assms(1)] insertMember_pids)
next
  case True
  then obtain i where "map_get (memberIdMap s) (senderPlatformId msg) = Some i"
    by (auto simp: map_has_def map_get_def)
  with assms(2) have "getMemberId (cur s) (senderPlatformId msg) = Some i"
    by (simp add: store_inv_def)
  then have "senderPlatformId msg \<in> member_platform_id ` set (member (cur s))"
    using getMemberId_None_iff[of "cur s" "senderPlatformId msg"] by auto
  with True show ?thesis by (auto simp: ensureMember_streaming[OF assms(1)])
qed

lemma ensureMember_names:
  assumes "streaming s" "senderName msg \<noteq> []"
  shows "member_name ` set (member (cur (ensureMember msg s))) \<subseteq>
           insert (senderName msg) (member_name ` set (member (cur s)))"
  using insertMember_names[of "senderPlatformId msg" "senderName msg" None "cur s"] assms(2)
  by (auto simp: ensureMember_streaming[OF assms(1)])

lemma trackNickname_currentNames:
  "e \<in> set (nicknameTracker (trackNickname p n ts s)) \<Longrightarrow>
   tr_currentName (snd e) \<in> insert n ((\<lambda>e. tr_currentName (snd e)) ` set (nicknameTracker s))"
proof -
  have m: "\<And>m k v e. e \<in> set (map_set m k v) \<Longrightarrow> e = (k, v) \<or> e \<in> set m"
    subgoal for m k v e by (induction m) (auto split: if_splits)
    done
  have g: "\<And>t. map_get (nicknameTracker s) p = Some t \<Longrightarrow> (p, t) \<in> set (nicknameTracker s)"
    by (simp add: map_get_def map_of_SomeD)
  assume "e \<in> set (nicknameTracker (trackNickname p n ts s))"
  then show ?thesis
    by (auto simp: trackNickname_def image_iff split: option.splits if_splits dest!: m dest: g)
       (force dest: g)+
qed

lemma onMessage_extends:
  assumes "streaming s" "store_inv s"
  shows "extends (if validMessage msg then {senderPlatformId msg} else {})
           (if validMessage msg then {senderName msg} else {})
           (if validMessage msg then 1 else 0) s (onMessage msg s)"
proof (cases "validMessage msg")
  case False
  then show ?thesis by (simp add: onMessage_invalid extends_refl)
next
  case True
  from onMessage_valid[OF assms True] obtain i ts ty where
    f: "cur (onMessage msg s) = insertMessage i ts ty (msgContent msg) (cur (ensureMember msg s))"
       "nicknameTracker (onMessage msg s) =
          nicknameTracker (trackNickname (senderPlatformId msg) (senderName msg) ts s)"
    by blast
  from True have n: "senderName msg \<noteq> []" by (simp add: validMessage_def)
  note e = ensureMember_props[OF assms, of msg]
  show ?thesis
    using True ensureMember_names[OF assms(1) n] trackNickname_currentNames[of _ "senderPlatformId msg" "senderName msg" ts s]
    by (auto simp: extends_def f ensureMember_pids[OF assms] e insertMessage_def)
qed

lemma extends_eq:
  "extends P N k s s' \<Longrightarrow> P = P' \<Longrightarrow> N = N' \<Longrightarrow> k = k' \<Longrightarrow> extends P' N' k' s s'"
  by simp

lemma streaming_thrown: "streaming s \<Longrightarrow> thrown s = None"
  by (simp add: streaming_def)

lemma onMembers_props:
  assumes "streaming s" "store_inv s"
  shows "streaming (onMembers ms s) \<and> store_inv (onMembers ms s) \<and>
         extends (mb_platformId ` set ms) (mb_name ` set ms) 0 s (onMembers ms s)"
  using assms
proof (induction ms arbitrary: s)
  case Nil
  then show ?case by (simp add: onMembers_def extends_refl)
next
  case (Cons m ms)
  let ?s1 = "onMember m s"
  have s1: "streaming ?s1" "store_inv ?s1"
    using Cons.prems by (simp_all add: onMember_streaming onMember_inv)
  have e1: "extends {mb_platformId m} {mb_name m} 0 s ?s1"
    by (rule onMember_extends[OF Cons.prems(1)])
  have eq: "onMembers (m # ms) s = onMembers ms ?s1"
    using Cons.prems(1) by (simp add: onMembers_def streaming_thrown)
  from Cons.IH[OF s1] have ih: "streaming (onMembers ms ?s1)" "store_inv (onMembers ms ?s1)"
    "extends (mb_platformId ` set ms) (mb_name ` set ms) 0 ?s1 (onMembers ms ?s1)"
    by simp_all
  from extends_trans[OF e1 ih(3)] have
    "extends (mb_platformId ` set (m # ms)) (mb_name ` set (m # ms)) 0 s (onMembers ms ?s1)"
    by (rule extends_eq) simp_all
  with ih(1,2) show ?case by (simp add: eq)
qed

lemma onMessageBatch_props:
  assumes "streaming s" "store_inv s"
  shows "streaming (onMessageBatch b s) \<and> store_inv (onMessageBatch b s) \<and>
         extends (senderPlatformId ` set (filter validMessage b)) (senderName ` set (filter validMessage b))
           (length (filter validMessage b)) s (onMessageBatch b s)"
  using assms
proof (induction b arbitrary: s)
  case Nil
  then show ?case by (simp add: onMessageBatch_def extends_refl)
next
  case (Cons m b)
  let ?s1 = "onMessage m s"
  have s1: "streaming ?s1" "store_inv ?s1"
    using onMessage_inv[OF Cons.prems] by simp_all
  have e1: "extends (if validMessage m then {senderPlatformId m} else {})
           (if validMessage m then {senderName m} else {})
           (if validMessage m then 1 else 0) s ?s1"
    by (rule onMessage_extends[OF Cons.prems])
  have eq: "onMessageBatch (m # b) s = onMessageBatch b ?s1"
    using Cons.prems(1) by (simp add: onMessageBatch_def streaming_thrown)
  from Cons.IH[OF s1] have ih: "streaming (onMessageBatch b ?s1)" "store_inv (onMessageBatch b ?s1)"
    "extends (senderPlatformId ` set (filter validMessage b)) (senderName ` set (filter validMessage b))
           (length (filter validMessage b)) ?s1 (onMessageBatch b ?s1)"
    by simp_all
  from extends_trans[OF e1 ih(3)] have
    "extends (senderPlatformId ` set (filter validMessage (m # b)))
       (senderName ` set (filter validMessage (m # b)))
       (length (filter validMessage (m # b))) s (onMessageBatch b ?s1)"
    by (rule extends_eq) simp_all
  with ih(1,2) show ?case by (simp add: eq)
qed

lemma onMeta_props:
  assumes "streaming s" "store_inv s"
  shows "streaming (onMeta now m s) \<and> store_inv (onMeta now m s) \<and> extends {} {} 0 s (onMeta now m s)"
  using assms
  by (auto simp: onMeta_streaming extends_def store_inv_def insertMeta_def getMemberId_def)

lemma dispatch_props:
  assumes "streaming s" "store_inv s"
  shows "streaming (dispatch now e s) \<and> store_inv (dispatch now e s) \<and>
         extends (mb_platformId ` set (event_members e) \<union>
                    senderPlatformId ` set (filter validMessage (event_messages e)))
                 (mb_name ` set (event_members e) \<union>
                    senderName ` set (filter validMessage (event_messages e)))
                 (length (filter validMessage (event_messages e))) s (dispatch now e s)"
proof (cases e)
  case (Progress p)
  with assms show ?thesis by (simp add: dispatch_def extends_refl)
next
  case (Meta m)
  with onMeta_props[OF assms] show ?thesis by (simp add: dispatch_def)
next
  case (Members ms)
  with onMembers_props[OF assms] show ?thesis by (simp add: dispatch_def)
next
  case (Messages b)
  with onMessageBatch_props[OF assms] show ?thesis by (simp add: dispatch_def)
next
  case (Done n m)
  with assms show ?thesis by (simp add: dispatch_def extends_refl)
qed

lemma events_props:
  assumes "streaming s" "store_inv s"
  shows "streaming (foldl (\<lambda>s e. guard (dispatch now e) s) s events) \<and>
         store_inv (foldl (\<lambda>s e. guard (dispatch now e) s) s events) \<and>
         extends (mb_platformId ` set (all_members events) \<union>
                    senderPlatformId ` set (filter validMessage (all_messages events)))
                 (mb_name ` set (all_members events) \<union>
                    senderName ` set (filter validMessage (all_messages events)))
                 (length (filter validMessage (all_messages events))) s
                 (foldl (\<lambda>s e. guard (dispatch now e) s) s events)"
  using assms
proof (induction events arbitrary: s)
  case Nil
  then show ?case by (simp add: extends_refl all_members_def all_messages_def)
next
  case (Cons e events)
  let ?s1 = "dispatch now e s"
  note d = dispatch_props[OF Cons.prems, of now e]
  from d have s1: "streaming ?s1" "store_inv ?s1" by simp_all
  from d have e1: "extends (mb_platformId ` set (event_members e) \<union>
                    senderPlatformId ` set (filter validMessage (event_messages e)))
                 (mb_name ` set (event_members e) \<union>
                    senderName ` set (filter validMessage (event_messages e)))
                 (length (filter validMessage (event_messages e))) s ?s1" by simp
  let ?f = "foldl (\<lambda>s e. guard (dispatch now e) s) ?s1 events"
  from Cons.IH[OF s1] have ih: "streaming ?f" "store_inv ?f"
    "extends (mb_platformId ` set (all_members events) \<union>
                    senderPlatformId ` set (filter validMessage (all_messages events)))
                 (mb_name ` set (all_members events) \<union>
                    senderName ` set (filter validMessage (all_messages events)))
                 (length (filter validMessage (all_messages events))) ?s1 ?f"
    by simp_all
  from extends_trans[OF e1 ih(3)] have
    "extends (mb_platformId ` set (all_members (e # events)) \<union>
                    senderPlatformId ` set (filter validMessage (all_messages (e # events))))
                 (mb_name ` set (all_members (e # events)) \<union>
                    senderName ` set (filter validMessage (all_messages (e # events))))
                 (length (filter validMessage (all_messages (e # events)))) s ?f"
    by (rule extends_eq) (auto simp: all_members_def all_messages_def)
  with ih(1,2) show ?case using Cons.prems(1) by (simp add: streaming_thrown)
qed

lemma run_quiet: "quiet s \<Longrightarrow> run f s = s\<lparr>cur := f (cur s)\<rparr>"
  by (simp add: run_def quiet_def)

lemma quiet_cur [simp]: "quiet (s\<lparr>cur := c\<rparr>) = quiet s"
  by (simp add: quiet_def)

lemma quiet_thrown: "quiet s \<Longrightarrow> thrown s = None"
  by (simp add: quiet_def)

lemma updateMemberName_fields [simp]:
  "message (updateMemberName n p db) = message db"
  "meta (updateMemberName n p db) = meta db"
  "member_name_history (updateMemberName n p db) = member_name_history db"
  "map member_id (member (updateMemberName n p db)) = map member_id (member db)"
  "map member_platform_id (member (updateMemberName n p db)) = map member_platform_id (member db)"
  by (simp_all add: updateMemberName_def)

lemma updateMemberName_names:
  "member_name ` set (member (updateMemberName n p db)) \<subseteq> insert n (member_name ` set (member db))"
  by (auto simp: updateMemberName_def)

lemma insertNameHistory_fields [simp]:
  "message (insertNameHistory r db) = message db"
  "meta (insertNameHistory r db) = meta db"
  "member (insertNameHistory r db) = member db"
  "member_name_history (insertNameHistory r db) = member_name_history db @ [r]"
  by (simp_all add: insertNameHistory_def)

lemma insert_rows_quiet:
  "quiet s \<Longrightarrow>
   foldl (\<lambda>s row. guard (run (insertNameHistory row)) s) s rows =
     s\<lparr>cur := (cur s)\<lparr>member_name_history := member_name_history (cur s) @ rows\<rparr>\<rparr>"
proof (induction rows arbitrary: s)
  case Nil
  then show ?case by simp
next
  case (Cons r rows)
  have "quiet (s\<lparr>cur := insertNameHistory r (cur s)\<rparr>)" using Cons.prems by simp
  from Cons.IH[OF this] Cons.prems show ?case
    by (simp add: run_quiet quiet_thrown insertNameHistory_def)
qed

lemma hist_extends_refl: "quiet s \<Longrightarrow> hist_extends [] {} s s"
  by (simp add: hist_extends_def)

lemma hist_extends_trans:
  assumes a: "hist_extends r1 n1 s s'" and b: "hist_extends r2 n2 s' s''"
  shows "hist_extends (r1 @ r2) (n1 \<union> n2) s s''"
proof -
  from a have a6: "member_name ` set (member (cur s')) \<subseteq> member_name ` set (member (cur s)) \<union> n1"
    by (simp add: hist_extends_def)
  from b have b6: "member_name ` set (member (cur s'')) \<subseteq> member_name ` set (member (cur s')) \<union> n2"
    by (simp add: hist_extends_def)
  from a6 b6 have c6: "member_name ` set (member (cur s'')) \<subseteq> member_name ` set (member (cur s)) \<union> (n1 \<union> n2)"
    by blast
  from a b show ?thesis
    unfolding hist_extends_def by (intro conjI c6) simp_all
qed

lemma writeHistory_quiet:
  assumes "quiet s"
  shows "hist_extends (entryRows (memberIdMap s) e) {tr_currentName (snd e)} s (writeHistory e s)"
proof -
  obtain p t where e: "e = (p, t)" by (cases e)
  show ?thesis
    using assms
    by (auto simp: e writeHistory_def entryRows_def hist_extends_def Let_def run_quiet
        insert_rows_quiet quiet_thrown updateMemberName_def split: option.splits)
qed

lemma writeHistory_fold:
  assumes "quiet s"
  shows "hist_extends (concat (map (entryRows (memberIdMap s)) es))
           ((\<lambda>e. tr_currentName (snd e)) ` set es) s
           (foldl (\<lambda>s entry. guard (writeHistory entry) s) s es)"
  using assms
proof (induction es arbitrary: s)
  case Nil
  then show ?case by (simp add: hist_extends_refl)
next
  case (Cons e es)
  let ?s1 = "writeHistory e s"
  have h1: "hist_extends (entryRows (memberIdMap s) e) {tr_currentName (snd e)} s ?s1"
    by (rule writeHistory_quiet[OF Cons.prems])
  then have q1: "quiet ?s1" and m1: "memberIdMap ?s1 = memberIdMap s"
    by (simp_all add: hist_extends_def)
  from Cons.IH[OF q1] have
    h2: "hist_extends (concat (map (entryRows (memberIdMap s)) es))
           ((\<lambda>e. tr_currentName (snd e)) ` set es) ?s1
           (foldl (\<lambda>s entry. guard (writeHistory entry) s) ?s1 es)"
    by (simp add: m1)
  from hist_extends_trans[OF h1 h2] Cons.prems show ?case
    by (simp add: quiet_thrown)
qed

lemma import_try_final:
  assumes "streaming s" "store_inv s"
  shows "thrown (import_try now events None s) = None"
    and "\<not> dbInTx (import_try now events None s)"
    and "committed (import_try now events None s) = cur (import_try now events None s)"
    and "member_name_history (cur (import_try now events None s)) =
           member_name_history (cur (streamed now events s)) @
           concat (map (entryRows (memberIdMap (streamed now events s)))
                       (nicknameTracker (streamed now events s)))"
    and "map member_id (member (cur (import_try now events None s))) =
           map member_id (member (cur (streamed now events s)))"
    and "map member_platform_id (member (cur (import_try now events None s))) =
           map member_platform_id (member (cur (streamed now events s)))"
    and "member_name ` set (member (cur (import_try now events None s))) \<subseteq>
           member_name ` set (member (cur (streamed now events s))) \<union>
           (\<lambda>e. tr_currentName (snd e)) ` set (nicknameTracker (streamed now events s))"
    and "message (cur (import_try now events None s)) = message (cur (streamed now events s))"
    and "meta (cur (import_try now events None s)) = meta (cur (streamed now events s))"
proof -
  define s1 where "s1 = streamed now events s"
  have p1: "streaming s1" using events_props[OF assms(1,2), of now events] by (simp add: s1_def streamed_def)
  define s3 where "s3 = s1\<lparr>committed := cur s1, dbInTx := True, inTransaction := False\<rparr>"
  have q3: "quiet s3" using p1 by (simp add: quiet_def streaming_def s3_def)
  define s4 where "s4 = foldl (\<lambda>s entry. guard (writeHistory entry) s) s3 (nicknameTracker s3)"
  have h: "hist_extends (concat (map (entryRows (memberIdMap s3)) (nicknameTracker s3)))
           ((\<lambda>e. tr_currentName (snd e)) ` set (nicknameTracker s3)) s3 s4"
    unfolding s4_def by (rule writeHistory_fold[OF q3])
  then have q4: "quiet s4" by (simp add: hist_extends_def)
  have e3: "guard exec_BEGIN (guard (\<lambda>s. if inTransaction s
                           then guard (\<lambda>s. s\<lparr>inTransaction := False\<rparr>) (exec_COMMIT s)
                           else s) s1) = s3"
    using p1 by (simp add: streaming_def exec_COMMIT_def exec_BEGIN_def s3_def)
  have eq: "import_try now events None s = s4\<lparr>committed := cur s4, dbInTx := False\<rparr>"
    using q3 q4
    by (simp add: import_try_def streamParseFile_def Let_def streamed_def[symmetric] s1_def[symmetric] e3
        quiet_thrown s4_def[symmetric])
       (simp add: exec_COMMIT_def run_def doCheckpoint_def quiet_def)
  show "thrown (import_try now events None s) = None"
       "\<not> dbInTx (import_try now events None s)"
       "committed (import_try now events None s) = cur (import_try now events None s)"
    using q4 by (simp_all add: eq quiet_def)
  have c3: "cur s3 = cur s1" "memberIdMap s3 = memberIdMap s1" "nicknameTracker s3 = nicknameTracker s1"
    by (simp_all add: s3_def)
  from h show "member_name_history (cur (import_try now events None s)) =
           member_name_history (cur (streamed now events s)) @
           concat (map (entryRows (memberIdMap (streamed now events s)))
                       (nicknameTracker (streamed now events s)))"
    by (simp add: eq hist_extends_def c3 s1_def)
  from h show "map member_id (member (cur (import_try now events None s))) =
           map member_id (member (cur (streamed now events s)))"
    by (simp add: eq hist_extends_def c3 s1_def)
  from h show "map member_platform_id (member (cur (import_try now events None s))) =
           map member_platform_id (member (cur (streamed now events s)))"
    by (simp add: eq hist_extends_def c3 s1_def)
  from h show "member_name ` set (member (cur (import_try now events None s))) \<subseteq>
           member_name ` set (member (cur (streamed now events s))) \<union>
           (\<lambda>e. tr_currentName (snd e)) ` set (nicknameTracker (streamed now events s))"
    by (simp add: eq hist_extends_def c3 s1_def)
  from h show "message (cur (import_try now events None s)) = message (cur (streamed now events s))"
    by (simp add: eq hist_extends_def c3 s1_def)
  from h show "meta (cur (import_try now events None s)) = meta (cur (streamed now events s))"
    by (simp add: eq hist_extends_def c3 s1_def)
qed

lemma setup_streaming:
  "streaming (import_setup (import_init db None))"
  "store_inv (import_setup (import_init empty_database None))"
  "cur (import_setup (import_init db None)) = db"
  "nicknameTracker (import_setup (import_init db None)) = []"
  "memberNicknameMap (import_setup (import_init db None)) = []"
proof -
  have t: "((guard tick) ^^ 10) (import_init db None) = import_init db None" for db
    by (simp add: import_init_def numeral_nat funpow_simps_right)
  have e: "import_setup (import_init db None) = (import_init db None)\<lparr>dbInTx := True, inTransaction := True\<rparr>" for db
    by (simp add: import_setup_def t) (simp add: import_init_def beginTransaction_def exec_BEGIN_def)
  show "streaming (import_setup (import_init db None))"
    by (simp add: e streaming_def) (simp add: import_init_def)
  show "store_inv (import_setup (import_init empty_database None))"
    by (simp add: e store_inv_def) (simp add: import_init_def empty_database_def map_get_def)
  show "cur (import_setup (import_init db None)) = db"
       "nicknameTracker (import_setup (import_init db None)) = []"
       "memberNicknameMap (import_setup (import_init db None)) = []"
    by (simp_all add: e) (simp_all add: import_init_def)
qed

lemma entryRows_member:
  "r \<in> set (entryRows idmap e) \<Longrightarrow> map_get idmap (fst e) = Some (nh_member_id r)"
  by (cases e) (auto simp: entryRows_def Let_def historyRows_member split: option.splits if_splits)

lemma entryRows_gapless: "gapless (sort_key nh_start_ts (entryRows idmap e))"
  by (cases e) (auto simp: entryRows_def Let_def historyRows_sorted_gapless split: option.splits)

lemma entryRows_many:
  assumes "entryRows idmap (p, t) \<noteq> []"
  shows "2 \<le> card (fst ` set (tr_history t))"
proof -
  from assms have "2 \<le> length (map_delete (uniqueNames (tr_history t)) p)"
    by (auto simp: entryRows_def Let_def split: option.splits if_splits)
  also have "\<dots> \<le> length (uniqueNames (tr_history t))" by (rule length_map_delete_le)
  finally show ?thesis by (simp add: length_uniqueNames)
qed

lemma filter_entryRows:
  assumes "distinct (map fst es)"
      and inj: "\<And>p q i. map_get idmap p = Some i \<Longrightarrow> map_get idmap q = Some i \<Longrightarrow> p = q"
  shows "filter (\<lambda>h. nh_member_id h = m) (concat (map (entryRows idmap) es)) = [] \<or>
         (\<exists>e \<in> set es. filter (\<lambda>h. nh_member_id h = m) (concat (map (entryRows idmap) es)) = entryRows idmap e \<and>
                       map_get idmap (fst e) = Some m)"
  using assms(1)
proof (induction es)
  case Nil
  then show ?case by simp
next
  case (Cons e es)
  show ?case
  proof (cases "map_get idmap (fst e) = Some m")
    case True
    have h: "filter (\<lambda>h. nh_member_id h = m) (entryRows idmap e) = entryRows idmap e"
      using entryRows_member[of _ idmap e] True by (auto simp: filter_id_conv)
    have "filter (\<lambda>h. nh_member_id h = m) (concat (map (entryRows idmap) es)) = []"
    proof -
      have "\<And>e' r. e' \<in> set es \<Longrightarrow> r \<in> set (entryRows idmap e') \<Longrightarrow> nh_member_id r \<noteq> m"
      proof
        fix e' r assume a: "e' \<in> set es" "r \<in> set (entryRows idmap e')" "nh_member_id r = m"
        from entryRows_member[OF a(2)] a(3) have "map_get idmap (fst e') = Some m" by simp
        from inj[OF this True] have "fst e' = fst e" .
        with a(1) Cons.prems show False by (auto simp: image_iff)
      qed
      then show ?thesis by (auto simp: filter_empty_conv)
    qed
    with h True show ?thesis by simp
  next
    case False
    have h: "filter (\<lambda>h. nh_member_id h = m) (entryRows idmap e) = []"
      using entryRows_member[of _ idmap e] False by (auto simp: filter_empty_conv)
    from Cons.IH Cons.prems have "filter (\<lambda>h. nh_member_id h = m) (concat (map (entryRows idmap) es)) = [] \<or>
         (\<exists>e \<in> set es. filter (\<lambda>h. nh_member_id h = m) (concat (map (entryRows idmap) es)) = entryRows idmap e \<and>
                       map_get idmap (fst e) = Some m)"
      by simp
    with h show ?thesis by auto
  qed
qed

lemma store_inv_inj:
  assumes "store_inv s" "map_get (memberIdMap s) p = Some i" "map_get (memberIdMap s) q = Some i"
  shows "p = q"
proof -
  from assms have g: "getMemberId (cur s) p = Some i" "getMemberId (cur s) q = Some i"
    and d: "distinct (map member_platform_id (member (cur s)))" "distinct (map member_id (member (cur s)))"
    by (simp_all add: store_inv_def)
  from g d(1) obtain m1 m2 where
    m: "m1 \<in> set (member (cur s))" "member_platform_id m1 = p" "member_id m1 = i"
       "m2 \<in> set (member (cur s))" "member_platform_id m2 = q" "member_id m2 = i"
    by (auto simp: getMemberId_Some_iff)
  from d(2) have "inj_on member_id (set (member (cur s)))" by (simp add: distinct_map)
  with m have "m1 = m2" by (auto dest: inj_onD)
  with m show ?thesis by simp
qed

lemma trackNickname_tracked:
  assumes "tracked_in obs s"
  shows "tracked_in (obs \<union> (if isRealNickname s p n then {(p, n)} else {})) (trackNickname p n ts s)"
  unfolding tracked_in_def
proof (intro ballI)
  fix e h assume e: "e \<in> set (nicknameTracker (trackNickname p n ts s))" and h: "h \<in> set (tr_history (snd e))"
  show "(fst e, fst h) \<in> obs \<union> (if isRealNickname s p n then {(p, n)} else {})"
  proof (cases "map_get (nicknameTracker s) p")
    case None
    show ?thesis
    proof (cases "isRealNickname s p n")
      case True
      with None e have "e = (p, \<lparr>tr_currentName = n, tr_lastSeenTs = ts, tr_history = [(n, ts)]\<rparr>) \<or> e \<in> set (nicknameTracker s)"
        by (auto simp: trackNickname_def dest: in_map_set)
      with h True assms show ?thesis by (auto simp: tracked_in_def)
    next
      case False
      with None e have "e \<in> set (nicknameTracker s)" by (simp add: trackNickname_def)
      with h assms show ?thesis by (auto simp: tracked_in_def)
    qed
  next
    case (Some t)
    then have t: "(p, t) \<in> set (nicknameTracker s)" by (rule map_get_in)
    show ?thesis
    proof (cases "tr_currentName t \<noteq> n \<and> isRealNickname s p n")
      case True
      with Some e have "e = (p, \<lparr>tr_currentName = n, tr_lastSeenTs = ts, tr_history = tr_history t @ [(n, ts)]\<rparr>) \<or> e \<in> set (nicknameTracker s)"
        by (auto simp: trackNickname_def dest: in_map_set)
      with h True assms t show ?thesis by (fastforce simp: tracked_in_def)
    next
      case False
      with Some e have "e = (p, t\<lparr>tr_lastSeenTs := ts\<rparr>) \<or> e \<in> set (nicknameTracker s)"
        by (auto simp: trackNickname_def dest: in_map_set)
      with h assms t show ?thesis by (fastforce simp: tracked_in_def)
    qed
  qed
qed

lemma tracked_in_mono: "tracked_in A s \<Longrightarrow> A \<subseteq> B \<Longrightarrow> tracked_in B s"
  unfolding tracked_in_def by (meson subsetD)

lemma tracked_in_cong: "nicknameTracker s = nicknameTracker t \<Longrightarrow> tracked_in A s = tracked_in A t"
  by (simp add: tracked_in_def)

lemma onMessage_tracked:
  assumes "streaming s" "store_inv s" "tracked_in obs s"
  shows "tracked_in (obs \<union> (if realName (memberNicknameMap s) msg then {(senderPlatformId msg, senderName msg)} else {}))
           (onMessage msg s)"
    and "memberNicknameMap (onMessage msg s) = memberNicknameMap s"
proof -
  show "memberNicknameMap (onMessage msg s) = memberNicknameMap s"
    using onMessage_valid[OF assms(1,2), of msg] by (cases "validMessage msg") (auto simp: onMessage_invalid)
  show "tracked_in (obs \<union> (if realName (memberNicknameMap s) msg then {(senderPlatformId msg, senderName msg)} else {}))
           (onMessage msg s)"
  proof (cases "validMessage msg")
    case False
    with assms(3) show ?thesis by (simp add: onMessage_invalid realName_def)
  next
    case True
    from onMessage_valid[OF assms(1,2) True] obtain ts where
      f: "nicknameTracker (onMessage msg s) =
          nicknameTracker (trackNickname (senderPlatformId msg) (senderName msg) ts s)"
      by blast
    have "tracked_in (obs \<union> (if isRealNickname s (senderPlatformId msg) (senderName msg)
                               then {(senderPlatformId msg, senderName msg)} else {}))
            (trackNickname (senderPlatformId msg) (senderName msg) ts s)"
      by (rule trackNickname_tracked[OF assms(3)])
    moreover have "isRealNickname s (senderPlatformId msg) (senderName msg) = realName (memberNicknameMap s) msg"
      using True by (simp add: isRealNickname_def realName_def)
    ultimately show ?thesis
      using tracked_in_cong[OF f] by simp
  qed
qed

lemma onMessageBatch_tracked:
  assumes "streaming s" "store_inv s" "tracked_in obs s"
  shows "tracked_in (obs \<union> set (map (\<lambda>m. (senderPlatformId m, senderName m))
                                  (filter (realName (memberNicknameMap s)) b)))
           (onMessageBatch b s) \<and>
         memberNicknameMap (onMessageBatch b s) = memberNicknameMap s"
  using assms
proof (induction b arbitrary: s obs)
  case Nil
  then show ?case by (simp add: onMessageBatch_def)
next
  case (Cons m b)
  let ?s1 = "onMessage m s"
  let ?o1 = "obs \<union> (if realName (memberNicknameMap s) m then {(senderPlatformId m, senderName m)} else {})"
  have s1: "streaming ?s1" "store_inv ?s1"
    using onMessage_inv[OF Cons.prems(1,2)] by simp_all
  note t1 = onMessage_tracked[OF Cons.prems, of m]
  have eq: "onMessageBatch (m # b) s = onMessageBatch b ?s1"
    using Cons.prems(1) by (simp add: onMessageBatch_def streaming_thrown)
  from Cons.IH[OF s1 t1(1)] have ih:
    "tracked_in (?o1 \<union> set (map (\<lambda>m. (senderPlatformId m, senderName m))
                                  (filter (realName (memberNicknameMap s)) b)))
           (onMessageBatch b ?s1)"
    "memberNicknameMap (onMessageBatch b ?s1) = memberNicknameMap s"
    by (simp_all add: t1(2))
  have "tracked_in (obs \<union> set (map (\<lambda>m. (senderPlatformId m, senderName m))
                                  (filter (realName (memberNicknameMap s)) (m # b))))
           (onMessageBatch b ?s1)"
    by (rule tracked_in_mono[OF ih(1)]) auto
  with ih(2) show ?case by (simp only: eq)
qed

lemma onMembers_tracked:
  assumes "streaming s" "store_inv s"
  shows "nicknameTracker (onMembers ms s) = nicknameTracker s \<and>
         memberNicknameMap (onMembers ms s) = foldl nick_step (memberNicknameMap s) ms"
  using assms
proof (induction ms arbitrary: s)
  case Nil
  then show ?case by (simp add: onMembers_def)
next
  case (Cons m ms)
  let ?s1 = "onMember m s"
  have s1: "streaming ?s1" "store_inv ?s1"
    using Cons.prems by (simp_all add: onMember_streaming onMember_inv)
  have eq: "onMembers (m # ms) s = onMembers ms ?s1"
    using Cons.prems(1) by (simp add: onMembers_def streaming_thrown)
  from Cons.IH[OF s1] show ?case
    by (simp add: eq onMember_streaming[OF Cons.prems(1)] nick_step_def)
qed

lemma events_tracked:
  assumes "streaming s" "store_inv s" "tracked_in (set obs) s"
  shows "tracked_in (set (snd (foldl observe (memberNicknameMap s, obs) events))) (streamed now events s) \<and>
         memberNicknameMap (streamed now events s) = fst (foldl observe (memberNicknameMap s, obs) events)"
  using assms
proof (induction events arbitrary: s obs)
  case Nil
  then show ?case by (simp add: streamed_def)
next
  case (Cons e events)
  let ?s1 = "dispatch now e s"
  note d = dispatch_props[OF Cons.prems(1,2), of now e]
  from d have s1: "streaming ?s1" "store_inv ?s1" by simp_all
  have eq: "streamed now (e # events) s = streamed now events ?s1"
    using Cons.prems(1) by (simp add: streamed_def streaming_thrown)
  have g: "tracked_in (set (snd (observe (memberNicknameMap s, obs) e))) ?s1 \<and>
           memberNicknameMap ?s1 = fst (observe (memberNicknameMap s, obs) e)"
  proof (cases e)
    case (Progress p)
    with Cons.prems(3) show ?thesis by (simp add: dispatch_def)
  next
    case (Meta m)
    with Cons.prems show ?thesis
      by (auto simp: dispatch_def onMeta_streaming tracked_in_def)
  next
    case (Members ms)
    with onMembers_tracked[OF Cons.prems(1,2), of ms] Cons.prems(3) show ?thesis
      by (simp add: dispatch_def tracked_in_def)
  next
    case (Messages b)
    with onMessageBatch_tracked[OF Cons.prems, of b] show ?thesis
      by (simp add: dispatch_def)
  next
    case (Done n m)
    with Cons.prems(3) show ?thesis by (simp add: dispatch_def)
  qed
  obtain nick' obs' where o: "observe (memberNicknameMap s, obs) e = (nick', obs')"
    by (cases "observe (memberNicknameMap s, obs) e")
  from g o have g': "tracked_in (set obs') ?s1" "memberNicknameMap ?s1 = nick'" by simp_all
  from Cons.IH[OF s1 g'(1)] show ?case
    by (simp add: eq o g'(2))
qed

lemma guard_thrown: "thrown s = Some e \<Longrightarrow> guard f s = s"
  by (simp add: guard_def)

lemma import_try_parse_error:
  assumes "streaming s" "store_inv s"
  shows "thrown (import_try now events (Some e) s) = Some e"
proof -
  have "streaming (streamed now events s)"
    using events_props[OF assms, of now events] by (simp add: streamed_def)
  then have "thrown (streamed now events s) = None" by (rule streaming_thrown)
  then have "streamParseFile now events (Some e) s = (streamed now events s)\<lparr>thrown := Some e\<rparr>"
    by (simp add: streamParseFile_def Let_def streamed_def[symmetric] throw_def)
  then show ?thesis
    by (simp add: import_try_def Let_def guard_thrown)
qed

lemma import_run_ok:
  "import_run (inp\<lparr>in_parseError := None, in_fault := None\<rparr>) empty_database =
     import_try (in_now inp) (in_events inp) None (import_setup (import_init empty_database None))"
  using import_try_final(1,2)[OF setup_streaming(1,2), of "in_now inp" "in_events inp"]
    streaming_thrown[OF setup_streaming(1), of empty_database]
  by (simp add: import_run_def Let_def db_close_def)

lemma import_run_parse_error:
  "thrown (import_run (inp\<lparr>in_parseError := Some e, in_fault := None\<rparr>) empty_database) = Some e"
  using import_try_parse_error[OF setup_streaming(1,2), of "in_now inp" "in_events inp" e]
    streaming_thrown[OF setup_streaming(1), of empty_database]
  by (simp add: import_run_def Let_def db_close_def import_catch_def exec_ROLLBACK_ignoring_def)

lemma newDatabase_fresh:
  assumes "map_of (dbDir w) sid = None"
  shows "newDatabase sid w =
           (nextFile w, w\<lparr>dbDir := dbDir w @ [(sid, nextFile w)],
                          fileData := (fileData w)(nextFile w := empty_database),
                          nextFile := nextFile w + 1\<rparr>)"
  using assms by (simp add: newDatabase_def)

lemma streamImport_success:
  assumes fresh: "map_of (dbDir w) (in_sessionId inp) = None"
      and flt: "in_fault inp = None"
      and ok: "streamImport inp w = (Returned r, w')" "res_success r"
  shows "in_parseError inp = None"
    and "dbDir w' = dbDir w @ [(in_sessionId inp, nextFile w)]"
    and "fileData w' (nextFile w) = imported inp"
    and "dbCache w' = dbCache w"
proof -
  have inp: "inp = inp\<lparr>in_parseError := in_parseError inp, in_fault := None\<rparr>"
    using flt by simp
  show pe: "in_parseError inp = None"
  proof (rule ccontr)
    assume "in_parseError inp \<noteq> None"
    then obtain e where e: "in_parseError inp = Some e" by auto
    have "thrown (import_run inp empty_database) = Some e"
      using import_run_parse_error[where inp=inp and e=e] inp e by simp
    with ok flt streaming_thrown[OF setup_streaming(1), of empty_database] show False
      by (auto simp: streamImport_def newDatabase_def fresh Let_def cleanup_def
          split: option.splits sum.splits)
  qed
  have run: "import_run inp empty_database =
          import_try (in_now inp) (in_events inp) None (import_setup (import_init empty_database None))"
    using import_run_ok[where inp=inp] inp pe by simp
  note fin = import_try_final(1,3)[OF setup_streaming(1,2), of "in_now inp" "in_events inp"]
  show "dbDir w' = dbDir w @ [(in_sessionId inp, nextFile w)]"
       "fileData w' (nextFile w) = imported inp"
       "dbCache w' = dbCache w"
    using ok flt streaming_thrown[OF setup_streaming(1), of empty_database] fin
    by (auto simp: streamImport_def newDatabase_def fresh Let_def cleanup_def run imported_def
          split: option.splits sum.splits)
qed

lemma find_cong_maps:
  "map f xs = map f ys \<Longrightarrow> map g xs = map g ys \<Longrightarrow>
   (case find (\<lambda>m. f m = p) xs of None \<Rightarrow> None | Some m \<Rightarrow> Some (g m)) =
   (case find (\<lambda>m. f m = p) ys of None \<Rightarrow> None | Some m \<Rightarrow> Some (g m))"
proof (induction xs arbitrary: ys)
  case Nil
  then show ?case by simp
next
  case (Cons x xs)
  then obtain y ys' where ys: "ys = y # ys'" by (cases ys) auto
  with Cons.prems have "f x = f y" "g x = g y" "map f xs = map f ys'" "map g xs = map g ys'"
    by simp_all
  with Cons.IH[of ys'] ys show ?case by simp
qed

lemma getMemberId_cong:
  assumes "map member_platform_id (member db) = map member_platform_id (member db')"
      and "map member_id (member db) = map member_id (member db')"
  shows "getMemberId db pid = getMemberId db' pid"
  unfolding getMemberId_def using assms by (rule find_cong_maps)

lemma finite_observedRealNames: "finite (observedRealNames events pid)"
  by (simp add: observedRealNames_def)

lemma imported_history:
  fixes inp
  defines "S \<equiv> streamed (in_now inp) (in_events inp) (import_setup (import_init empty_database None))"
  shows "member_name_history (imported inp) =
           concat (map (entryRows (memberIdMap S)) (nicknameTracker S))"
    and "store_inv S"
    and "getMemberId (imported inp) pid = getMemberId (cur S) pid"
    and "tracked_in (set (snd (foldl observe ([], []) (in_events inp)))) S"
proof -
  let ?s0 = "import_setup (import_init empty_database None)"
  note st = setup_streaming(1)[of empty_database] setup_streaming(2)
  note ep = events_props[OF st, of "in_now inp" "in_events inp", folded streamed_def, folded S_def]
  from ep show inv: "store_inv S" by simp
  from ep have "member_name_history (cur S) = member_name_history (cur ?s0)"
    by (simp add: extends_def)
  then have h0: "member_name_history (cur S) = []"
    by (simp add: setup_streaming(3) empty_database_def)
  note fin = import_try_final[OF st, of "in_now inp" "in_events inp", folded S_def]
  from fin(4) h0 show "member_name_history (imported inp) =
           concat (map (entryRows (memberIdMap S)) (nicknameTracker S))"
    by (simp add: imported_def)
  from fin(5,6) show "getMemberId (imported inp) pid = getMemberId (cur S) pid"
    unfolding imported_def by (intro getMemberId_cong) simp_all
  have t0: "tracked_in (set []) ?s0" by (simp add: tracked_in_def setup_streaming(4))
  from events_tracked[OF st t0, of "in_events inp" "in_now inp"]
  show "tracked_in (set (snd (foldl observe ([], []) (in_events inp)))) S"
    by (simp add: setup_streaming(5) S_def)
qed

lemma imported_rows:
  "filter (\<lambda>h. nh_member_id h = m) (member_name_history (imported inp)) = [] \<or>
   (\<exists>p t. filter (\<lambda>h. nh_member_id h = m) (member_name_history (imported inp)) =
             entryRows (memberIdMap (streamed (in_now inp) (in_events inp)
                          (import_setup (import_init empty_database None)))) (p, t) \<and>
          getMemberId (imported inp) p = Some m \<and>
          fst ` set (tr_history t) \<subseteq> observedRealNames (in_events inp) p)"
proof -
  define S where "S = streamed (in_now inp) (in_events inp) (import_setup (import_init empty_database None))"
  note ih = imported_history[of inp, folded S_def]
  have d: "distinct (map fst (nicknameTracker S))" using ih(2) by (simp add: store_inv_def)
  have inj: "\<And>p q i. map_get (memberIdMap S) p = Some i \<Longrightarrow>
                   map_get (memberIdMap S) q = Some i \<Longrightarrow> p = q"
    by (rule store_inv_inj[OF ih(2)])
  have fe: "filter (\<lambda>h. nh_member_id h = m) (member_name_history (imported inp)) = [] \<or>
         (\<exists>e \<in> set (nicknameTracker S).
             filter (\<lambda>h. nh_member_id h = m) (member_name_history (imported inp)) =
               entryRows (memberIdMap S) e \<and>
             map_get (memberIdMap S) (fst e) = Some m)"
    unfolding ih(1) using d inj by (rule filter_entryRows)
  show ?thesis
  proof (cases "filter (\<lambda>h. nh_member_id h = m) (member_name_history (imported inp)) = []")
    case True
    then show ?thesis by simp
  next
    case False
    with fe obtain e where e: "e \<in> set (nicknameTracker S)"
      "filter (\<lambda>h. nh_member_id h = m) (member_name_history (imported inp)) = entryRows (memberIdMap S) e"
      "map_get (memberIdMap S) (fst e) = Some m"
      by auto
    obtain p t where pt: "e = (p, t)" by (cases e)
    from e(3) ih(2) pt have "getMemberId (cur S) p = Some m" by (simp add: store_inv_def)
    then have g: "getMemberId (imported inp) p = Some m" by (simp add: ih(3))
    from ih(4) e(1) pt have "fst ` set (tr_history t) \<subseteq> observedRealNames (in_events inp) p"
      by (force simp: tracked_in_def observedRealNames_def)
    with e(2) g pt show ?thesis unfolding S_def by blast
  qed
qed

lemma getMemberId_imported_inj:
  assumes "getMemberId (imported inp) p = Some m" "getMemberId (imported inp) q = Some m"
  shows "p = q"
proof -
  define S where "S = streamed (in_now inp) (in_events inp) (import_setup (import_init empty_database None))"
  note ih = imported_history[of inp, folded S_def]
  from assms have g: "getMemberId (cur S) p = Some m" "getMemberId (cur S) q = Some m"
    by (simp_all add: ih(3))
  from ih(2) have d: "distinct (map member_platform_id (member (cur S)))" "distinct (map member_id (member (cur S)))"
    by (simp_all add: store_inv_def)
  from g d(1) obtain m1 m2 where
    m: "m1 \<in> set (member (cur S))" "member_platform_id m1 = p" "member_id m1 = m"
       "m2 \<in> set (member (cur S))" "member_platform_id m2 = q" "member_id m2 = m"
    by (auto simp: getMemberId_Some_iff)
  from d(2) have "inj_on member_id (set (member (cur S)))" by (simp add: distinct_map)
  with m have "m1 = m2" by (auto dest: inj_onD)
  with m show ?thesis by simp
qed

lemma streamImport_ok:
  assumes fmt: "in_format inp \<noteq> None"
      and pre: "\<And>e. in_preprocess inp \<noteq> Some (Inl e)"
      and pe: "in_parseError inp = None"
      and flt: "in_fault inp = None"
      and fresh: "map_of (dbDir w) (in_sessionId inp) = None"
  shows "fst (streamImport inp w) =
           Returned \<lparr>res_success = True, res_sessionId = Some (in_sessionId inp), res_error = None\<rparr>"
    and "dbDir (snd (streamImport inp w)) = dbDir w @ [(in_sessionId inp, nextFile w)]"
    and "fileData (snd (streamImport inp w)) (nextFile w) = imported inp"
    and "dbCache (snd (streamImport inp w)) = dbCache w"
proof -
  have inp: "inp = inp\<lparr>in_parseError := None, in_fault := None\<rparr>"
    using flt pe by simp
  have run: "import_run inp empty_database =
          import_try (in_now inp) (in_events inp) None (import_setup (import_init empty_database None))"
    using import_run_ok[where inp=inp] inp by simp
  note fin = import_try_final(1,3)[OF setup_streaming(1,2), of "in_now inp" "in_events inp"]
  note th = streaming_thrown[OF setup_streaming(1), of empty_database]
  show "fst (streamImport inp w) =
           Returned \<lparr>res_success = True, res_sessionId = Some (in_sessionId inp), res_error = None\<rparr>"
       "dbDir (snd (streamImport inp w)) = dbDir w @ [(in_sessionId inp, nextFile w)]"
       "fileData (snd (streamImport inp w)) (nextFile w) = imported inp"
       "dbCache (snd (streamImport inp w)) = dbCache w"
    using fmt pre flt th fin
    by (auto simp: streamImport_def newDatabase_def fresh Let_def cleanup_def run imported_def
          split: option.splits sum.splits)
qed

section \<open>Nickname history\<close>

lemmas import_eval =
  dispatch_def onMeta_def onMembers_def onMember_def onMessageBatch_def onMessage_def
  ensureMember_def cacheMemberId_def afterInsert_def trackNickname_def isRealNickname_def
  commitAndBeginNew_def beginTransaction_def exec_BEGIN_def exec_COMMIT_def doCheckpoint_def
  run_def guard_def tick_def throw_def insertMeta_def insertMember_def getMemberId_def
  insertMessage_def next_id_def map_has_def map_get_def nickname_or_null_def
  BATCH_COMMIT_SIZE_def CHECKPOINT_INTERVAL_def Let_def
  import_try_def streamParseFile_def writeHistory_def uniqueNames_def insertNameHistory_def
  updateMemberName_def map_delete_def

lemma import_witness_imported:
  "imported import_witness_input =
     \<lparr>meta = [\<lparr>meta_name = ''group'', meta_platform = ''qq'', meta_type = ''group'',
                meta_imported_at = 1000\<rparr>],
      member = [\<lparr>member_id = 1, member_platform_id = ''a'', member_name = ''Ann'',
                  member_nickname = None\<rparr>,
                \<lparr>member_id = 2, member_platform_id = ''b'', member_name = ''Bob'',
                  member_nickname = None\<rparr>],
      member_name_history =
        [\<lparr>nh_member_id = 1, nh_name = ''Ann'', nh_start_ts = 10, nh_end_ts = Some 20\<rparr>,
         \<lparr>nh_member_id = 1, nh_name = ''Annie'', nh_start_ts = 20, nh_end_ts = None\<rparr>],
      message =
        [\<lparr>message_id = 1, message_sender_id = 1, message_ts = 10,
           message_type = 0, message_content = Some ''hello''\<rparr>,
         \<lparr>message_id = 2, message_sender_id = 2, message_ts = 15,
           message_type = 0, message_content = Some ''hi''\<rparr>,
         \<lparr>message_id = 3, message_sender_id = 1, message_ts = 20,
           message_type = 0, message_content = Some ''new name''\<rparr>,
         \<lparr>message_id = 4, message_sender_id = 1, message_ts = 30,
           message_type = 0, message_content = Some ''back''\<rparr>]\<rparr>"
  apply (simp add: imported_def import_witness_input_def import_setup_def import_init_def
      empty_database_def funpow_simps_right eval_nat_numeral)
  apply (simp add: import_eval)
  done

lemma import_witness_run:
  "fst (streamImport import_witness_input import_witness_worker) =
     Returned \<lparr>res_success = True, res_sessionId = Some ''chat_1'', res_error = None\<rparr>"
  "dbDir (snd (streamImport import_witness_input import_witness_worker)) = [(''chat_1'', 0)]"
  "fileData (snd (streamImport import_witness_input import_witness_worker)) 0 =
     imported import_witness_input"
proof -
  have a: "in_format import_witness_input \<noteq> None"
          "\<And>e. in_preprocess import_witness_input \<noteq> Some (Inl e)"
          "in_parseError import_witness_input = None"
          "in_fault import_witness_input = None"
          "map_of (dbDir import_witness_worker) (in_sessionId import_witness_input) = None"
    by (simp_all add: import_witness_input_def import_witness_worker_def)
  note ok = streamImport_ok[OF a]
  have n: "nextFile import_witness_worker = 0" "dbDir import_witness_worker = []"
          "in_sessionId import_witness_input = ''chat_1''"
    by (simp_all add: import_witness_input_def import_witness_worker_def)
  from ok(1) show "fst (streamImport import_witness_input import_witness_worker) =
     Returned \<lparr>res_success = True, res_sessionId = Some ''chat_1'', res_error = None\<rparr>"
    by (simp add: n)
  from ok(2) show "dbDir (snd (streamImport import_witness_input import_witness_worker)) = [(''chat_1'', 0)]"
    by (simp add: n)
  from ok(3) show "fileData (snd (streamImport import_witness_input import_witness_worker)) 0 =
     imported import_witness_input"
    by (simp add: n)
qed

text \<open>
  Claim C3. After a successful import into a new store file, with a store that raises no
  error: for every member, the history rows of the member in the order of their start
  are gapless (each row ends where the next one starts, none starts after the next one,
  the last one is open); and a member for whom at most one distinct real name was
  observed in the stored messages has no history row.
\<close>

theorem nickname_history_invariant:
  assumes ok: "streamImport inp w = (Returned r, w')" "res_success r"
      and flt: "in_fault inp = None"
      and fresh: "map_of (dbDir w) (in_sessionId inp) = None"
  shows "\<exists>f. map_of (dbDir w') (in_sessionId inp) = Some f \<and>
           (\<forall>m. gapless (sort_key nh_start_ts
                   (filter (\<lambda>h. nh_member_id h = m) (member_name_history (fileData w' f))))) \<and>
           (\<forall>pid m. getMemberId (fileData w' f) pid = Some m \<and>
                     card (observedRealNames (in_events inp) pid) \<le> 1 \<longrightarrow>
                     filter (\<lambda>h. nh_member_id h = m) (member_name_history (fileData w' f)) = [])"
proof -
  note si = streamImport_success[OF fresh flt ok]
  have f: "map_of (dbDir w') (in_sessionId inp) = Some (nextFile w)"
    using fresh by (simp add: si(2) map_add_def)
  have db: "fileData w' (nextFile w) = imported inp" by (rule si(3))
  have g: "gapless (sort_key nh_start_ts
             (filter (\<lambda>h. nh_member_id h = m) (member_name_history (imported inp))))" for m
    using imported_rows[of m inp] by (auto simp: entryRows_gapless)
  have z: "filter (\<lambda>h. nh_member_id h = m) (member_name_history (imported inp)) = []"
    if gm: "getMemberId (imported inp) pid = Some m"
      and c: "card (observedRealNames (in_events inp) pid) \<le> 1" for pid m
  proof (rule ccontr)
    assume ne: "filter (\<lambda>h. nh_member_id h = m) (member_name_history (imported inp)) \<noteq> []"
    with imported_rows[of m inp] obtain p t where
      pt: "filter (\<lambda>h. nh_member_id h = m) (member_name_history (imported inp)) =
             entryRows (memberIdMap (streamed (in_now inp) (in_events inp)
                          (import_setup (import_init empty_database None)))) (p, t)"
          "getMemberId (imported inp) p = Some m"
          "fst ` set (tr_history t) \<subseteq> observedRealNames (in_events inp) p"
      by auto
    from pt(2) gm have "p = pid" by (rule getMemberId_imported_inj)
    from ne pt(1) have "2 \<le> card (fst ` set (tr_history t))"
      by (auto dest: entryRows_many)
    also have "\<dots> \<le> card (observedRealNames (in_events inp) p)"
      using pt(3) by (intro card_mono finite_observedRealNames)
    finally show False using c \<open>p = pid\<close> by simp
  qed
  show ?thesis using f g z by (auto simp: db)
qed

theorem nickname_history_invariant_witness:
  "(\<exists>r. streamImport import_witness_input import_witness_worker =
          (Returned r, snd (streamImport import_witness_input import_witness_worker)) \<and>
        res_success r) \<and>
   in_fault import_witness_input = None \<and>
   map_of (dbDir import_witness_worker) (in_sessionId import_witness_input) = None \<and>
   (\<exists>f. map_of (dbDir (snd (streamImport import_witness_input import_witness_worker)))
              (in_sessionId import_witness_input) = Some f \<and>
        filter (\<lambda>h. nh_member_id h = 1)
          (member_name_history
             (fileData (snd (streamImport import_witness_input import_witness_worker)) f)) =
          [\<lparr>nh_member_id = 1, nh_name = ''Ann'', nh_start_ts = 10, nh_end_ts = Some 20\<rparr>,
           \<lparr>nh_member_id = 1, nh_name = ''Annie'', nh_start_ts = 20, nh_end_ts = None\<rparr>] \<and>
        gapless (sort_key nh_start_ts (filter (\<lambda>h. nh_member_id h = 1)
          (member_name_history
             (fileData (snd (streamImport import_witness_input import_witness_worker)) f)))) \<and>
        getMemberId
          (fileData (snd (streamImport import_witness_input import_witness_worker)) f) ''b'' = Some 2 \<and>
        card (observedRealNames (in_events import_witness_input) ''b'') = 1 \<and>
        filter (\<lambda>h. nh_member_id h = 2)
          (member_name_history
             (fileData (snd (streamImport import_witness_input import_witness_worker)) f)) = [])"
proof -
  let ?w = "snd (streamImport import_witness_input import_witness_worker)"
  let ?r = "\<lparr>res_success = True, res_sessionId = Some ''chat_1'', res_error = None\<rparr>"
  have h1: "streamImport import_witness_input import_witness_worker = (Returned ?r, ?w)"
    using import_witness_run(1) by (simp add: prod_eq_iff)
  have h2: "res_success ?r" by simp
  have h3: "in_fault import_witness_input = None" by (simp add: import_witness_input_def)
  have h4: "map_of (dbDir import_witness_worker) (in_sessionId import_witness_input) = None"
    by (simp add: import_witness_worker_def)
  have sid: "in_sessionId import_witness_input = ''chat_1''" by (simp add: import_witness_input_def)
  from nickname_history_invariant[OF h1 h2 h3 h4] obtain f where
    f: "map_of (dbDir ?w) (in_sessionId import_witness_input) = Some f"
    and g: "\<And>m. gapless (sort_key nh_start_ts
                   (filter (\<lambda>h. nh_member_id h = m) (member_name_history (fileData ?w f))))"
    and z: "\<And>pid m. getMemberId (fileData ?w f) pid = Some m \<Longrightarrow>
                     card (observedRealNames (in_events import_witness_input) pid) \<le> 1 \<Longrightarrow>
                     filter (\<lambda>h. nh_member_id h = m) (member_name_history (fileData ?w f)) = []"
    by blast
  from f have f0: "f = 0" by (simp add: import_witness_run(2) sid)
  have db: "fileData ?w f = imported import_witness_input"
    by (simp add: f0 import_witness_run(3))
  have rows: "filter (\<lambda>h. nh_member_id h = 1) (member_name_history (fileData ?w f)) =
          [\<lparr>nh_member_id = 1, nh_name = ''Ann'', nh_start_ts = 10, nh_end_ts = Some 20\<rparr>,
           \<lparr>nh_member_id = 1, nh_name = ''Annie'', nh_start_ts = 20, nh_end_ts = None\<rparr>]"
    by (simp add: db import_witness_imported)
  have b: "getMemberId (fileData ?w f) ''b'' = Some 2"
    by (simp add: db import_witness_imported getMemberId_def)
  have c: "card (observedRealNames (in_events import_witness_input) ''b'') = 1"
    by (simp add: observedRealNames_def import_witness_input_def realName_def validMessage_def
        map_get_def)
  from z[OF b] c have e: "filter (\<lambda>h. nh_member_id h = 2) (member_name_history (fileData ?w f)) = []"
    by simp
  from h1 h2 h3 h4 f rows g[of 1] b c e show ?thesis by blast
qed

section \<open>Failure of an import\<close>

text \<open>
  A failure inside the guarded block: the file is deleted, the working file of the
  preprocessor is removed, a failure value is returned and the listing does not show
  the session.
\<close>

lemma getAllSessions_ids:
  assumes "x \<in> set (getAllSessions w)"
  shows "si_id x \<in> fst ` set (dbDir w)"
proof -
  from assms obtain sid f where e: "(sid, f) \<in> set (dbDir w)"
    and x: "session_of sid (fileData w f) = Some x"
    by (auto simp: getAllSessions_def List.map_filter_def)
  from x have "si_id x = sid" by (auto simp: session_of_def split: list.splits)
  with e show ?thesis by force
qed

lemma map_of_filter_key: "map_of (filter (\<lambda>e. fst e \<noteq> k) xs) k = None"
  by (induction xs) auto

lemma streamImport_guarded_failure:
  assumes run: "streamImport inp w = (Returned r, w')"
      and fail: "\<not> res_success r"
      and fmt: "in_format inp \<noteq> None"
      and pre: "\<And>e. in_preprocess inp \<noteq> Some (Inl e)"
  shows "map_of (dbDir w') (in_sessionId inp) = None"
    and "\<And>t. in_preprocess inp = Some (Inr t) \<Longrightarrow> t \<notin> set (tempFiles w')"
    and "\<And>x. x \<in> set (getAllSessions w') \<Longrightarrow> si_id x \<noteq> in_sessionId inp"
    and "res_error r \<noteq> None"
proof -
  show d: "map_of (dbDir w') (in_sessionId inp) = None"
    using run fail fmt pre
    by (auto simp: streamImport_def Let_def cleanup_def unlinkSync_def map_of_filter_key
        split: option.splits sum.splits prod.splits)
  show "\<And>t. in_preprocess inp = Some (Inr t) \<Longrightarrow> t \<notin> set (tempFiles w')"
    using run fail fmt pre
    by (auto simp: streamImport_def Let_def cleanup_def unlinkSync_def
        split: option.splits sum.splits prod.splits)
  show "\<And>x. x \<in> set (getAllSessions w') \<Longrightarrow> si_id x \<noteq> in_sessionId inp"
    using d getAllSessions_ids[of _ w'] by (force simp: map_of_eq_None_iff)
  show "res_error r \<noteq> None"
    using run fail fmt pre
    by (auto simp: streamImport_def Let_def split: option.splits sum.splits prod.splits)
qed

lemma late_fault_run:
  "thrown (import_setup (import_init empty_database (Some 19))) = None"
  "thrown (import_run import_late_fault_input empty_database) = Some ''SqliteError''"
   apply (simp add: import_setup_def import_init_def funpow_simps_right eval_nat_numeral
       guard_def tick_def throw_def beginTransaction_def exec_BEGIN_def)
  apply (simp add: import_run_def import_late_fault_input_def import_witness_input_def import_setup_def import_init_def
      empty_database_def funpow_simps_right eval_nat_numeral)
  apply (simp add: import_eval import_catch_def exec_ROLLBACK_ignoring_def db_close_def)
  done

lemma import_late_failure:
  "fst (streamImport import_late_fault_input import_witness_worker) =
     Returned \<lparr>res_success = False, res_sessionId = None, res_error = Some ''SqliteError''\<rparr> \<and>
   dbDir (snd (streamImport import_late_fault_input import_witness_worker)) = [] \<and>
   tempFiles (snd (streamImport import_late_fault_input import_witness_worker)) = []"
proof -
  have i: "in_format import_late_fault_input = Some ''chatlab''"
     "in_preprocess import_late_fault_input = Some (Inr ''tmp1'')"
     "in_sessionId import_late_fault_input = ''chat_1''"
     "in_fault import_late_fault_input = Some 19"
    by (simp_all add: import_late_fault_input_def import_witness_input_def)
  show ?thesis
    by (simp add: streamImport_def i import_witness_worker_def newDatabase_def late_fault_run
        Let_def cleanup_def unlinkSync_def)
qed

text \<open>A failure between the creation of the file and the guarded block.\<close>

lemma fault_setup:
  "thrown (import_setup (import_init empty_database (Some 3))) = Some ''SqliteError''"
  "committed (import_setup (import_init empty_database (Some 3))) = empty_database"
  by (simp_all add: import_setup_def import_init_def funpow_simps_right eval_nat_numeral
       guard_def tick_def throw_def)

text \<open>
  Claim C1. Import is atomic: an exception raised after the store file is created
  deletes the file, removes the working file of the preprocessor and returns a failure
  value, so that the listing never shows the session. The code does this for an
  exception inside \<^verbatim>\<open>try\<close>, but not for one raised between the creation of the file
  and \<^verbatim>\<open>try\<close>: when the call that creates the tables fails, \<^verbatim>\<open>streamImport\<close> rejects
  with the error of the store, the new file stays in the data directory and the working
  file stays in the temp directory; the listing does not show the session.
\<close>

theorem import_setup_failure_leaks:
  "fst (streamImport import_fault_input import_witness_worker) = Rejected ''SqliteError'' \<and>
   dbDir (snd (streamImport import_fault_input import_witness_worker)) = [(''chat_1'', 0)] \<and>
   existsSync (snd (streamImport import_fault_input import_witness_worker)) ''chat_1'' \<and>
   tempFiles (snd (streamImport import_fault_input import_witness_worker)) = [''tmp1''] \<and>
   getAllSessions (snd (streamImport import_fault_input import_witness_worker)) = []"
  apply (simp add: streamImport_def import_fault_input_def import_witness_input_def
      import_witness_worker_def newDatabase_def import_run_def fault_setup Let_def
      existsSync_def getAllSessions_def List.map_filter_def session_of_def)
  apply (simp add: empty_database_def)
  done

end
